(* ===== verification/Umbra_Prelude.thy ===== *)
theory Umbra_Prelude
  imports Main "HOL-Library.Word"
begin

text \<open>
  Shared vocabulary of the development: the fixed-width integer types of
  \<^verbatim>\<open>mcl/stdint.hpp\<close>, the lemma collections the component theories extend, and the
  generic facts on words, options and lists they share.

  Two collections are used everywhere.  \<open>umbra_bits\<close> holds the bit-level characterisation
  of every bit-field helper, so that an equation between words is proved by comparing
  bits.  \<open>umbra_unfold\<close> holds the definitions of accessors that are nothing but a bit field
  of a register, so that a component proof can unfold them together.
\<close>

unbundle bit_operations_syntax

named_theorems umbra_bits \<open>bit-level characterisations of word operations\<close>
named_theorems umbra_unfold \<open>definitions of register accessors\<close>

section \<open>Integer types\<close>

type_synonym u8 = "8 word"
type_synonym u16 = "16 word"
type_synonym u32 = "32 word"
type_synonym u64 = "64 word"

abbreviation U8_MAX :: u8 where "U8_MAX \<equiv> - 1"
abbreviation U64_MAX :: u64 where "U64_MAX \<equiv> - 1"

section \<open>Words as bit vectors\<close>

text \<open>
  An equation between words of a fixed width is the conjunction of the equations of
  their bits.  The bounded quantifier unfolds into a finite conjunction, in which the
  simplifier decides every bit of a numeral mask.
\<close>

lemma all_less_8:
  "(\<forall>n<8. P (n::nat)) \<longleftrightarrow> P 0 \<and> P 1 \<and> P 2 \<and> P 3 \<and> P 4 \<and> P 5 \<and> P 6 \<and> P 7"
  by (simp add: numeral_eq_Suc All_less_Suc) blast

lemma all_less_16:
  "(\<forall>n<16. P (n::nat)) \<longleftrightarrow> (\<forall>n<8. P n) \<and> P 8 \<and> P 9 \<and> P 10 \<and> P 11 \<and> P 12 \<and> P 13 \<and> P 14 \<and> P 15"
  by (simp add: numeral_eq_Suc All_less_Suc) blast

lemma all_less_32:
  "(\<forall>n<32. P (n::nat)) \<longleftrightarrow> (\<forall>n<16. P n) \<and> P 16 \<and> P 17 \<and> P 18 \<and> P 19 \<and> P 20 \<and> P 21 \<and> P 22 \<and> P 23 \<and>
     P 24 \<and> P 25 \<and> P 26 \<and> P 27 \<and> P 28 \<and> P 29 \<and> P 30 \<and> P 31"
  by (simp add: numeral_eq_Suc All_less_Suc) blast

lemma all_less_64:
  "(\<forall>n<64. P (n::nat)) \<longleftrightarrow> (\<forall>n<32. P n) \<and> P 32 \<and> P 33 \<and> P 34 \<and> P 35 \<and> P 36 \<and> P 37 \<and> P 38 \<and> P 39 \<and>
     P 40 \<and> P 41 \<and> P 42 \<and> P 43 \<and> P 44 \<and> P 45 \<and> P 46 \<and> P 47 \<and> P 48 \<and> P 49 \<and> P 50 \<and> P 51 \<and> P 52 \<and> P 53 \<and>
     P 54 \<and> P 55 \<and> P 56 \<and> P 57 \<and> P 58 \<and> P 59 \<and> P 60 \<and> P 61 \<and> P 62 \<and> P 63"
  by (simp add: numeral_eq_Suc All_less_Suc) blast

lemma word8_eq_bits: "(x::u8) = y \<longleftrightarrow> (\<forall>n<8. bit x n = bit y n)"
  by (auto intro: bit_word_eqI)

lemma word16_eq_bits: "(x::u16) = y \<longleftrightarrow> (\<forall>n<16. bit x n = bit y n)"
  by (auto intro: bit_word_eqI)

lemma word32_eq_bits: "(x::u32) = y \<longleftrightarrow> (\<forall>n<32. bit x n = bit y n)"
  by (auto intro: bit_word_eqI)

lemma word64_eq_bits: "(x::u64) = y \<longleftrightarrow> (\<forall>n<64. bit x n = bit y n)"
  by (auto intro: bit_word_eqI)

lemmas bits8 = word8_eq_bits all_less_8
lemmas bits16 = word16_eq_bits all_less_16 all_less_8
lemmas bits32 = word32_eq_bits all_less_32 all_less_16 all_less_8
lemmas bits64 = word64_eq_bits all_less_64 all_less_32 all_less_16 all_less_8

lemma not_bit_beyond [simp]: "LENGTH('a) \<le> n \<Longrightarrow> \<not> bit (w :: 'a::len word) n"
  by (auto dest: bit_imp_le_length)

lemma word_eq_0_bits: "(w :: 'a::len word) = 0 \<longleftrightarrow> (\<forall>n<LENGTH('a). \<not> bit w n)"
  by (auto intro: bit_word_eqI)

lemma unat_drop_bit_1_less: "(x :: 'a::len word) \<noteq> 0 \<Longrightarrow> unat (drop_bit 1 x) < unat x"
proof -
  assume "x \<noteq> 0"
  then have "0 < unat x" by (simp add: unat_gt_0)
  then show ?thesis
    unfolding unat_drop_bit_eq by (simp add: drop_bit_eq_div)
qed

section \<open>Options and lists\<close>

text \<open>
  A failed \<^verbatim>\<open>ASSERT\<close> of the source ends the process; a model function that can reach one
  returns an option, and \<^const>\<open>None\<close> is the abort.
\<close>

definition assert_opt :: "bool \<Rightarrow> unit option" where
  "assert_opt b = (if b then Some () else None)"

lemma assert_opt_simps [simp]:
  "assert_opt True = Some ()"
  "assert_opt False = None"
  by (simp_all add: assert_opt_def)

lemma assert_opt_eq_Some [simp]: "assert_opt b = Some u \<longleftrightarrow> b"
  by (simp add: assert_opt_def)

lemma bind_assert_opt [simp]:
  "Option.bind (assert_opt b) f = (if b then f () else None)"
  by (simp add: assert_opt_def)

definition nth_opt :: "'a list \<Rightarrow> nat \<Rightarrow> 'a option" where
  "nth_opt xs i = (if i < length xs then Some (xs ! i) else None)"

lemma nth_opt_eq_Some [simp]: "nth_opt xs i = Some x \<longleftrightarrow> i < length xs \<and> xs ! i = x"
  by (simp add: nth_opt_def)

lemma nth_opt_less [simp]: "i < length xs \<Longrightarrow> nth_opt xs i = Some (xs ! i)"
  by (simp add: nth_opt_def)

end
