(* ===== verification/IR_Types.thy ===== *)
theory IR_Types
  imports Umbra_Prelude
begin

text \<open>
  The types and opcodes of the intermediate representation: the flag values of
  \<^verbatim>\<open>IR::Type\<close> (\<^verbatim>\<open>ir/type.h\<close>, \<^verbatim>\<open>ir/type.cpp\<close>), the enumerations \<^verbatim>\<open>IR::Cond\<close> and
  \<^verbatim>\<open>IR::AccType\<close>, and the opcode table that \<^verbatim>\<open>ir/opcodes.cpp\<close> builds from
  \<^verbatim>\<open>ir/opcodes.inc\<close>.  An opcode is its enumerator's name, so the table is keyed by
  name where the source indexes an array by the enumerator.
\<close>

section \<open>Types\<close>

type_synonym ir_type = u64

abbreviation Type_Void :: ir_type where "Type_Void \<equiv> 0"
abbreviation Type_A32Reg :: ir_type where "Type_A32Reg \<equiv> 0x1"
abbreviation Type_A32ExtReg :: ir_type where "Type_A32ExtReg \<equiv> 0x2"
abbreviation Type_A64Reg :: ir_type where "Type_A64Reg \<equiv> 0x4"
abbreviation Type_A64Vec :: ir_type where "Type_A64Vec \<equiv> 0x8"
abbreviation Type_Opaque :: ir_type where "Type_Opaque \<equiv> 0x10"
abbreviation Type_U1 :: ir_type where "Type_U1 \<equiv> 0x20"
abbreviation Type_U8 :: ir_type where "Type_U8 \<equiv> 0x40"
abbreviation Type_U16 :: ir_type where "Type_U16 \<equiv> 0x80"
abbreviation Type_U32 :: ir_type where "Type_U32 \<equiv> 0x100"
abbreviation Type_U64 :: ir_type where "Type_U64 \<equiv> 0x200"
abbreviation Type_U128 :: ir_type where "Type_U128 \<equiv> 0x400"
abbreviation Type_CoprocInfo :: ir_type where "Type_CoprocInfo \<equiv> 0x800"
abbreviation Type_NZCVFlags :: ir_type where "Type_NZCVFlags \<equiv> 0x1000"
abbreviation Type_Cond :: ir_type where "Type_Cond \<equiv> 0x2000"
abbreviation Type_Table :: ir_type where "Type_Table \<equiv> 0x4000"
abbreviation Type_AccType :: ir_type where "Type_AccType \<equiv> 0x8000"

definition AreTypesCompatible :: "ir_type \<Rightarrow> ir_type \<Rightarrow> bool" where
  "AreTypesCompatible t1 t2 \<longleftrightarrow> t1 = t2 \<or> t1 = Type_Opaque \<or> t2 = Type_Opaque"

definition type_names :: "string list" where
  "type_names =
     [''A32Reg'', ''A32ExtReg'', ''A64Reg'', ''A64Vec'', ''Opaque'',
      ''U1'', ''U8'', ''U16'', ''U32'', ''U64'', ''U128'',
      ''CoprocInfo'', ''NZCVFlags'', ''Cond'', ''Table'']"

fun name_loop :: "ir_type \<Rightarrow> nat \<Rightarrow> string list \<Rightarrow> string \<Rightarrow> string" where
  "name_loop bits i [] result = result"
| "name_loop bits i (n # ns) result =
     name_loop bits (Suc i) ns
       (if bits AND push_bit i 1 \<noteq> 0
        then (if result \<noteq> '''' then result @ ''|'' else result) @ n
        else result)"

definition GetNameOf_Type :: "ir_type \<Rightarrow> string" where
  "GetNameOf_Type t = (if t = 0 then ''Void'' else name_loop t 0 type_names '''')"

datatype cond = EQ | NE | CS | CC | MI | PL | VS | VC | HI | LS | GE | LT | GT | LE | AL | NV

datatype acc_type = NORMAL | VEC | STREAM | VECSTREAM | ATOMIC | ORDERED | ORDEREDRW | LIMITEDORDERED
  | UNPRIV | IFETCH | PTW | DC | IC | DCZVA | AT | SWAP

section \<open>Opcodes\<close>

type_synonym opcode = string
type_synonym opcode_table = "(opcode \<times> ir_type \<times> ir_type list) list"

definition ops_core :: "opcode_table" where
  "ops_core = [
    (''Void'', Type_Void, []),
    (''Identity'', Type_Opaque, [Type_Opaque]),
    (''Breakpoint'', Type_Void, []),
    (''CallHostFunction'', Type_Void, [Type_U64, Type_Opaque, Type_Opaque, Type_Opaque])]"

definition ops_a32_context :: "opcode_table" where
  "ops_a32_context = [
    (''A32SetCheckBit'', Type_Void, [Type_U1]),
    (''A32GetRegister'', Type_U32, [Type_A32Reg]),
    (''A32GetExtendedRegister32'', Type_U32, [Type_A32ExtReg]),
    (''A32GetExtendedRegister64'', Type_U64, [Type_A32ExtReg]),
    (''A32GetVector'', Type_U128, [Type_A32ExtReg]),
    (''A32SetRegister'', Type_Void, [Type_A32Reg, Type_U32]),
    (''A32SetExtendedRegister32'', Type_Void, [Type_A32ExtReg, Type_U32]),
    (''A32SetExtendedRegister64'', Type_Void, [Type_A32ExtReg, Type_U64]),
    (''A32SetVector'', Type_Void, [Type_A32ExtReg, Type_U128]),
    (''A32GetCpsr'', Type_U32, []),
    (''A32SetCpsr'', Type_Void, [Type_U32]),
    (''A32SetCpsrNZCV'', Type_Void, [Type_NZCVFlags]),
    (''A32SetCpsrNZCVRaw'', Type_Void, [Type_U32]),
    (''A32SetCpsrNZCVQ'', Type_Void, [Type_U32]),
    (''A32SetCpsrNZ'', Type_Void, [Type_NZCVFlags]),
    (''A32SetCpsrNZC'', Type_Void, [Type_NZCVFlags, Type_U1]),
    (''A32GetCFlag'', Type_U1, []),
    (''A32OrQFlag'', Type_Void, [Type_U1]),
    (''A32GetGEFlags'', Type_U32, []),
    (''A32SetGEFlags'', Type_Void, [Type_U32]),
    (''A32SetGEFlagsCompressed'', Type_Void, [Type_U32]),
    (''A32BXWritePC'', Type_Void, [Type_U32]),
    (''A32UpdateUpperLocationDescriptor'', Type_Void, []),
    (''A32CallSupervisor'', Type_Void, [Type_U32]),
    (''A32ExceptionRaised'', Type_Void, [Type_U32, Type_U64]),
    (''A32DataSynchronizationBarrier'', Type_Void, []),
    (''A32DataMemoryBarrier'', Type_Void, []),
    (''A32InstructionSynchronizationBarrier'', Type_Void, []),
    (''A32GetFpscr'', Type_U32, []),
    (''A32SetFpscr'', Type_Void, [Type_U32]),
    (''A32GetFpscrNZCV'', Type_U32, []),
    (''A32SetFpscrNZCV'', Type_Void, [Type_NZCVFlags])]"

definition ops_a64_context :: "opcode_table" where
  "ops_a64_context = [
    (''A64SetCheckBit'', Type_Void, [Type_U1]),
    (''A64GetCFlag'', Type_U1, []),
    (''A64GetNZCVRaw'', Type_U32, []),
    (''A64SetNZCVRaw'', Type_Void, [Type_U32]),
    (''A64SetNZCV'', Type_Void, [Type_NZCVFlags]),
    (''A64GetW'', Type_U32, [Type_A64Reg]),
    (''A64GetX'', Type_U64, [Type_A64Reg]),
    (''A64GetS'', Type_U128, [Type_A64Vec]),
    (''A64GetD'', Type_U128, [Type_A64Vec]),
    (''A64GetQ'', Type_U128, [Type_A64Vec]),
    (''A64GetSP'', Type_U64, []),
    (''A64GetFPCR'', Type_U32, []),
    (''A64GetFPSR'', Type_U32, []),
    (''A64SetW'', Type_Void, [Type_A64Reg, Type_U32]),
    (''A64SetX'', Type_Void, [Type_A64Reg, Type_U64]),
    (''A64SetS'', Type_Void, [Type_A64Vec, Type_U128]),
    (''A64SetD'', Type_Void, [Type_A64Vec, Type_U128]),
    (''A64SetQ'', Type_Void, [Type_A64Vec, Type_U128]),
    (''A64SetSP'', Type_Void, [Type_U64]),
    (''A64SetFPCR'', Type_Void, [Type_U32]),
    (''A64SetFPSR'', Type_Void, [Type_U32]),
    (''A64SetPC'', Type_Void, [Type_U64]),
    (''A64CallSupervisor'', Type_Void, [Type_U32]),
    (''A64ExceptionRaised'', Type_Void, [Type_U64, Type_U64]),
    (''A64DataCacheOperationRaised'', Type_Void, [Type_U64, Type_U64, Type_U64]),
    (''A64InstructionCacheOperationRaised'', Type_Void, [Type_U64, Type_U64]),
    (''A64DataSynchronizationBarrier'', Type_Void, []),
    (''A64DataMemoryBarrier'', Type_Void, []),
    (''A64InstructionSynchronizationBarrier'', Type_Void, []),
    (''A64GetCNTFRQ'', Type_U32, []),
    (''A64GetCNTPCT'', Type_U64, []),
    (''A64GetCTR'', Type_U32, []),
    (''A64GetDCZID'', Type_U32, []),
    (''A64GetTPIDR'', Type_U64, []),
    (''A64GetTPIDRRO'', Type_U64, []),
    (''A64SetTPIDR'', Type_Void, [Type_U64])]"

definition ops_hints :: "opcode_table" where
  "ops_hints = [
    (''PushRSB'', Type_Void, [Type_U64])]"

definition ops_pseudo :: "opcode_table" where
  "ops_pseudo = [
    (''GetCarryFromOp'', Type_U1, [Type_Opaque]),
    (''GetOverflowFromOp'', Type_U1, [Type_Opaque]),
    (''GetGEFromOp'', Type_U32, [Type_Opaque]),
    (''GetNZCVFromOp'', Type_NZCVFlags, [Type_Opaque]),
    (''GetNZFromOp'', Type_NZCVFlags, [Type_Opaque]),
    (''GetUpperFromOp'', Type_U128, [Type_Opaque]),
    (''GetLowerFromOp'', Type_U128, [Type_Opaque]),
    (''GetCFlagFromNZCV'', Type_U1, [Type_NZCVFlags]),
    (''NZCVFromPackedFlags'', Type_NZCVFlags, [Type_U32])]"

definition ops_calc :: "opcode_table" where
  "ops_calc = [
    (''Pack2x32To1x64'', Type_U64, [Type_U32, Type_U32]),
    (''Pack2x64To1x128'', Type_U128, [Type_U64, Type_U64]),
    (''LeastSignificantWord'', Type_U32, [Type_U64]),
    (''LeastSignificantHalf'', Type_U16, [Type_U32]),
    (''LeastSignificantByte'', Type_U8, [Type_U32]),
    (''MostSignificantWord'', Type_U32, [Type_U64]),
    (''MostSignificantBit'', Type_U1, [Type_U32]),
    (''IsZero32'', Type_U1, [Type_U32]),
    (''IsZero64'', Type_U1, [Type_U64]),
    (''TestBit'', Type_U1, [Type_U64, Type_U8]),
    (''ConditionalSelect32'', Type_U32, [Type_Cond, Type_U32, Type_U32]),
    (''ConditionalSelect64'', Type_U64, [Type_Cond, Type_U64, Type_U64]),
    (''ConditionalSelectNZCV'', Type_NZCVFlags, [Type_Cond, Type_NZCVFlags, Type_NZCVFlags]),
    (''LogicalShiftLeft32'', Type_U32, [Type_U32, Type_U8, Type_U1]),
    (''LogicalShiftLeft64'', Type_U64, [Type_U64, Type_U8]),
    (''LogicalShiftRight32'', Type_U32, [Type_U32, Type_U8, Type_U1]),
    (''LogicalShiftRight64'', Type_U64, [Type_U64, Type_U8]),
    (''ArithmeticShiftRight32'', Type_U32, [Type_U32, Type_U8, Type_U1]),
    (''ArithmeticShiftRight64'', Type_U64, [Type_U64, Type_U8]),
    (''RotateRight32'', Type_U32, [Type_U32, Type_U8, Type_U1]),
    (''RotateRight64'', Type_U64, [Type_U64, Type_U8]),
    (''RotateRightExtended'', Type_U32, [Type_U32, Type_U1]),
    (''LogicalShiftLeftMasked32'', Type_U32, [Type_U32, Type_U32]),
    (''LogicalShiftLeftMasked64'', Type_U64, [Type_U64, Type_U64]),
    (''LogicalShiftRightMasked32'', Type_U32, [Type_U32, Type_U32]),
    (''LogicalShiftRightMasked64'', Type_U64, [Type_U64, Type_U64]),
    (''ArithmeticShiftRightMasked32'', Type_U32, [Type_U32, Type_U32]),
    (''ArithmeticShiftRightMasked64'', Type_U64, [Type_U64, Type_U64]),
    (''RotateRightMasked32'', Type_U32, [Type_U32, Type_U32]),
    (''RotateRightMasked64'', Type_U64, [Type_U64, Type_U64]),
    (''Add32'', Type_U32, [Type_U32, Type_U32, Type_U1]),
    (''Add64'', Type_U64, [Type_U64, Type_U64, Type_U1]),
    (''Sub32'', Type_U32, [Type_U32, Type_U32, Type_U1]),
    (''Sub64'', Type_U64, [Type_U64, Type_U64, Type_U1]),
    (''Mul32'', Type_U32, [Type_U32, Type_U32]),
    (''Mul64'', Type_U64, [Type_U64, Type_U64]),
    (''SignedMultiplyHigh64'', Type_U64, [Type_U64, Type_U64]),
    (''UnsignedMultiplyHigh64'', Type_U64, [Type_U64, Type_U64]),
    (''UnsignedDiv32'', Type_U32, [Type_U32, Type_U32]),
    (''UnsignedDiv64'', Type_U64, [Type_U64, Type_U64]),
    (''SignedDiv32'', Type_U32, [Type_U32, Type_U32]),
    (''SignedDiv64'', Type_U64, [Type_U64, Type_U64]),
    (''And32'', Type_U32, [Type_U32, Type_U32]),
    (''And64'', Type_U64, [Type_U64, Type_U64]),
    (''AndNot32'', Type_U32, [Type_U32, Type_U32]),
    (''AndNot64'', Type_U64, [Type_U64, Type_U64]),
    (''Eor32'', Type_U32, [Type_U32, Type_U32]),
    (''Eor64'', Type_U64, [Type_U64, Type_U64]),
    (''Or32'', Type_U32, [Type_U32, Type_U32]),
    (''Or64'', Type_U64, [Type_U64, Type_U64]),
    (''Not32'', Type_U32, [Type_U32]),
    (''Not64'', Type_U64, [Type_U64]),
    (''SignExtendByteToWord'', Type_U32, [Type_U8]),
    (''SignExtendHalfToWord'', Type_U32, [Type_U16]),
    (''SignExtendByteToLong'', Type_U64, [Type_U8]),
    (''SignExtendHalfToLong'', Type_U64, [Type_U16]),
    (''SignExtendWordToLong'', Type_U64, [Type_U32]),
    (''ZeroExtendByteToWord'', Type_U32, [Type_U8]),
    (''ZeroExtendHalfToWord'', Type_U32, [Type_U16]),
    (''ZeroExtendByteToLong'', Type_U64, [Type_U8]),
    (''ZeroExtendHalfToLong'', Type_U64, [Type_U16]),
    (''ZeroExtendWordToLong'', Type_U64, [Type_U32]),
    (''ZeroExtendLongToQuad'', Type_U128, [Type_U64]),
    (''ByteReverseWord'', Type_U32, [Type_U32]),
    (''ByteReverseHalf'', Type_U16, [Type_U16]),
    (''ByteReverseDual'', Type_U64, [Type_U64]),
    (''CountLeadingZeros32'', Type_U32, [Type_U32]),
    (''CountLeadingZeros64'', Type_U64, [Type_U64]),
    (''ExtractRegister32'', Type_U32, [Type_U32, Type_U32, Type_U8]),
    (''ExtractRegister64'', Type_U64, [Type_U64, Type_U64, Type_U8]),
    (''ReplicateBit32'', Type_U32, [Type_U32, Type_U8]),
    (''ReplicateBit64'', Type_U64, [Type_U64, Type_U8]),
    (''MaxSigned32'', Type_U32, [Type_U32, Type_U32]),
    (''MaxSigned64'', Type_U64, [Type_U64, Type_U64]),
    (''MaxUnsigned32'', Type_U32, [Type_U32, Type_U32]),
    (''MaxUnsigned64'', Type_U64, [Type_U64, Type_U64]),
    (''MinSigned32'', Type_U32, [Type_U32, Type_U32]),
    (''MinSigned64'', Type_U64, [Type_U64, Type_U64]),
    (''MinUnsigned32'', Type_U32, [Type_U32, Type_U32]),
    (''MinUnsigned64'', Type_U64, [Type_U64, Type_U64])]"

definition ops_saturated :: "opcode_table" where
  "ops_saturated = [
    (''SignedSaturatedAddWithFlag32'', Type_U32, [Type_U32, Type_U32]),
    (''SignedSaturatedSubWithFlag32'', Type_U32, [Type_U32, Type_U32]),
    (''SignedSaturation'', Type_U32, [Type_U32, Type_U8]),
    (''UnsignedSaturation'', Type_U32, [Type_U32, Type_U8]),
    (''SignedSaturatedAdd8'', Type_U8, [Type_U8, Type_U8]),
    (''SignedSaturatedAdd16'', Type_U16, [Type_U16, Type_U16]),
    (''SignedSaturatedAdd32'', Type_U32, [Type_U32, Type_U32]),
    (''SignedSaturatedAdd64'', Type_U64, [Type_U64, Type_U64]),
    (''SignedSaturatedDoublingMultiplyReturnHigh16'', Type_U16, [Type_U16, Type_U16]),
    (''SignedSaturatedDoublingMultiplyReturnHigh32'', Type_U32, [Type_U32, Type_U32]),
    (''SignedSaturatedSub8'', Type_U8, [Type_U8, Type_U8]),
    (''SignedSaturatedSub16'', Type_U16, [Type_U16, Type_U16]),
    (''SignedSaturatedSub32'', Type_U32, [Type_U32, Type_U32]),
    (''SignedSaturatedSub64'', Type_U64, [Type_U64, Type_U64]),
    (''UnsignedSaturatedAdd8'', Type_U8, [Type_U8, Type_U8]),
    (''UnsignedSaturatedAdd16'', Type_U16, [Type_U16, Type_U16]),
    (''UnsignedSaturatedAdd32'', Type_U32, [Type_U32, Type_U32]),
    (''UnsignedSaturatedAdd64'', Type_U64, [Type_U64, Type_U64]),
    (''UnsignedSaturatedSub8'', Type_U8, [Type_U8, Type_U8]),
    (''UnsignedSaturatedSub16'', Type_U16, [Type_U16, Type_U16]),
    (''UnsignedSaturatedSub32'', Type_U32, [Type_U32, Type_U32]),
    (''UnsignedSaturatedSub64'', Type_U64, [Type_U64, Type_U64])]"

definition ops_vector_saturated :: "opcode_table" where
  "ops_vector_saturated = [
    (''VectorSignedSaturatedAdd8'', Type_U128, [Type_U128, Type_U128]),
    (''VectorSignedSaturatedAdd16'', Type_U128, [Type_U128, Type_U128]),
    (''VectorSignedSaturatedAdd32'', Type_U128, [Type_U128, Type_U128]),
    (''VectorSignedSaturatedAdd64'', Type_U128, [Type_U128, Type_U128]),
    (''VectorSignedSaturatedSub8'', Type_U128, [Type_U128, Type_U128]),
    (''VectorSignedSaturatedSub16'', Type_U128, [Type_U128, Type_U128]),
    (''VectorSignedSaturatedSub32'', Type_U128, [Type_U128, Type_U128]),
    (''VectorSignedSaturatedSub64'', Type_U128, [Type_U128, Type_U128]),
    (''VectorUnsignedSaturatedAdd8'', Type_U128, [Type_U128, Type_U128]),
    (''VectorUnsignedSaturatedAdd16'', Type_U128, [Type_U128, Type_U128]),
    (''VectorUnsignedSaturatedAdd32'', Type_U128, [Type_U128, Type_U128]),
    (''VectorUnsignedSaturatedAdd64'', Type_U128, [Type_U128, Type_U128]),
    (''VectorUnsignedSaturatedSub8'', Type_U128, [Type_U128, Type_U128]),
    (''VectorUnsignedSaturatedSub16'', Type_U128, [Type_U128, Type_U128]),
    (''VectorUnsignedSaturatedSub32'', Type_U128, [Type_U128, Type_U128]),
    (''VectorUnsignedSaturatedSub64'', Type_U128, [Type_U128, Type_U128])]"

definition ops_packed :: "opcode_table" where
  "ops_packed = [
    (''PackedAddU8'', Type_U32, [Type_U32, Type_U32]),
    (''PackedAddS8'', Type_U32, [Type_U32, Type_U32]),
    (''PackedSubU8'', Type_U32, [Type_U32, Type_U32]),
    (''PackedSubS8'', Type_U32, [Type_U32, Type_U32]),
    (''PackedAddU16'', Type_U32, [Type_U32, Type_U32]),
    (''PackedAddS16'', Type_U32, [Type_U32, Type_U32]),
    (''PackedSubU16'', Type_U32, [Type_U32, Type_U32]),
    (''PackedSubS16'', Type_U32, [Type_U32, Type_U32]),
    (''PackedAddSubU16'', Type_U32, [Type_U32, Type_U32]),
    (''PackedAddSubS16'', Type_U32, [Type_U32, Type_U32]),
    (''PackedSubAddU16'', Type_U32, [Type_U32, Type_U32]),
    (''PackedSubAddS16'', Type_U32, [Type_U32, Type_U32]),
    (''PackedHalvingAddU8'', Type_U32, [Type_U32, Type_U32]),
    (''PackedHalvingAddS8'', Type_U32, [Type_U32, Type_U32]),
    (''PackedHalvingSubU8'', Type_U32, [Type_U32, Type_U32]),
    (''PackedHalvingSubS8'', Type_U32, [Type_U32, Type_U32]),
    (''PackedHalvingAddU16'', Type_U32, [Type_U32, Type_U32]),
    (''PackedHalvingAddS16'', Type_U32, [Type_U32, Type_U32]),
    (''PackedHalvingSubU16'', Type_U32, [Type_U32, Type_U32]),
    (''PackedHalvingSubS16'', Type_U32, [Type_U32, Type_U32]),
    (''PackedHalvingAddSubU16'', Type_U32, [Type_U32, Type_U32]),
    (''PackedHalvingAddSubS16'', Type_U32, [Type_U32, Type_U32]),
    (''PackedHalvingSubAddU16'', Type_U32, [Type_U32, Type_U32]),
    (''PackedHalvingSubAddS16'', Type_U32, [Type_U32, Type_U32]),
    (''PackedSaturatedAddU8'', Type_U32, [Type_U32, Type_U32]),
    (''PackedSaturatedAddS8'', Type_U32, [Type_U32, Type_U32]),
    (''PackedSaturatedSubU8'', Type_U32, [Type_U32, Type_U32]),
    (''PackedSaturatedSubS8'', Type_U32, [Type_U32, Type_U32]),
    (''PackedSaturatedAddU16'', Type_U32, [Type_U32, Type_U32]),
    (''PackedSaturatedAddS16'', Type_U32, [Type_U32, Type_U32]),
    (''PackedSaturatedSubU16'', Type_U32, [Type_U32, Type_U32]),
    (''PackedSaturatedSubS16'', Type_U32, [Type_U32, Type_U32]),
    (''PackedAbsDiffSumU8'', Type_U32, [Type_U32, Type_U32]),
    (''PackedSelect'', Type_U32, [Type_U32, Type_U32, Type_U32])]"

definition ops_crc :: "opcode_table" where
  "ops_crc = [
    (''CRC32Castagnoli8'', Type_U32, [Type_U32, Type_U32]),
    (''CRC32Castagnoli16'', Type_U32, [Type_U32, Type_U32]),
    (''CRC32Castagnoli32'', Type_U32, [Type_U32, Type_U32]),
    (''CRC32Castagnoli64'', Type_U32, [Type_U32, Type_U64]),
    (''CRC32ISO8'', Type_U32, [Type_U32, Type_U32]),
    (''CRC32ISO16'', Type_U32, [Type_U32, Type_U32]),
    (''CRC32ISO32'', Type_U32, [Type_U32, Type_U32]),
    (''CRC32ISO64'', Type_U32, [Type_U32, Type_U64])]"

definition ops_aes :: "opcode_table" where
  "ops_aes = [
    (''AESDecryptSingleRound'', Type_U128, [Type_U128]),
    (''AESEncryptSingleRound'', Type_U128, [Type_U128]),
    (''AESInverseMixColumns'', Type_U128, [Type_U128]),
    (''AESMixColumns'', Type_U128, [Type_U128])]"

definition ops_sm4 :: "opcode_table" where
  "ops_sm4 = [
    (''SM4AccessSubstitutionBox'', Type_U8, [Type_U8])]"

definition ops_sha :: "opcode_table" where
  "ops_sha = [
    (''SHA256Hash'', Type_U128, [Type_U128, Type_U128, Type_U128, Type_U1]),
    (''SHA256MessageSchedule0'', Type_U128, [Type_U128, Type_U128]),
    (''SHA256MessageSchedule1'', Type_U128, [Type_U128, Type_U128, Type_U128])]"

definition ops_vector :: "opcode_table" where
  "ops_vector = [
    (''VectorGetElement8'', Type_U8, [Type_U128, Type_U8]),
    (''VectorGetElement16'', Type_U16, [Type_U128, Type_U8]),
    (''VectorGetElement32'', Type_U32, [Type_U128, Type_U8]),
    (''VectorGetElement64'', Type_U64, [Type_U128, Type_U8]),
    (''VectorSetElement8'', Type_U128, [Type_U128, Type_U8, Type_U8]),
    (''VectorSetElement16'', Type_U128, [Type_U128, Type_U8, Type_U16]),
    (''VectorSetElement32'', Type_U128, [Type_U128, Type_U8, Type_U32]),
    (''VectorSetElement64'', Type_U128, [Type_U128, Type_U8, Type_U64]),
    (''VectorAbs8'', Type_U128, [Type_U128]),
    (''VectorAbs16'', Type_U128, [Type_U128]),
    (''VectorAbs32'', Type_U128, [Type_U128]),
    (''VectorAbs64'', Type_U128, [Type_U128]),
    (''VectorAdd8'', Type_U128, [Type_U128, Type_U128]),
    (''VectorAdd16'', Type_U128, [Type_U128, Type_U128]),
    (''VectorAdd32'', Type_U128, [Type_U128, Type_U128]),
    (''VectorAdd64'', Type_U128, [Type_U128, Type_U128]),
    (''VectorAnd'', Type_U128, [Type_U128, Type_U128]),
    (''VectorAndNot'', Type_U128, [Type_U128, Type_U128]),
    (''VectorArithmeticShiftRight8'', Type_U128, [Type_U128, Type_U8]),
    (''VectorArithmeticShiftRight16'', Type_U128, [Type_U128, Type_U8]),
    (''VectorArithmeticShiftRight32'', Type_U128, [Type_U128, Type_U8]),
    (''VectorArithmeticShiftRight64'', Type_U128, [Type_U128, Type_U8]),
    (''VectorArithmeticVShift8'', Type_U128, [Type_U128, Type_U128]),
    (''VectorArithmeticVShift16'', Type_U128, [Type_U128, Type_U128]),
    (''VectorArithmeticVShift32'', Type_U128, [Type_U128, Type_U128]),
    (''VectorArithmeticVShift64'', Type_U128, [Type_U128, Type_U128]),
    (''VectorBroadcastLower8'', Type_U128, [Type_U8]),
    (''VectorBroadcastLower16'', Type_U128, [Type_U16]),
    (''VectorBroadcastLower32'', Type_U128, [Type_U32]),
    (''VectorBroadcast8'', Type_U128, [Type_U8]),
    (''VectorBroadcast16'', Type_U128, [Type_U16]),
    (''VectorBroadcast32'', Type_U128, [Type_U32]),
    (''VectorBroadcast64'', Type_U128, [Type_U64]),
    (''VectorBroadcastElementLower8'', Type_U128, [Type_U128, Type_U8]),
    (''VectorBroadcastElementLower16'', Type_U128, [Type_U128, Type_U8]),
    (''VectorBroadcastElementLower32'', Type_U128, [Type_U128, Type_U8]),
    (''VectorBroadcastElement8'', Type_U128, [Type_U128, Type_U8]),
    (''VectorBroadcastElement16'', Type_U128, [Type_U128, Type_U8]),
    (''VectorBroadcastElement32'', Type_U128, [Type_U128, Type_U8]),
    (''VectorBroadcastElement64'', Type_U128, [Type_U128, Type_U8]),
    (''VectorCountLeadingZeros8'', Type_U128, [Type_U128]),
    (''VectorCountLeadingZeros16'', Type_U128, [Type_U128]),
    (''VectorCountLeadingZeros32'', Type_U128, [Type_U128]),
    (''VectorDeinterleaveEven8'', Type_U128, [Type_U128, Type_U128]),
    (''VectorDeinterleaveEven16'', Type_U128, [Type_U128, Type_U128]),
    (''VectorDeinterleaveEven32'', Type_U128, [Type_U128, Type_U128]),
    (''VectorDeinterleaveEven64'', Type_U128, [Type_U128, Type_U128]),
    (''VectorDeinterleaveEvenLower8'', Type_U128, [Type_U128, Type_U128]),
    (''VectorDeinterleaveEvenLower16'', Type_U128, [Type_U128, Type_U128]),
    (''VectorDeinterleaveEvenLower32'', Type_U128, [Type_U128, Type_U128]),
    (''VectorDeinterleaveOdd8'', Type_U128, [Type_U128, Type_U128]),
    (''VectorDeinterleaveOdd16'', Type_U128, [Type_U128, Type_U128]),
    (''VectorDeinterleaveOdd32'', Type_U128, [Type_U128, Type_U128]),
    (''VectorDeinterleaveOdd64'', Type_U128, [Type_U128, Type_U128]),
    (''VectorDeinterleaveOddLower8'', Type_U128, [Type_U128, Type_U128]),
    (''VectorDeinterleaveOddLower16'', Type_U128, [Type_U128, Type_U128]),
    (''VectorDeinterleaveOddLower32'', Type_U128, [Type_U128, Type_U128]),
    (''VectorEor'', Type_U128, [Type_U128, Type_U128]),
    (''VectorEqual8'', Type_U128, [Type_U128, Type_U128]),
    (''VectorEqual16'', Type_U128, [Type_U128, Type_U128]),
    (''VectorEqual32'', Type_U128, [Type_U128, Type_U128]),
    (''VectorEqual64'', Type_U128, [Type_U128, Type_U128]),
    (''VectorEqual128'', Type_U128, [Type_U128, Type_U128]),
    (''VectorExtract'', Type_U128, [Type_U128, Type_U128, Type_U8]),
    (''VectorExtractLower'', Type_U128, [Type_U128, Type_U128, Type_U8]),
    (''VectorGreaterS8'', Type_U128, [Type_U128, Type_U128]),
    (''VectorGreaterS16'', Type_U128, [Type_U128, Type_U128]),
    (''VectorGreaterS32'', Type_U128, [Type_U128, Type_U128]),
    (''VectorGreaterS64'', Type_U128, [Type_U128, Type_U128]),
    (''VectorHalvingAddS8'', Type_U128, [Type_U128, Type_U128]),
    (''VectorHalvingAddS16'', Type_U128, [Type_U128, Type_U128]),
    (''VectorHalvingAddS32'', Type_U128, [Type_U128, Type_U128]),
    (''VectorHalvingAddU8'', Type_U128, [Type_U128, Type_U128]),
    (''VectorHalvingAddU16'', Type_U128, [Type_U128, Type_U128]),
    (''VectorHalvingAddU32'', Type_U128, [Type_U128, Type_U128]),
    (''VectorHalvingSubS8'', Type_U128, [Type_U128, Type_U128]),
    (''VectorHalvingSubS16'', Type_U128, [Type_U128, Type_U128]),
    (''VectorHalvingSubS32'', Type_U128, [Type_U128, Type_U128]),
    (''VectorHalvingSubU8'', Type_U128, [Type_U128, Type_U128]),
    (''VectorHalvingSubU16'', Type_U128, [Type_U128, Type_U128]),
    (''VectorHalvingSubU32'', Type_U128, [Type_U128, Type_U128]),
    (''VectorInterleaveLower8'', Type_U128, [Type_U128, Type_U128]),
    (''VectorInterleaveLower16'', Type_U128, [Type_U128, Type_U128]),
    (''VectorInterleaveLower32'', Type_U128, [Type_U128, Type_U128]),
    (''VectorInterleaveLower64'', Type_U128, [Type_U128, Type_U128]),
    (''VectorInterleaveUpper8'', Type_U128, [Type_U128, Type_U128]),
    (''VectorInterleaveUpper16'', Type_U128, [Type_U128, Type_U128]),
    (''VectorInterleaveUpper32'', Type_U128, [Type_U128, Type_U128]),
    (''VectorInterleaveUpper64'', Type_U128, [Type_U128, Type_U128]),
    (''VectorLogicalShiftLeft8'', Type_U128, [Type_U128, Type_U8]),
    (''VectorLogicalShiftLeft16'', Type_U128, [Type_U128, Type_U8]),
    (''VectorLogicalShiftLeft32'', Type_U128, [Type_U128, Type_U8]),
    (''VectorLogicalShiftLeft64'', Type_U128, [Type_U128, Type_U8]),
    (''VectorLogicalShiftRight8'', Type_U128, [Type_U128, Type_U8]),
    (''VectorLogicalShiftRight16'', Type_U128, [Type_U128, Type_U8]),
    (''VectorLogicalShiftRight32'', Type_U128, [Type_U128, Type_U8]),
    (''VectorLogicalShiftRight64'', Type_U128, [Type_U128, Type_U8]),
    (''VectorLogicalVShift8'', Type_U128, [Type_U128, Type_U128]),
    (''VectorLogicalVShift16'', Type_U128, [Type_U128, Type_U128]),
    (''VectorLogicalVShift32'', Type_U128, [Type_U128, Type_U128]),
    (''VectorLogicalVShift64'', Type_U128, [Type_U128, Type_U128]),
    (''VectorMaxS8'', Type_U128, [Type_U128, Type_U128]),
    (''VectorMaxS16'', Type_U128, [Type_U128, Type_U128]),
    (''VectorMaxS32'', Type_U128, [Type_U128, Type_U128]),
    (''VectorMaxS64'', Type_U128, [Type_U128, Type_U128]),
    (''VectorMaxU8'', Type_U128, [Type_U128, Type_U128]),
    (''VectorMaxU16'', Type_U128, [Type_U128, Type_U128]),
    (''VectorMaxU32'', Type_U128, [Type_U128, Type_U128]),
    (''VectorMaxU64'', Type_U128, [Type_U128, Type_U128]),
    (''VectorMinS8'', Type_U128, [Type_U128, Type_U128]),
    (''VectorMinS16'', Type_U128, [Type_U128, Type_U128]),
    (''VectorMinS32'', Type_U128, [Type_U128, Type_U128]),
    (''VectorMinS64'', Type_U128, [Type_U128, Type_U128]),
    (''VectorMinU8'', Type_U128, [Type_U128, Type_U128]),
    (''VectorMinU16'', Type_U128, [Type_U128, Type_U128]),
    (''VectorMinU32'', Type_U128, [Type_U128, Type_U128]),
    (''VectorMinU64'', Type_U128, [Type_U128, Type_U128]),
    (''VectorMultiply8'', Type_U128, [Type_U128, Type_U128]),
    (''VectorMultiply16'', Type_U128, [Type_U128, Type_U128]),
    (''VectorMultiply32'', Type_U128, [Type_U128, Type_U128]),
    (''VectorMultiply64'', Type_U128, [Type_U128, Type_U128]),
    (''VectorMultiplySignedWiden8'', Type_U128, [Type_U128, Type_U128]),
    (''VectorMultiplySignedWiden16'', Type_U128, [Type_U128, Type_U128]),
    (''VectorMultiplySignedWiden32'', Type_U128, [Type_U128, Type_U128]),
    (''VectorMultiplyUnsignedWiden8'', Type_U128, [Type_U128, Type_U128]),
    (''VectorMultiplyUnsignedWiden16'', Type_U128, [Type_U128, Type_U128]),
    (''VectorMultiplyUnsignedWiden32'', Type_U128, [Type_U128, Type_U128]),
    (''VectorNarrow16'', Type_U128, [Type_U128]),
    (''VectorNarrow32'', Type_U128, [Type_U128]),
    (''VectorNarrow64'', Type_U128, [Type_U128]),
    (''VectorNot'', Type_U128, [Type_U128]),
    (''VectorOr'', Type_U128, [Type_U128, Type_U128]),
    (''VectorPairedAddLower8'', Type_U128, [Type_U128, Type_U128]),
    (''VectorPairedAddLower16'', Type_U128, [Type_U128, Type_U128]),
    (''VectorPairedAddLower32'', Type_U128, [Type_U128, Type_U128]),
    (''VectorPairedAddSignedWiden8'', Type_U128, [Type_U128]),
    (''VectorPairedAddSignedWiden16'', Type_U128, [Type_U128]),
    (''VectorPairedAddSignedWiden32'', Type_U128, [Type_U128]),
    (''VectorPairedAddUnsignedWiden8'', Type_U128, [Type_U128]),
    (''VectorPairedAddUnsignedWiden16'', Type_U128, [Type_U128]),
    (''VectorPairedAddUnsignedWiden32'', Type_U128, [Type_U128]),
    (''VectorPairedAdd8'', Type_U128, [Type_U128, Type_U128]),
    (''VectorPairedAdd16'', Type_U128, [Type_U128, Type_U128]),
    (''VectorPairedAdd32'', Type_U128, [Type_U128, Type_U128]),
    (''VectorPairedAdd64'', Type_U128, [Type_U128, Type_U128]),
    (''VectorPairedMaxS8'', Type_U128, [Type_U128, Type_U128]),
    (''VectorPairedMaxS16'', Type_U128, [Type_U128, Type_U128]),
    (''VectorPairedMaxS32'', Type_U128, [Type_U128, Type_U128]),
    (''VectorPairedMaxU8'', Type_U128, [Type_U128, Type_U128]),
    (''VectorPairedMaxU16'', Type_U128, [Type_U128, Type_U128]),
    (''VectorPairedMaxU32'', Type_U128, [Type_U128, Type_U128]),
    (''VectorPairedMinS8'', Type_U128, [Type_U128, Type_U128]),
    (''VectorPairedMinS16'', Type_U128, [Type_U128, Type_U128]),
    (''VectorPairedMinS32'', Type_U128, [Type_U128, Type_U128]),
    (''VectorPairedMinU8'', Type_U128, [Type_U128, Type_U128]),
    (''VectorPairedMinU16'', Type_U128, [Type_U128, Type_U128]),
    (''VectorPairedMinU32'', Type_U128, [Type_U128, Type_U128]),
    (''VectorPairedMaxLowerS8'', Type_U128, [Type_U128, Type_U128]),
    (''VectorPairedMaxLowerS16'', Type_U128, [Type_U128, Type_U128]),
    (''VectorPairedMaxLowerS32'', Type_U128, [Type_U128, Type_U128]),
    (''VectorPairedMaxLowerU8'', Type_U128, [Type_U128, Type_U128]),
    (''VectorPairedMaxLowerU16'', Type_U128, [Type_U128, Type_U128]),
    (''VectorPairedMaxLowerU32'', Type_U128, [Type_U128, Type_U128]),
    (''VectorPairedMinLowerS8'', Type_U128, [Type_U128, Type_U128]),
    (''VectorPairedMinLowerS16'', Type_U128, [Type_U128, Type_U128]),
    (''VectorPairedMinLowerS32'', Type_U128, [Type_U128, Type_U128]),
    (''VectorPairedMinLowerU8'', Type_U128, [Type_U128, Type_U128]),
    (''VectorPairedMinLowerU16'', Type_U128, [Type_U128, Type_U128]),
    (''VectorPairedMinLowerU32'', Type_U128, [Type_U128, Type_U128]),
    (''VectorPolynomialMultiply8'', Type_U128, [Type_U128, Type_U128]),
    (''VectorPolynomialMultiplyLong8'', Type_U128, [Type_U128, Type_U128]),
    (''VectorPolynomialMultiplyLong64'', Type_U128, [Type_U128, Type_U128]),
    (''VectorPopulationCount'', Type_U128, [Type_U128]),
    (''VectorReverseBits'', Type_U128, [Type_U128]),
    (''VectorReverseElementsInHalfGroups8'', Type_U128, [Type_U128]),
    (''VectorReverseElementsInWordGroups8'', Type_U128, [Type_U128]),
    (''VectorReverseElementsInWordGroups16'', Type_U128, [Type_U128]),
    (''VectorReverseElementsInLongGroups8'', Type_U128, [Type_U128]),
    (''VectorReverseElementsInLongGroups16'', Type_U128, [Type_U128]),
    (''VectorReverseElementsInLongGroups32'', Type_U128, [Type_U128]),
    (''VectorReduceAdd8'', Type_U128, [Type_U128]),
    (''VectorReduceAdd16'', Type_U128, [Type_U128]),
    (''VectorReduceAdd32'', Type_U128, [Type_U128]),
    (''VectorReduceAdd64'', Type_U128, [Type_U128]),
    (''VectorRotateWholeVectorRight'', Type_U128, [Type_U128, Type_U8]),
    (''VectorRoundingHalvingAddS8'', Type_U128, [Type_U128, Type_U128]),
    (''VectorRoundingHalvingAddS16'', Type_U128, [Type_U128, Type_U128]),
    (''VectorRoundingHalvingAddS32'', Type_U128, [Type_U128, Type_U128]),
    (''VectorRoundingHalvingAddU8'', Type_U128, [Type_U128, Type_U128]),
    (''VectorRoundingHalvingAddU16'', Type_U128, [Type_U128, Type_U128]),
    (''VectorRoundingHalvingAddU32'', Type_U128, [Type_U128, Type_U128]),
    (''VectorRoundingShiftLeftS8'', Type_U128, [Type_U128, Type_U128]),
    (''VectorRoundingShiftLeftS16'', Type_U128, [Type_U128, Type_U128]),
    (''VectorRoundingShiftLeftS32'', Type_U128, [Type_U128, Type_U128]),
    (''VectorRoundingShiftLeftS64'', Type_U128, [Type_U128, Type_U128]),
    (''VectorRoundingShiftLeftU8'', Type_U128, [Type_U128, Type_U128]),
    (''VectorRoundingShiftLeftU16'', Type_U128, [Type_U128, Type_U128]),
    (''VectorRoundingShiftLeftU32'', Type_U128, [Type_U128, Type_U128]),
    (''VectorRoundingShiftLeftU64'', Type_U128, [Type_U128, Type_U128]),
    (''VectorSignExtend8'', Type_U128, [Type_U128]),
    (''VectorSignExtend16'', Type_U128, [Type_U128]),
    (''VectorSignExtend32'', Type_U128, [Type_U128]),
    (''VectorSignExtend64'', Type_U128, [Type_U128]),
    (''VectorSignedAbsoluteDifference8'', Type_U128, [Type_U128, Type_U128]),
    (''VectorSignedAbsoluteDifference16'', Type_U128, [Type_U128, Type_U128]),
    (''VectorSignedAbsoluteDifference32'', Type_U128, [Type_U128, Type_U128]),
    (''VectorSignedMultiply16'', Type_Void, [Type_U128, Type_U128]),
    (''VectorSignedMultiply32'', Type_Void, [Type_U128, Type_U128]),
    (''VectorSignedSaturatedAbs8'', Type_U128, [Type_U128]),
    (''VectorSignedSaturatedAbs16'', Type_U128, [Type_U128]),
    (''VectorSignedSaturatedAbs32'', Type_U128, [Type_U128]),
    (''VectorSignedSaturatedAbs64'', Type_U128, [Type_U128]),
    (''VectorSignedSaturatedAccumulateUnsigned8'', Type_U128, [Type_U128, Type_U128]),
    (''VectorSignedSaturatedAccumulateUnsigned16'', Type_U128, [Type_U128, Type_U128]),
    (''VectorSignedSaturatedAccumulateUnsigned32'', Type_U128, [Type_U128, Type_U128]),
    (''VectorSignedSaturatedAccumulateUnsigned64'', Type_U128, [Type_U128, Type_U128]),
    (''VectorSignedSaturatedDoublingMultiplyHigh16'', Type_U128, [Type_U128, Type_U128]),
    (''VectorSignedSaturatedDoublingMultiplyHigh32'', Type_U128, [Type_U128, Type_U128]),
    (''VectorSignedSaturatedDoublingMultiplyHighRounding16'', Type_U128, [Type_U128, Type_U128]),
    (''VectorSignedSaturatedDoublingMultiplyHighRounding32'', Type_U128, [Type_U128, Type_U128]),
    (''VectorSignedSaturatedDoublingMultiplyLong16'', Type_U128, [Type_U128, Type_U128]),
    (''VectorSignedSaturatedDoublingMultiplyLong32'', Type_U128, [Type_U128, Type_U128]),
    (''VectorSignedSaturatedNarrowToSigned16'', Type_U128, [Type_U128]),
    (''VectorSignedSaturatedNarrowToSigned32'', Type_U128, [Type_U128]),
    (''VectorSignedSaturatedNarrowToSigned64'', Type_U128, [Type_U128]),
    (''VectorSignedSaturatedNarrowToUnsigned16'', Type_U128, [Type_U128]),
    (''VectorSignedSaturatedNarrowToUnsigned32'', Type_U128, [Type_U128]),
    (''VectorSignedSaturatedNarrowToUnsigned64'', Type_U128, [Type_U128]),
    (''VectorSignedSaturatedNeg8'', Type_U128, [Type_U128]),
    (''VectorSignedSaturatedNeg16'', Type_U128, [Type_U128]),
    (''VectorSignedSaturatedNeg32'', Type_U128, [Type_U128]),
    (''VectorSignedSaturatedNeg64'', Type_U128, [Type_U128]),
    (''VectorSignedSaturatedShiftLeft8'', Type_U128, [Type_U128, Type_U128]),
    (''VectorSignedSaturatedShiftLeft16'', Type_U128, [Type_U128, Type_U128]),
    (''VectorSignedSaturatedShiftLeft32'', Type_U128, [Type_U128, Type_U128]),
    (''VectorSignedSaturatedShiftLeft64'', Type_U128, [Type_U128, Type_U128]),
    (''VectorSignedSaturatedShiftLeftUnsigned8'', Type_U128, [Type_U128, Type_U8]),
    (''VectorSignedSaturatedShiftLeftUnsigned16'', Type_U128, [Type_U128, Type_U8]),
    (''VectorSignedSaturatedShiftLeftUnsigned32'', Type_U128, [Type_U128, Type_U8]),
    (''VectorSignedSaturatedShiftLeftUnsigned64'', Type_U128, [Type_U128, Type_U8]),
    (''VectorSub8'', Type_U128, [Type_U128, Type_U128]),
    (''VectorSub16'', Type_U128, [Type_U128, Type_U128]),
    (''VectorSub32'', Type_U128, [Type_U128, Type_U128]),
    (''VectorSub64'', Type_U128, [Type_U128, Type_U128]),
    (''VectorTable'', Type_Table, [Type_Opaque, Type_Opaque, Type_Opaque, Type_Opaque]),
    (''VectorTableLookup64'', Type_U64, [Type_U64, Type_Table, Type_U64]),
    (''VectorTableLookup128'', Type_U128, [Type_U128, Type_Table, Type_U128]),
    (''VectorTranspose8'', Type_U128, [Type_U128, Type_U128, Type_U1]),
    (''VectorTranspose16'', Type_U128, [Type_U128, Type_U128, Type_U1]),
    (''VectorTranspose32'', Type_U128, [Type_U128, Type_U128, Type_U1]),
    (''VectorTranspose64'', Type_U128, [Type_U128, Type_U128, Type_U1]),
    (''VectorUnsignedAbsoluteDifference8'', Type_U128, [Type_U128, Type_U128]),
    (''VectorUnsignedAbsoluteDifference16'', Type_U128, [Type_U128, Type_U128]),
    (''VectorUnsignedAbsoluteDifference32'', Type_U128, [Type_U128, Type_U128]),
    (''VectorUnsignedMultiply16'', Type_Void, [Type_U128, Type_U128]),
    (''VectorUnsignedMultiply32'', Type_Void, [Type_U128, Type_U128]),
    (''VectorUnsignedRecipEstimate'', Type_U128, [Type_U128]),
    (''VectorUnsignedRecipSqrtEstimate'', Type_U128, [Type_U128]),
    (''VectorUnsignedSaturatedAccumulateSigned8'', Type_U128, [Type_U128, Type_U128]),
    (''VectorUnsignedSaturatedAccumulateSigned16'', Type_U128, [Type_U128, Type_U128]),
    (''VectorUnsignedSaturatedAccumulateSigned32'', Type_U128, [Type_U128, Type_U128]),
    (''VectorUnsignedSaturatedAccumulateSigned64'', Type_U128, [Type_U128, Type_U128]),
    (''VectorUnsignedSaturatedNarrow16'', Type_U128, [Type_U128]),
    (''VectorUnsignedSaturatedNarrow32'', Type_U128, [Type_U128]),
    (''VectorUnsignedSaturatedNarrow64'', Type_U128, [Type_U128]),
    (''VectorUnsignedSaturatedShiftLeft8'', Type_U128, [Type_U128, Type_U128]),
    (''VectorUnsignedSaturatedShiftLeft16'', Type_U128, [Type_U128, Type_U128]),
    (''VectorUnsignedSaturatedShiftLeft32'', Type_U128, [Type_U128, Type_U128]),
    (''VectorUnsignedSaturatedShiftLeft64'', Type_U128, [Type_U128, Type_U128]),
    (''VectorZeroExtend8'', Type_U128, [Type_U128]),
    (''VectorZeroExtend16'', Type_U128, [Type_U128]),
    (''VectorZeroExtend32'', Type_U128, [Type_U128]),
    (''VectorZeroExtend64'', Type_U128, [Type_U128]),
    (''VectorZeroUpper'', Type_U128, [Type_U128]),
    (''ZeroVector'', Type_U128, [])]"

definition ops_fp :: "opcode_table" where
  "ops_fp = [
    (''FPAbs16'', Type_U16, [Type_U16]),
    (''FPAbs32'', Type_U32, [Type_U32]),
    (''FPAbs64'', Type_U64, [Type_U64]),
    (''FPAdd32'', Type_U32, [Type_U32, Type_U32]),
    (''FPAdd64'', Type_U64, [Type_U64, Type_U64]),
    (''FPCompare32'', Type_NZCVFlags, [Type_U32, Type_U32, Type_U1]),
    (''FPCompare64'', Type_NZCVFlags, [Type_U64, Type_U64, Type_U1]),
    (''FPDiv32'', Type_U32, [Type_U32, Type_U32]),
    (''FPDiv64'', Type_U64, [Type_U64, Type_U64]),
    (''FPMax32'', Type_U32, [Type_U32, Type_U32]),
    (''FPMax64'', Type_U64, [Type_U64, Type_U64]),
    (''FPMaxNumeric32'', Type_U32, [Type_U32, Type_U32]),
    (''FPMaxNumeric64'', Type_U64, [Type_U64, Type_U64]),
    (''FPMin32'', Type_U32, [Type_U32, Type_U32]),
    (''FPMin64'', Type_U64, [Type_U64, Type_U64]),
    (''FPMinNumeric32'', Type_U32, [Type_U32, Type_U32]),
    (''FPMinNumeric64'', Type_U64, [Type_U64, Type_U64]),
    (''FPMul32'', Type_U32, [Type_U32, Type_U32]),
    (''FPMul64'', Type_U64, [Type_U64, Type_U64]),
    (''FPMulAdd16'', Type_U16, [Type_U16, Type_U16, Type_U16]),
    (''FPMulAdd32'', Type_U32, [Type_U32, Type_U32, Type_U32]),
    (''FPMulAdd64'', Type_U64, [Type_U64, Type_U64, Type_U64]),
    (''FPMulSub16'', Type_U16, [Type_U16, Type_U16, Type_U16]),
    (''FPMulSub32'', Type_U32, [Type_U32, Type_U32, Type_U32]),
    (''FPMulSub64'', Type_U64, [Type_U64, Type_U64, Type_U64]),
    (''FPMulX32'', Type_U32, [Type_U32, Type_U32]),
    (''FPMulX64'', Type_U64, [Type_U64, Type_U64]),
    (''FPNeg16'', Type_U16, [Type_U16]),
    (''FPNeg32'', Type_U32, [Type_U32]),
    (''FPNeg64'', Type_U64, [Type_U64]),
    (''FPRecipEstimate16'', Type_U16, [Type_U16]),
    (''FPRecipEstimate32'', Type_U32, [Type_U32]),
    (''FPRecipEstimate64'', Type_U64, [Type_U64]),
    (''FPRecipExponent16'', Type_U16, [Type_U16]),
    (''FPRecipExponent32'', Type_U32, [Type_U32]),
    (''FPRecipExponent64'', Type_U64, [Type_U64]),
    (''FPRecipStepFused16'', Type_U16, [Type_U16, Type_U16]),
    (''FPRecipStepFused32'', Type_U32, [Type_U32, Type_U32]),
    (''FPRecipStepFused64'', Type_U64, [Type_U64, Type_U64]),
    (''FPRoundInt16'', Type_U16, [Type_U16, Type_U8, Type_U1]),
    (''FPRoundInt32'', Type_U32, [Type_U32, Type_U8, Type_U1]),
    (''FPRoundInt64'', Type_U64, [Type_U64, Type_U8, Type_U1]),
    (''FPRSqrtEstimate16'', Type_U16, [Type_U16]),
    (''FPRSqrtEstimate32'', Type_U32, [Type_U32]),
    (''FPRSqrtEstimate64'', Type_U64, [Type_U64]),
    (''FPRSqrtStepFused16'', Type_U16, [Type_U16, Type_U16]),
    (''FPRSqrtStepFused32'', Type_U32, [Type_U32, Type_U32]),
    (''FPRSqrtStepFused64'', Type_U64, [Type_U64, Type_U64]),
    (''FPSqrt32'', Type_U32, [Type_U32]),
    (''FPSqrt64'', Type_U64, [Type_U64]),
    (''FPSub32'', Type_U32, [Type_U32, Type_U32]),
    (''FPSub64'', Type_U64, [Type_U64, Type_U64])]"

definition ops_fp_conversion :: "opcode_table" where
  "ops_fp_conversion = [
    (''FPHalfToDouble'', Type_U64, [Type_U16, Type_U8]),
    (''FPHalfToSingle'', Type_U32, [Type_U16, Type_U8]),
    (''FPSingleToDouble'', Type_U64, [Type_U32, Type_U8]),
    (''FPSingleToHalf'', Type_U16, [Type_U32, Type_U8]),
    (''FPDoubleToHalf'', Type_U16, [Type_U64, Type_U8]),
    (''FPDoubleToSingle'', Type_U32, [Type_U64, Type_U8]),
    (''FPDoubleToFixedS16'', Type_U16, [Type_U64, Type_U8, Type_U8]),
    (''FPDoubleToFixedS32'', Type_U32, [Type_U64, Type_U8, Type_U8]),
    (''FPDoubleToFixedS64'', Type_U64, [Type_U64, Type_U8, Type_U8]),
    (''FPDoubleToFixedU16'', Type_U16, [Type_U64, Type_U8, Type_U8]),
    (''FPDoubleToFixedU32'', Type_U32, [Type_U64, Type_U8, Type_U8]),
    (''FPDoubleToFixedU64'', Type_U64, [Type_U64, Type_U8, Type_U8]),
    (''FPHalfToFixedS16'', Type_U16, [Type_U16, Type_U8, Type_U8]),
    (''FPHalfToFixedS32'', Type_U32, [Type_U16, Type_U8, Type_U8]),
    (''FPHalfToFixedS64'', Type_U64, [Type_U16, Type_U8, Type_U8]),
    (''FPHalfToFixedU16'', Type_U16, [Type_U16, Type_U8, Type_U8]),
    (''FPHalfToFixedU32'', Type_U32, [Type_U16, Type_U8, Type_U8]),
    (''FPHalfToFixedU64'', Type_U64, [Type_U16, Type_U8, Type_U8]),
    (''FPSingleToFixedS16'', Type_U16, [Type_U32, Type_U8, Type_U8]),
    (''FPSingleToFixedS32'', Type_U32, [Type_U32, Type_U8, Type_U8]),
    (''FPSingleToFixedS64'', Type_U64, [Type_U32, Type_U8, Type_U8]),
    (''FPSingleToFixedU16'', Type_U16, [Type_U32, Type_U8, Type_U8]),
    (''FPSingleToFixedU32'', Type_U32, [Type_U32, Type_U8, Type_U8]),
    (''FPSingleToFixedU64'', Type_U64, [Type_U32, Type_U8, Type_U8]),
    (''FPFixedU16ToSingle'', Type_U32, [Type_U16, Type_U8, Type_U8]),
    (''FPFixedS16ToSingle'', Type_U32, [Type_U16, Type_U8, Type_U8]),
    (''FPFixedU16ToDouble'', Type_U64, [Type_U16, Type_U8, Type_U8]),
    (''FPFixedS16ToDouble'', Type_U64, [Type_U16, Type_U8, Type_U8]),
    (''FPFixedU32ToSingle'', Type_U32, [Type_U32, Type_U8, Type_U8]),
    (''FPFixedS32ToSingle'', Type_U32, [Type_U32, Type_U8, Type_U8]),
    (''FPFixedU32ToDouble'', Type_U64, [Type_U32, Type_U8, Type_U8]),
    (''FPFixedS32ToDouble'', Type_U64, [Type_U32, Type_U8, Type_U8]),
    (''FPFixedU64ToDouble'', Type_U64, [Type_U64, Type_U8, Type_U8]),
    (''FPFixedU64ToSingle'', Type_U32, [Type_U64, Type_U8, Type_U8]),
    (''FPFixedS64ToDouble'', Type_U64, [Type_U64, Type_U8, Type_U8]),
    (''FPFixedS64ToSingle'', Type_U32, [Type_U64, Type_U8, Type_U8])]"

definition ops_fp_vector :: "opcode_table" where
  "ops_fp_vector = [
    (''FPVectorAbs16'', Type_U128, [Type_U128]),
    (''FPVectorAbs32'', Type_U128, [Type_U128]),
    (''FPVectorAbs64'', Type_U128, [Type_U128]),
    (''FPVectorAdd32'', Type_U128, [Type_U128, Type_U128, Type_U1]),
    (''FPVectorAdd64'', Type_U128, [Type_U128, Type_U128, Type_U1]),
    (''FPVectorDiv32'', Type_U128, [Type_U128, Type_U128, Type_U1]),
    (''FPVectorDiv64'', Type_U128, [Type_U128, Type_U128, Type_U1]),
    (''FPVectorEqual16'', Type_U128, [Type_U128, Type_U128, Type_U1]),
    (''FPVectorEqual32'', Type_U128, [Type_U128, Type_U128, Type_U1]),
    (''FPVectorEqual64'', Type_U128, [Type_U128, Type_U128, Type_U1]),
    (''FPVectorFromHalf32'', Type_U128, [Type_U128, Type_U8, Type_U1]),
    (''FPVectorFromSignedFixed32'', Type_U128, [Type_U128, Type_U8, Type_U8, Type_U1]),
    (''FPVectorFromSignedFixed64'', Type_U128, [Type_U128, Type_U8, Type_U8, Type_U1]),
    (''FPVectorFromUnsignedFixed32'', Type_U128, [Type_U128, Type_U8, Type_U8, Type_U1]),
    (''FPVectorFromUnsignedFixed64'', Type_U128, [Type_U128, Type_U8, Type_U8, Type_U1]),
    (''FPVectorGreater32'', Type_U128, [Type_U128, Type_U128, Type_U1]),
    (''FPVectorGreater64'', Type_U128, [Type_U128, Type_U128, Type_U1]),
    (''FPVectorGreaterEqual32'', Type_U128, [Type_U128, Type_U128, Type_U1]),
    (''FPVectorGreaterEqual64'', Type_U128, [Type_U128, Type_U128, Type_U1]),
    (''FPVectorMax32'', Type_U128, [Type_U128, Type_U128, Type_U1]),
    (''FPVectorMax64'', Type_U128, [Type_U128, Type_U128, Type_U1]),
    (''FPVectorMaxNumeric32'', Type_U128, [Type_U128, Type_U128, Type_U1]),
    (''FPVectorMaxNumeric64'', Type_U128, [Type_U128, Type_U128, Type_U1]),
    (''FPVectorMin32'', Type_U128, [Type_U128, Type_U128, Type_U1]),
    (''FPVectorMin64'', Type_U128, [Type_U128, Type_U128, Type_U1]),
    (''FPVectorMinNumeric32'', Type_U128, [Type_U128, Type_U128, Type_U1]),
    (''FPVectorMinNumeric64'', Type_U128, [Type_U128, Type_U128, Type_U1]),
    (''FPVectorMul32'', Type_U128, [Type_U128, Type_U128, Type_U1]),
    (''FPVectorMul64'', Type_U128, [Type_U128, Type_U128, Type_U1]),
    (''FPVectorMulAdd16'', Type_U128, [Type_U128, Type_U128, Type_U128, Type_U1]),
    (''FPVectorMulAdd32'', Type_U128, [Type_U128, Type_U128, Type_U128, Type_U1]),
    (''FPVectorMulAdd64'', Type_U128, [Type_U128, Type_U128, Type_U128, Type_U1]),
    (''FPVectorMulX32'', Type_U128, [Type_U128, Type_U128, Type_U1]),
    (''FPVectorMulX64'', Type_U128, [Type_U128, Type_U128, Type_U1]),
    (''FPVectorNeg16'', Type_U128, [Type_U128]),
    (''FPVectorNeg32'', Type_U128, [Type_U128]),
    (''FPVectorNeg64'', Type_U128, [Type_U128]),
    (''FPVectorPairedAdd32'', Type_U128, [Type_U128, Type_U128, Type_U1]),
    (''FPVectorPairedAdd64'', Type_U128, [Type_U128, Type_U128, Type_U1]),
    (''FPVectorPairedAddLower32'', Type_U128, [Type_U128, Type_U128, Type_U1]),
    (''FPVectorPairedAddLower64'', Type_U128, [Type_U128, Type_U128, Type_U1]),
    (''FPVectorRecipEstimate16'', Type_U128, [Type_U128, Type_U1]),
    (''FPVectorRecipEstimate32'', Type_U128, [Type_U128, Type_U1]),
    (''FPVectorRecipEstimate64'', Type_U128, [Type_U128, Type_U1]),
    (''FPVectorRecipStepFused16'', Type_U128, [Type_U128, Type_U128, Type_U1]),
    (''FPVectorRecipStepFused32'', Type_U128, [Type_U128, Type_U128, Type_U1]),
    (''FPVectorRecipStepFused64'', Type_U128, [Type_U128, Type_U128, Type_U1]),
    (''FPVectorRoundInt16'', Type_U128, [Type_U128, Type_U8, Type_U1, Type_U1]),
    (''FPVectorRoundInt32'', Type_U128, [Type_U128, Type_U8, Type_U1, Type_U1]),
    (''FPVectorRoundInt64'', Type_U128, [Type_U128, Type_U8, Type_U1, Type_U1]),
    (''FPVectorRSqrtEstimate16'', Type_U128, [Type_U128, Type_U1]),
    (''FPVectorRSqrtEstimate32'', Type_U128, [Type_U128, Type_U1]),
    (''FPVectorRSqrtEstimate64'', Type_U128, [Type_U128, Type_U1]),
    (''FPVectorRSqrtStepFused16'', Type_U128, [Type_U128, Type_U128, Type_U1]),
    (''FPVectorRSqrtStepFused32'', Type_U128, [Type_U128, Type_U128, Type_U1]),
    (''FPVectorRSqrtStepFused64'', Type_U128, [Type_U128, Type_U128, Type_U1]),
    (''FPVectorSqrt32'', Type_U128, [Type_U128, Type_U1]),
    (''FPVectorSqrt64'', Type_U128, [Type_U128, Type_U1]),
    (''FPVectorSub32'', Type_U128, [Type_U128, Type_U128, Type_U1]),
    (''FPVectorSub64'', Type_U128, [Type_U128, Type_U128, Type_U1]),
    (''FPVectorToHalf32'', Type_U128, [Type_U128, Type_U8, Type_U1]),
    (''FPVectorToSignedFixed16'', Type_U128, [Type_U128, Type_U8, Type_U8, Type_U1]),
    (''FPVectorToSignedFixed32'', Type_U128, [Type_U128, Type_U8, Type_U8, Type_U1]),
    (''FPVectorToSignedFixed64'', Type_U128, [Type_U128, Type_U8, Type_U8, Type_U1]),
    (''FPVectorToUnsignedFixed16'', Type_U128, [Type_U128, Type_U8, Type_U8, Type_U1]),
    (''FPVectorToUnsignedFixed32'', Type_U128, [Type_U128, Type_U8, Type_U8, Type_U1]),
    (''FPVectorToUnsignedFixed64'', Type_U128, [Type_U128, Type_U8, Type_U8, Type_U1])]"

definition ops_a32_memory :: "opcode_table" where
  "ops_a32_memory = [
    (''A32ClearExclusive'', Type_Void, []),
    (''A32ReadMemory8'', Type_U8, [Type_U64, Type_U32, Type_AccType]),
    (''A32ReadMemory16'', Type_U16, [Type_U64, Type_U32, Type_AccType]),
    (''A32ReadMemory32'', Type_U32, [Type_U64, Type_U32, Type_AccType]),
    (''A32ReadMemory64'', Type_U64, [Type_U64, Type_U32, Type_AccType]),
    (''A32ExclusiveReadMemory8'', Type_U8, [Type_U64, Type_U32, Type_AccType]),
    (''A32ExclusiveReadMemory16'', Type_U16, [Type_U64, Type_U32, Type_AccType]),
    (''A32ExclusiveReadMemory32'', Type_U32, [Type_U64, Type_U32, Type_AccType]),
    (''A32ExclusiveReadMemory64'', Type_U64, [Type_U64, Type_U32, Type_AccType]),
    (''A32WriteMemory8'', Type_Void, [Type_U64, Type_U32, Type_U8, Type_AccType]),
    (''A32WriteMemory16'', Type_Void, [Type_U64, Type_U32, Type_U16, Type_AccType]),
    (''A32WriteMemory32'', Type_Void, [Type_U64, Type_U32, Type_U32, Type_AccType]),
    (''A32WriteMemory64'', Type_Void, [Type_U64, Type_U32, Type_U64, Type_AccType]),
    (''A32SwapMemory8'', Type_U8, [Type_U64, Type_U32, Type_U8]),
    (''A32SwapMemory32'', Type_U32, [Type_U64, Type_U32, Type_U32]),
    (''A32ExclusiveWriteMemory8'', Type_U32, [Type_U64, Type_U32, Type_U8, Type_AccType]),
    (''A32ExclusiveWriteMemory16'', Type_U32, [Type_U64, Type_U32, Type_U16, Type_AccType]),
    (''A32ExclusiveWriteMemory32'', Type_U32, [Type_U64, Type_U32, Type_U32, Type_AccType]),
    (''A32ExclusiveWriteMemory64'', Type_U32, [Type_U64, Type_U32, Type_U64, Type_AccType])]"

definition ops_a64_memory :: "opcode_table" where
  "ops_a64_memory = [
    (''A64ClearExclusive'', Type_Void, []),
    (''A64ReadMemory8'', Type_U8, [Type_U64, Type_U64, Type_AccType]),
    (''A64ReadMemory16'', Type_U16, [Type_U64, Type_U64, Type_AccType]),
    (''A64ReadMemory32'', Type_U32, [Type_U64, Type_U64, Type_AccType]),
    (''A64ReadMemory64'', Type_U64, [Type_U64, Type_U64, Type_AccType]),
    (''A64ReadMemory128'', Type_U128, [Type_U64, Type_U64, Type_AccType]),
    (''A64ExclusiveReadMemory8'', Type_U8, [Type_U64, Type_U64, Type_AccType]),
    (''A64ExclusiveReadMemory16'', Type_U16, [Type_U64, Type_U64, Type_AccType]),
    (''A64ExclusiveReadMemory32'', Type_U32, [Type_U64, Type_U64, Type_AccType]),
    (''A64ExclusiveReadMemory64'', Type_U64, [Type_U64, Type_U64, Type_AccType]),
    (''A64ExclusiveReadMemory128'', Type_U128, [Type_U64, Type_U64, Type_AccType]),
    (''A64WriteMemory8'', Type_Void, [Type_U64, Type_U64, Type_U8, Type_AccType]),
    (''A64WriteMemory16'', Type_Void, [Type_U64, Type_U64, Type_U16, Type_AccType]),
    (''A64WriteMemory32'', Type_Void, [Type_U64, Type_U64, Type_U32, Type_AccType]),
    (''A64WriteMemory64'', Type_Void, [Type_U64, Type_U64, Type_U64, Type_AccType]),
    (''A64WriteMemory128'', Type_Void, [Type_U64, Type_U64, Type_U128, Type_AccType]),
    (''A64ExclusiveWriteMemory8'', Type_U32, [Type_U64, Type_U64, Type_U8, Type_AccType]),
    (''A64ExclusiveWriteMemory16'', Type_U32, [Type_U64, Type_U64, Type_U16, Type_AccType]),
    (''A64ExclusiveWriteMemory32'', Type_U32, [Type_U64, Type_U64, Type_U32, Type_AccType]),
    (''A64ExclusiveWriteMemory64'', Type_U32, [Type_U64, Type_U64, Type_U64, Type_AccType]),
    (''A64ExclusiveWriteMemory128'', Type_U32, [Type_U64, Type_U64, Type_U128, Type_AccType])]"

definition ops_coprocessor :: "opcode_table" where
  "ops_coprocessor = [
    (''A32CoprocInternalOperation'', Type_Void, [Type_CoprocInfo]),
    (''A32CoprocSendOneWord'', Type_Void, [Type_CoprocInfo, Type_U32]),
    (''A32CoprocSendTwoWords'', Type_Void, [Type_CoprocInfo, Type_U32, Type_U32]),
    (''A32CoprocGetOneWord'', Type_U32, [Type_CoprocInfo]),
    (''A32CoprocGetTwoWords'', Type_U64, [Type_CoprocInfo]),
    (''A32CoprocLoadWords'', Type_Void, [Type_CoprocInfo, Type_U32]),
    (''A32CoprocStoreWords'', Type_Void, [Type_CoprocInfo, Type_U32])]"

text \<open>The rows are keyed by name, so the order of the groups is immaterial.\<close>

definition opcode_info :: "opcode_table" where
  "opcode_info =
     ops_core @ ops_pseudo @ ops_calc @ ops_a32_context @ ops_a64_context @ ops_hints @
     ops_saturated @ ops_vector_saturated @ ops_packed @ ops_crc @ ops_aes @
     ops_sm4 @ ops_sha @ ops_vector @ ops_fp @ ops_fp_conversion @ ops_fp_vector @
     ops_a32_memory @ ops_a64_memory @ ops_coprocessor"

fun table_lookup :: "opcode_table \<Rightarrow> opcode \<Rightarrow> (ir_type \<times> ir_type list) option" where
  "table_lookup [] op = None"
| "table_lookup ((name, m) # rows) op = (if op = name then Some m else table_lookup rows op)"

definition opcode_meta :: "opcode \<Rightarrow> (ir_type \<times> ir_type list) option" where
  "opcode_meta op = table_lookup opcode_info op"

text \<open>\<^verbatim>\<open>std::array::at\<close> throws on an enumerator beyond the table, here \<^term>\<open>None\<close>.\<close>

definition GetTypeOf :: "opcode \<Rightarrow> ir_type option" where
  "GetTypeOf op = map_option fst (opcode_meta op)"

definition GetNumArgsOf :: "opcode \<Rightarrow> nat option" where
  "GetNumArgsOf op = map_option (length \<circ> snd) (opcode_meta op)"

definition GetArgTypeOf :: "opcode \<Rightarrow> nat \<Rightarrow> ir_type option" where
  "GetArgTypeOf op arg_index =
     (case opcode_meta op of None \<Rightarrow> None
      | Some (t, args) \<Rightarrow> if arg_index \<ge> length args then None else Some (args ! arg_index))"

section \<open>Looking an opcode up\<close>

lemma table_lookup_append:
  "table_lookup (xs @ ys) op = (case table_lookup xs op of Some m \<Rightarrow> Some m | None \<Rightarrow> table_lookup ys op)"
  by (induction xs) auto

lemma table_lookup_weak_cong: "op = op' \<Longrightarrow> table_lookup rows op = table_lookup rows op'"
  by simp

lemmas group_lookup =
  arg_cong [OF ops_core_def, of table_lookup, THEN fun_cong]
  arg_cong [OF ops_a32_context_def, of table_lookup, THEN fun_cong]
  arg_cong [OF ops_a64_context_def, of table_lookup, THEN fun_cong]
  arg_cong [OF ops_hints_def, of table_lookup, THEN fun_cong]
  arg_cong [OF ops_pseudo_def, of table_lookup, THEN fun_cong]
  arg_cong [OF ops_calc_def, of table_lookup, THEN fun_cong]
  arg_cong [OF ops_saturated_def, of table_lookup, THEN fun_cong]
  arg_cong [OF ops_vector_saturated_def, of table_lookup, THEN fun_cong]
  arg_cong [OF ops_packed_def, of table_lookup, THEN fun_cong]
  arg_cong [OF ops_crc_def, of table_lookup, THEN fun_cong]
  arg_cong [OF ops_aes_def, of table_lookup, THEN fun_cong]
  arg_cong [OF ops_sm4_def, of table_lookup, THEN fun_cong]
  arg_cong [OF ops_sha_def, of table_lookup, THEN fun_cong]
  arg_cong [OF ops_vector_def, of table_lookup, THEN fun_cong]
  arg_cong [OF ops_fp_def, of table_lookup, THEN fun_cong]
  arg_cong [OF ops_fp_conversion_def, of table_lookup, THEN fun_cong]
  arg_cong [OF ops_fp_vector_def, of table_lookup, THEN fun_cong]
  arg_cong [OF ops_a32_memory_def, of table_lookup, THEN fun_cong]
  arg_cong [OF ops_a64_memory_def, of table_lookup, THEN fun_cong]
  arg_cong [OF ops_coprocessor_def, of table_lookup, THEN fun_cong]

text \<open>The rows of the core, pseudo-operation and calculation groups.\<close>

lemma opcode_meta_simps [simp]:
  "opcode_meta ''Void'' = Some (Type_Void, [])"
  "opcode_meta ''Identity'' = Some (Type_Opaque, [Type_Opaque])"
  "opcode_meta ''GetCarryFromOp'' = Some (Type_U1, [Type_Opaque])"
  "opcode_meta ''GetOverflowFromOp'' = Some (Type_U1, [Type_Opaque])"
  "opcode_meta ''GetGEFromOp'' = Some (Type_U32, [Type_Opaque])"
  "opcode_meta ''GetNZCVFromOp'' = Some (Type_NZCVFlags, [Type_Opaque])"
  "opcode_meta ''GetNZFromOp'' = Some (Type_NZCVFlags, [Type_Opaque])"
  "opcode_meta ''GetUpperFromOp'' = Some (Type_U128, [Type_Opaque])"
  "opcode_meta ''GetLowerFromOp'' = Some (Type_U128, [Type_Opaque])"
  "opcode_meta ''GetCFlagFromNZCV'' = Some (Type_U1, [Type_NZCVFlags])"
  "opcode_meta ''NZCVFromPackedFlags'' = Some (Type_NZCVFlags, [Type_U32])"
  "opcode_meta ''Pack2x32To1x64'' = Some (Type_U64, [Type_U32, Type_U32])"
  "opcode_meta ''Pack2x64To1x128'' = Some (Type_U128, [Type_U64, Type_U64])"
  "opcode_meta ''LeastSignificantWord'' = Some (Type_U32, [Type_U64])"
  "opcode_meta ''LeastSignificantHalf'' = Some (Type_U16, [Type_U32])"
  "opcode_meta ''LeastSignificantByte'' = Some (Type_U8, [Type_U32])"
  "opcode_meta ''MostSignificantWord'' = Some (Type_U32, [Type_U64])"
  "opcode_meta ''MostSignificantBit'' = Some (Type_U1, [Type_U32])"
  "opcode_meta ''IsZero32'' = Some (Type_U1, [Type_U32])"
  "opcode_meta ''IsZero64'' = Some (Type_U1, [Type_U64])"
  "opcode_meta ''TestBit'' = Some (Type_U1, [Type_U64, Type_U8])"
  "opcode_meta ''ConditionalSelect32'' = Some (Type_U32, [Type_Cond, Type_U32, Type_U32])"
  "opcode_meta ''ConditionalSelect64'' = Some (Type_U64, [Type_Cond, Type_U64, Type_U64])"
  "opcode_meta ''ConditionalSelectNZCV'' = Some (Type_NZCVFlags, [Type_Cond, Type_NZCVFlags, Type_NZCVFlags])"
  "opcode_meta ''LogicalShiftLeft32'' = Some (Type_U32, [Type_U32, Type_U8, Type_U1])"
  "opcode_meta ''LogicalShiftLeft64'' = Some (Type_U64, [Type_U64, Type_U8])"
  "opcode_meta ''LogicalShiftRight32'' = Some (Type_U32, [Type_U32, Type_U8, Type_U1])"
  "opcode_meta ''LogicalShiftRight64'' = Some (Type_U64, [Type_U64, Type_U8])"
  "opcode_meta ''ArithmeticShiftRight32'' = Some (Type_U32, [Type_U32, Type_U8, Type_U1])"
  "opcode_meta ''ArithmeticShiftRight64'' = Some (Type_U64, [Type_U64, Type_U8])"
  "opcode_meta ''RotateRight32'' = Some (Type_U32, [Type_U32, Type_U8, Type_U1])"
  "opcode_meta ''RotateRight64'' = Some (Type_U64, [Type_U64, Type_U8])"
  "opcode_meta ''RotateRightExtended'' = Some (Type_U32, [Type_U32, Type_U1])"
  "opcode_meta ''LogicalShiftLeftMasked32'' = Some (Type_U32, [Type_U32, Type_U32])"
  "opcode_meta ''LogicalShiftLeftMasked64'' = Some (Type_U64, [Type_U64, Type_U64])"
  "opcode_meta ''LogicalShiftRightMasked32'' = Some (Type_U32, [Type_U32, Type_U32])"
  "opcode_meta ''LogicalShiftRightMasked64'' = Some (Type_U64, [Type_U64, Type_U64])"
  "opcode_meta ''ArithmeticShiftRightMasked32'' = Some (Type_U32, [Type_U32, Type_U32])"
  "opcode_meta ''ArithmeticShiftRightMasked64'' = Some (Type_U64, [Type_U64, Type_U64])"
  "opcode_meta ''RotateRightMasked32'' = Some (Type_U32, [Type_U32, Type_U32])"
  "opcode_meta ''RotateRightMasked64'' = Some (Type_U64, [Type_U64, Type_U64])"
  "opcode_meta ''Add32'' = Some (Type_U32, [Type_U32, Type_U32, Type_U1])"
  "opcode_meta ''Add64'' = Some (Type_U64, [Type_U64, Type_U64, Type_U1])"
  "opcode_meta ''Sub32'' = Some (Type_U32, [Type_U32, Type_U32, Type_U1])"
  "opcode_meta ''Sub64'' = Some (Type_U64, [Type_U64, Type_U64, Type_U1])"
  "opcode_meta ''Mul32'' = Some (Type_U32, [Type_U32, Type_U32])"
  "opcode_meta ''Mul64'' = Some (Type_U64, [Type_U64, Type_U64])"
  "opcode_meta ''SignedMultiplyHigh64'' = Some (Type_U64, [Type_U64, Type_U64])"
  "opcode_meta ''UnsignedMultiplyHigh64'' = Some (Type_U64, [Type_U64, Type_U64])"
  "opcode_meta ''UnsignedDiv32'' = Some (Type_U32, [Type_U32, Type_U32])"
  "opcode_meta ''UnsignedDiv64'' = Some (Type_U64, [Type_U64, Type_U64])"
  "opcode_meta ''SignedDiv32'' = Some (Type_U32, [Type_U32, Type_U32])"
  "opcode_meta ''SignedDiv64'' = Some (Type_U64, [Type_U64, Type_U64])"
  "opcode_meta ''And32'' = Some (Type_U32, [Type_U32, Type_U32])"
  "opcode_meta ''And64'' = Some (Type_U64, [Type_U64, Type_U64])"
  "opcode_meta ''AndNot32'' = Some (Type_U32, [Type_U32, Type_U32])"
  "opcode_meta ''AndNot64'' = Some (Type_U64, [Type_U64, Type_U64])"
  "opcode_meta ''Eor32'' = Some (Type_U32, [Type_U32, Type_U32])"
  "opcode_meta ''Eor64'' = Some (Type_U64, [Type_U64, Type_U64])"
  "opcode_meta ''Or32'' = Some (Type_U32, [Type_U32, Type_U32])"
  "opcode_meta ''Or64'' = Some (Type_U64, [Type_U64, Type_U64])"
  "opcode_meta ''Not32'' = Some (Type_U32, [Type_U32])"
  "opcode_meta ''Not64'' = Some (Type_U64, [Type_U64])"
  "opcode_meta ''SignExtendByteToWord'' = Some (Type_U32, [Type_U8])"
  "opcode_meta ''SignExtendHalfToWord'' = Some (Type_U32, [Type_U16])"
  "opcode_meta ''SignExtendByteToLong'' = Some (Type_U64, [Type_U8])"
  "opcode_meta ''SignExtendHalfToLong'' = Some (Type_U64, [Type_U16])"
  "opcode_meta ''SignExtendWordToLong'' = Some (Type_U64, [Type_U32])"
  "opcode_meta ''ZeroExtendByteToWord'' = Some (Type_U32, [Type_U8])"
  "opcode_meta ''ZeroExtendHalfToWord'' = Some (Type_U32, [Type_U16])"
  "opcode_meta ''ZeroExtendByteToLong'' = Some (Type_U64, [Type_U8])"
  "opcode_meta ''ZeroExtendHalfToLong'' = Some (Type_U64, [Type_U16])"
  "opcode_meta ''ZeroExtendWordToLong'' = Some (Type_U64, [Type_U32])"
  "opcode_meta ''ZeroExtendLongToQuad'' = Some (Type_U128, [Type_U64])"
  "opcode_meta ''ByteReverseWord'' = Some (Type_U32, [Type_U32])"
  "opcode_meta ''ByteReverseHalf'' = Some (Type_U16, [Type_U16])"
  "opcode_meta ''ByteReverseDual'' = Some (Type_U64, [Type_U64])"
  "opcode_meta ''CountLeadingZeros32'' = Some (Type_U32, [Type_U32])"
  "opcode_meta ''CountLeadingZeros64'' = Some (Type_U64, [Type_U64])"
  "opcode_meta ''ExtractRegister32'' = Some (Type_U32, [Type_U32, Type_U32, Type_U8])"
  "opcode_meta ''ExtractRegister64'' = Some (Type_U64, [Type_U64, Type_U64, Type_U8])"
  "opcode_meta ''ReplicateBit32'' = Some (Type_U32, [Type_U32, Type_U8])"
  "opcode_meta ''ReplicateBit64'' = Some (Type_U64, [Type_U64, Type_U8])"
  "opcode_meta ''MaxSigned32'' = Some (Type_U32, [Type_U32, Type_U32])"
  "opcode_meta ''MaxSigned64'' = Some (Type_U64, [Type_U64, Type_U64])"
  "opcode_meta ''MaxUnsigned32'' = Some (Type_U32, [Type_U32, Type_U32])"
  "opcode_meta ''MaxUnsigned64'' = Some (Type_U64, [Type_U64, Type_U64])"
  "opcode_meta ''MinSigned32'' = Some (Type_U32, [Type_U32, Type_U32])"
  "opcode_meta ''MinSigned64'' = Some (Type_U64, [Type_U64, Type_U64])"
  "opcode_meta ''MinUnsigned32'' = Some (Type_U32, [Type_U32, Type_U32])"
  "opcode_meta ''MinUnsigned64'' = Some (Type_U64, [Type_U64, Type_U64])"
  by (simp_all add: opcode_meta_def [unfolded opcode_info_def] table_lookup_append group_lookup cong: table_lookup_weak_cong option.case_cong_weak)

lemma GetTypeOf_Some [simp]: "opcode_meta op = Some (t, as) \<Longrightarrow> GetTypeOf op = Some t"
  by (simp add: GetTypeOf_def)

lemma GetNumArgsOf_Some [simp]: "opcode_meta op = Some (t, as) \<Longrightarrow> GetNumArgsOf op = Some (length as)"
  by (simp add: GetNumArgsOf_def)

lemma GetArgTypeOf_Some [simp]:
  "opcode_meta op = Some (t, as) \<Longrightarrow> i < length as \<Longrightarrow> GetArgTypeOf op i = Some (as ! i)"
  by (simp add: GetArgTypeOf_def)

text \<open>Only \<open>Identity\<close> has the opaque type, and no opcode takes more than four arguments.\<close>

lemma table_lookup_in: "table_lookup rows op = Some m \<Longrightarrow> (op, m) \<in> set rows"
  by (induction rows) (auto split: if_splits)

definition row_ok :: "opcode \<times> ir_type \<times> ir_type list \<Rightarrow> bool" where
  "row_ok row \<longleftrightarrow> (case row of (name, t, as) \<Rightarrow>
     length as \<le> 4 \<and> (t = Type_Opaque \<longrightarrow> name = ''Identity'') \<and> Type_Void \<notin> set as)"

lemma group_rows_ok:
  "list_all row_ok ops_core"
  "list_all row_ok ops_a32_context"
  "list_all row_ok ops_a64_context"
  "list_all row_ok ops_hints"
  "list_all row_ok ops_pseudo"
  "list_all row_ok ops_calc"
  "list_all row_ok ops_saturated"
  "list_all row_ok ops_vector_saturated"
  "list_all row_ok ops_packed"
  "list_all row_ok ops_crc"
  "list_all row_ok ops_aes"
  "list_all row_ok ops_sm4"
  "list_all row_ok ops_sha"
  "list_all row_ok ops_vector"
  "list_all row_ok ops_fp"
  "list_all row_ok ops_fp_conversion"
  "list_all row_ok ops_fp_vector"
  "list_all row_ok ops_a32_memory"
  "list_all row_ok ops_a64_memory"
  "list_all row_ok ops_coprocessor"
  by (simp_all add: row_ok_def
    ops_core_def ops_a32_context_def ops_a64_context_def ops_hints_def ops_pseudo_def ops_calc_def ops_saturated_def ops_vector_saturated_def ops_packed_def ops_crc_def ops_aes_def ops_sm4_def ops_sha_def ops_vector_def ops_fp_def ops_fp_conversion_def ops_fp_vector_def ops_a32_memory_def ops_a64_memory_def ops_coprocessor_def)

lemma opcode_rows_ok: "list_all row_ok opcode_info"
  by (simp add: opcode_info_def group_rows_ok)

lemma opcode_meta_ok:
  assumes "opcode_meta op = Some (t, as)"
  shows "length as \<le> 4" and "t = Type_Opaque \<longleftrightarrow> op = ''Identity''" and "Type_Void \<notin> set as"
proof -
  have "row_ok (op, t, as)"
    using assms opcode_rows_ok table_lookup_in [of opcode_info op] by (simp add: opcode_meta_def list_all_iff)
  then show "length as \<le> 4" "Type_Void \<notin> set as" and "t = Type_Opaque \<longleftrightarrow> op = ''Identity''"
    using assms by (auto simp: row_ok_def)
qed

end
