(* ===== verification/IR_Predicates.thy ===== *)
theory IR_Predicates
  imports IR_Types
begin

text \<open>
  The opcode classification of \<^verbatim>\<open>ir/microinstruction.cpp\<close>: every \<^verbatim>\<open>switch\<close> that answers
  true for a list of opcodes, and the predicates built from them up to
  \<^verbatim>\<open>MayHaveSideEffects\<close>, on which dead code elimination relies.  The lemmas check the
  classification against the opcode table.
\<close>

section \<open>The predicates\<close>

fun switch_case :: "opcode \<Rightarrow> opcode list \<Rightarrow> bool" where
  "switch_case op [] \<longleftrightarrow> False"
| "switch_case op (c # cs) \<longleftrightarrow> (if op = c then True else switch_case op cs)"

definition IsArithmeticShift :: "opcode \<Rightarrow> bool" where
  "IsArithmeticShift op \<longleftrightarrow> op = ''ArithmeticShiftRight32''
     \<or> op = ''ArithmeticShiftRight64''"

definition IsCircularShift :: "opcode \<Rightarrow> bool" where
  "IsCircularShift op \<longleftrightarrow> op = ''RotateRight32''
     \<or> op = ''RotateRight64''
     \<or> op = ''RotateRightExtended''"

definition IsLogicalShift :: "opcode \<Rightarrow> bool" where
  "IsLogicalShift op \<longleftrightarrow> switch_case op [
    ''LogicalShiftLeft32'', ''LogicalShiftLeft64'', ''LogicalShiftRight32'', ''LogicalShiftRight64'']"

definition IsShift :: "opcode \<Rightarrow> bool" where
  "IsShift op \<longleftrightarrow> IsArithmeticShift op
     \<or> IsCircularShift op
     \<or> IsLogicalShift op"

definition IsBarrier :: "opcode \<Rightarrow> bool" where
  "IsBarrier op \<longleftrightarrow> switch_case op [
    ''A32DataMemoryBarrier'', ''A32DataSynchronizationBarrier'', ''A32InstructionSynchronizationBarrier'',
    ''A64DataMemoryBarrier'', ''A64DataSynchronizationBarrier'', ''A64InstructionSynchronizationBarrier'']"

definition IsSharedMemoryRead :: "opcode \<Rightarrow> bool" where
  "IsSharedMemoryRead op \<longleftrightarrow> switch_case op [
    ''A32ReadMemory8'', ''A32ReadMemory16'', ''A32ReadMemory32'', ''A32ReadMemory64'', ''A32SwapMemory8'',
    ''A32SwapMemory32'', ''A64ReadMemory8'', ''A64ReadMemory16'', ''A64ReadMemory32'', ''A64ReadMemory64'',
    ''A64ReadMemory128'']"

definition IsSharedMemoryWrite :: "opcode \<Rightarrow> bool" where
  "IsSharedMemoryWrite op \<longleftrightarrow> switch_case op [
    ''A32WriteMemory8'', ''A32WriteMemory16'', ''A32WriteMemory32'', ''A32WriteMemory64'',
    ''A32SwapMemory8'', ''A32SwapMemory32'', ''A64WriteMemory8'', ''A64WriteMemory16'', ''A64WriteMemory32'',
    ''A64WriteMemory64'', ''A64WriteMemory128'']"

definition IsSharedMemoryReadOrWrite :: "opcode \<Rightarrow> bool" where
  "IsSharedMemoryReadOrWrite op \<longleftrightarrow> IsSharedMemoryRead op
     \<or> IsSharedMemoryWrite op"

definition IsExclusiveMemoryRead :: "opcode \<Rightarrow> bool" where
  "IsExclusiveMemoryRead op \<longleftrightarrow> switch_case op [
    ''A32ExclusiveReadMemory8'', ''A32ExclusiveReadMemory16'', ''A32ExclusiveReadMemory32'',
    ''A32ExclusiveReadMemory64'', ''A64ExclusiveReadMemory8'', ''A64ExclusiveReadMemory16'',
    ''A64ExclusiveReadMemory32'', ''A64ExclusiveReadMemory64'', ''A64ExclusiveReadMemory128'']"

definition IsExclusiveMemoryWrite :: "opcode \<Rightarrow> bool" where
  "IsExclusiveMemoryWrite op \<longleftrightarrow> switch_case op [
    ''A32ExclusiveWriteMemory8'', ''A32ExclusiveWriteMemory16'', ''A32ExclusiveWriteMemory32'',
    ''A32ExclusiveWriteMemory64'', ''A64ExclusiveWriteMemory8'', ''A64ExclusiveWriteMemory16'',
    ''A64ExclusiveWriteMemory32'', ''A64ExclusiveWriteMemory64'', ''A64ExclusiveWriteMemory128'']"

definition IsMemoryRead :: "opcode \<Rightarrow> bool" where
  "IsMemoryRead op \<longleftrightarrow> IsSharedMemoryRead op
     \<or> IsExclusiveMemoryRead op"

definition IsMemoryWrite :: "opcode \<Rightarrow> bool" where
  "IsMemoryWrite op \<longleftrightarrow> IsSharedMemoryWrite op
     \<or> IsExclusiveMemoryWrite op"

definition IsMemoryReadOrWrite :: "opcode \<Rightarrow> bool" where
  "IsMemoryReadOrWrite op \<longleftrightarrow> IsMemoryRead op
     \<or> IsMemoryWrite op"

definition ReadsFromCPSR :: "opcode \<Rightarrow> bool" where
  "ReadsFromCPSR op \<longleftrightarrow> switch_case op [
    ''A32GetCpsr'', ''A32GetCFlag'', ''A32GetGEFlags'', ''A32UpdateUpperLocationDescriptor'',
    ''A64GetCFlag'', ''A64GetNZCVRaw'', ''ConditionalSelect32'', ''ConditionalSelect64'',
    ''ConditionalSelectNZCV'']"

definition WritesToCPSR :: "opcode \<Rightarrow> bool" where
  "WritesToCPSR op \<longleftrightarrow> switch_case op [
    ''A32SetCpsr'', ''A32SetCpsrNZCVRaw'', ''A32SetCpsrNZCV'', ''A32SetCpsrNZCVQ'', ''A32SetCpsrNZ'',
    ''A32SetCpsrNZC'', ''A32OrQFlag'', ''A32SetGEFlags'', ''A32SetGEFlagsCompressed'',
    ''A32UpdateUpperLocationDescriptor'', ''A64SetNZCVRaw'', ''A64SetNZCV'']"

definition WritesToSystemRegister :: "opcode \<Rightarrow> bool" where
  "WritesToSystemRegister op \<longleftrightarrow> switch_case op [
    ''A64SetTPIDR'']"

definition ReadsFromCoreRegister :: "opcode \<Rightarrow> bool" where
  "ReadsFromCoreRegister op \<longleftrightarrow> switch_case op [
    ''A32GetRegister'', ''A32GetExtendedRegister32'', ''A32GetExtendedRegister64'', ''A32GetVector'',
    ''A64GetW'', ''A64GetX'', ''A64GetS'', ''A64GetD'', ''A64GetQ'', ''A64GetSP'']"

definition WritesToCoreRegister :: "opcode \<Rightarrow> bool" where
  "WritesToCoreRegister op \<longleftrightarrow> switch_case op [
    ''A32SetRegister'', ''A32SetExtendedRegister32'', ''A32SetExtendedRegister64'', ''A32SetVector'',
    ''A32BXWritePC'', ''A64SetW'', ''A64SetX'', ''A64SetS'', ''A64SetD'', ''A64SetQ'', ''A64SetSP'',
    ''A64SetPC'']"

definition ReadsFromFPCR :: "opcode \<Rightarrow> bool" where
  "ReadsFromFPCR op \<longleftrightarrow> switch_case op [
    ''A32GetFpscr'', ''A32GetFpscrNZCV'', ''A64GetFPCR'']"

definition WritesToFPCR :: "opcode \<Rightarrow> bool" where
  "WritesToFPCR op \<longleftrightarrow> switch_case op [
    ''A32SetFpscr'', ''A32SetFpscrNZCV'', ''A64SetFPCR'']"

definition ReadsFromAndWritesToFPSRCumulativeExceptionBits :: "opcode \<Rightarrow> bool" where
  "ReadsFromAndWritesToFPSRCumulativeExceptionBits op \<longleftrightarrow> switch_case op [
    ''FPAdd32'', ''FPAdd64'', ''FPCompare32'', ''FPCompare64'', ''FPDiv32'', ''FPDiv64'', ''FPMax32'',
    ''FPMax64'', ''FPMaxNumeric32'', ''FPMaxNumeric64'', ''FPMin32'', ''FPMin64'', ''FPMinNumeric32'',
    ''FPMinNumeric64'', ''FPMul32'', ''FPMul64'', ''FPMulAdd16'', ''FPMulAdd32'', ''FPMulAdd64'',
    ''FPMulSub16'', ''FPMulSub32'', ''FPMulSub64'', ''FPRecipEstimate16'', ''FPRecipEstimate32'',
    ''FPRecipEstimate64'', ''FPRecipExponent16'', ''FPRecipExponent32'', ''FPRecipExponent64'',
    ''FPRecipStepFused16'', ''FPRecipStepFused32'', ''FPRecipStepFused64'', ''FPRoundInt16'',
    ''FPRoundInt32'', ''FPRoundInt64'', ''FPRSqrtEstimate16'', ''FPRSqrtEstimate32'', ''FPRSqrtEstimate64'',
    ''FPRSqrtStepFused16'', ''FPRSqrtStepFused32'', ''FPRSqrtStepFused64'', ''FPSqrt32'', ''FPSqrt64'',
    ''FPSub32'', ''FPSub64'', ''FPHalfToDouble'', ''FPHalfToSingle'', ''FPSingleToDouble'',
    ''FPSingleToHalf'', ''FPDoubleToHalf'', ''FPDoubleToSingle'', ''FPDoubleToFixedS32'',
    ''FPDoubleToFixedS64'', ''FPDoubleToFixedU32'', ''FPDoubleToFixedU64'', ''FPHalfToFixedS32'',
    ''FPHalfToFixedS64'', ''FPHalfToFixedU32'', ''FPHalfToFixedU64'', ''FPSingleToFixedS32'',
    ''FPSingleToFixedS64'', ''FPSingleToFixedU32'', ''FPSingleToFixedU64'', ''FPFixedU32ToSingle'',
    ''FPFixedS32ToSingle'', ''FPFixedU32ToDouble'', ''FPFixedU64ToDouble'', ''FPFixedU64ToSingle'',
    ''FPFixedS32ToDouble'', ''FPFixedS64ToDouble'', ''FPFixedS64ToSingle'', ''FPVectorAdd32'',
    ''FPVectorAdd64'', ''FPVectorDiv32'', ''FPVectorDiv64'', ''FPVectorEqual16'', ''FPVectorEqual32'',
    ''FPVectorEqual64'', ''FPVectorFromSignedFixed32'', ''FPVectorFromSignedFixed64'',
    ''FPVectorFromUnsignedFixed32'', ''FPVectorFromUnsignedFixed64'', ''FPVectorGreater32'',
    ''FPVectorGreater64'', ''FPVectorGreaterEqual32'', ''FPVectorGreaterEqual64'', ''FPVectorMul32'',
    ''FPVectorMul64'', ''FPVectorMulAdd16'', ''FPVectorMulAdd32'', ''FPVectorMulAdd64'',
    ''FPVectorPairedAddLower32'', ''FPVectorPairedAddLower64'', ''FPVectorPairedAdd32'',
    ''FPVectorPairedAdd64'', ''FPVectorRecipEstimate16'', ''FPVectorRecipEstimate32'',
    ''FPVectorRecipEstimate64'', ''FPVectorRecipStepFused16'', ''FPVectorRecipStepFused32'',
    ''FPVectorRecipStepFused64'', ''FPVectorRoundInt16'', ''FPVectorRoundInt32'', ''FPVectorRoundInt64'',
    ''FPVectorRSqrtEstimate16'', ''FPVectorRSqrtEstimate32'', ''FPVectorRSqrtEstimate64'',
    ''FPVectorRSqrtStepFused16'', ''FPVectorRSqrtStepFused32'', ''FPVectorRSqrtStepFused64'',
    ''FPVectorSqrt32'', ''FPVectorSqrt64'', ''FPVectorSub32'', ''FPVectorSub64'',
    ''FPVectorToSignedFixed16'', ''FPVectorToSignedFixed32'', ''FPVectorToSignedFixed64'',
    ''FPVectorToUnsignedFixed16'', ''FPVectorToUnsignedFixed32'', ''FPVectorToUnsignedFixed64'']"

definition ReadsFromFPSRCumulativeExceptionBits :: "opcode \<Rightarrow> bool" where
  "ReadsFromFPSRCumulativeExceptionBits op \<longleftrightarrow> ReadsFromAndWritesToFPSRCumulativeExceptionBits op"

definition ReadsFromFPSRCumulativeSaturationBit :: "opcode \<Rightarrow> bool" where
  "ReadsFromFPSRCumulativeSaturationBit op \<longleftrightarrow> False"

definition ReadsFromFPSR :: "opcode \<Rightarrow> bool" where
  "ReadsFromFPSR op \<longleftrightarrow> op = ''A32GetFpscr''
     \<or> op = ''A32GetFpscrNZCV''
     \<or> op = ''A64GetFPSR''
     \<or> ReadsFromFPSRCumulativeExceptionBits op
     \<or> ReadsFromFPSRCumulativeSaturationBit op"

definition WritesToFPSRCumulativeExceptionBits :: "opcode \<Rightarrow> bool" where
  "WritesToFPSRCumulativeExceptionBits op \<longleftrightarrow> ReadsFromAndWritesToFPSRCumulativeExceptionBits op"

definition WritesToFPSRCumulativeSaturationBit :: "opcode \<Rightarrow> bool" where
  "WritesToFPSRCumulativeSaturationBit op \<longleftrightarrow> switch_case op [
    ''SignedSaturatedAdd8'', ''SignedSaturatedAdd16'', ''SignedSaturatedAdd32'', ''SignedSaturatedAdd64'',
    ''SignedSaturatedDoublingMultiplyReturnHigh16'', ''SignedSaturatedDoublingMultiplyReturnHigh32'',
    ''SignedSaturatedSub8'', ''SignedSaturatedSub16'', ''SignedSaturatedSub32'', ''SignedSaturatedSub64'',
    ''UnsignedSaturatedAdd8'', ''UnsignedSaturatedAdd16'', ''UnsignedSaturatedAdd32'',
    ''UnsignedSaturatedAdd64'', ''UnsignedSaturatedSub8'', ''UnsignedSaturatedSub16'',
    ''UnsignedSaturatedSub32'', ''UnsignedSaturatedSub64'', ''VectorSignedSaturatedAbs8'',
    ''VectorSignedSaturatedAbs16'', ''VectorSignedSaturatedAbs32'', ''VectorSignedSaturatedAbs64'',
    ''VectorSignedSaturatedAccumulateUnsigned8'', ''VectorSignedSaturatedAccumulateUnsigned16'',
    ''VectorSignedSaturatedAccumulateUnsigned32'', ''VectorSignedSaturatedAccumulateUnsigned64'',
    ''VectorSignedSaturatedAdd8'', ''VectorSignedSaturatedAdd16'', ''VectorSignedSaturatedAdd32'',
    ''VectorSignedSaturatedAdd64'', ''VectorSignedSaturatedDoublingMultiplyHigh16'',
    ''VectorSignedSaturatedDoublingMultiplyHigh32'', ''VectorSignedSaturatedDoublingMultiplyHighRounding16'',
    ''VectorSignedSaturatedDoublingMultiplyHighRounding32'', ''VectorSignedSaturatedDoublingMultiplyLong16'',
    ''VectorSignedSaturatedDoublingMultiplyLong32'', ''VectorSignedSaturatedNarrowToSigned16'',
    ''VectorSignedSaturatedNarrowToSigned32'', ''VectorSignedSaturatedNarrowToSigned64'',
    ''VectorSignedSaturatedNarrowToUnsigned16'', ''VectorSignedSaturatedNarrowToUnsigned32'',
    ''VectorSignedSaturatedNarrowToUnsigned64'', ''VectorSignedSaturatedNeg8'',
    ''VectorSignedSaturatedNeg16'', ''VectorSignedSaturatedNeg32'', ''VectorSignedSaturatedNeg64'',
    ''VectorSignedSaturatedShiftLeft8'', ''VectorSignedSaturatedShiftLeft16'',
    ''VectorSignedSaturatedShiftLeft32'', ''VectorSignedSaturatedShiftLeft64'',
    ''VectorSignedSaturatedShiftLeftUnsigned8'', ''VectorSignedSaturatedShiftLeftUnsigned16'',
    ''VectorSignedSaturatedShiftLeftUnsigned32'', ''VectorSignedSaturatedShiftLeftUnsigned64'',
    ''VectorSignedSaturatedSub8'', ''VectorSignedSaturatedSub16'', ''VectorSignedSaturatedSub32'',
    ''VectorSignedSaturatedSub64'', ''VectorUnsignedSaturatedAccumulateSigned8'',
    ''VectorUnsignedSaturatedAccumulateSigned16'', ''VectorUnsignedSaturatedAccumulateSigned32'',
    ''VectorUnsignedSaturatedAccumulateSigned64'', ''VectorUnsignedSaturatedAdd8'',
    ''VectorUnsignedSaturatedAdd16'', ''VectorUnsignedSaturatedAdd32'', ''VectorUnsignedSaturatedAdd64'',
    ''VectorUnsignedSaturatedNarrow16'', ''VectorUnsignedSaturatedNarrow32'',
    ''VectorUnsignedSaturatedNarrow64'', ''VectorUnsignedSaturatedShiftLeft8'',
    ''VectorUnsignedSaturatedShiftLeft16'', ''VectorUnsignedSaturatedShiftLeft32'',
    ''VectorUnsignedSaturatedShiftLeft64'', ''VectorUnsignedSaturatedSub8'',
    ''VectorUnsignedSaturatedSub16'', ''VectorUnsignedSaturatedSub32'', ''VectorUnsignedSaturatedSub64'']"

definition WritesToFPSR :: "opcode \<Rightarrow> bool" where
  "WritesToFPSR op \<longleftrightarrow> op = ''A32SetFpscr''
     \<or> op = ''A32SetFpscrNZCV''
     \<or> op = ''A64SetFPSR''
     \<or> WritesToFPSRCumulativeExceptionBits op
     \<or> WritesToFPSRCumulativeSaturationBit op"

definition CausesCPUException :: "opcode \<Rightarrow> bool" where
  "CausesCPUException op \<longleftrightarrow> op = ''Breakpoint''
     \<or> op = ''A32CallSupervisor''
     \<or> op = ''A32ExceptionRaised''
     \<or> op = ''A64CallSupervisor''
     \<or> op = ''A64ExceptionRaised''"

definition AltersExclusiveState :: "opcode \<Rightarrow> bool" where
  "AltersExclusiveState op \<longleftrightarrow> op = ''A32ClearExclusive''
     \<or> op = ''A64ClearExclusive''
     \<or> IsExclusiveMemoryRead op
     \<or> IsExclusiveMemoryWrite op"

definition IsCoprocessorInstruction :: "opcode \<Rightarrow> bool" where
  "IsCoprocessorInstruction op \<longleftrightarrow> switch_case op [
    ''A32CoprocInternalOperation'', ''A32CoprocSendOneWord'', ''A32CoprocSendTwoWords'',
    ''A32CoprocGetOneWord'', ''A32CoprocGetTwoWords'', ''A32CoprocLoadWords'', ''A32CoprocStoreWords'']"

definition IsSetCheckBitOperation :: "opcode \<Rightarrow> bool" where
  "IsSetCheckBitOperation op \<longleftrightarrow> op = ''A32SetCheckBit''
     \<or> op = ''A64SetCheckBit''"

definition MayHaveSideEffects :: "opcode \<Rightarrow> bool" where
  "MayHaveSideEffects op \<longleftrightarrow> op = ''PushRSB''
     \<or> op = ''CallHostFunction''
     \<or> op = ''A64DataCacheOperationRaised''
     \<or> op = ''A64InstructionCacheOperationRaised''
     \<or> IsSetCheckBitOperation op
     \<or> IsBarrier op
     \<or> CausesCPUException op
     \<or> WritesToCoreRegister op
     \<or> WritesToSystemRegister op
     \<or> WritesToCPSR op
     \<or> WritesToFPCR op
     \<or> WritesToFPSR op
     \<or> AltersExclusiveState op
     \<or> IsMemoryWrite op
     \<or> IsCoprocessorInstruction op"

definition IsAPseudoOperation :: "opcode \<Rightarrow> bool" where
  "IsAPseudoOperation op \<longleftrightarrow> switch_case op [
    ''GetCarryFromOp'', ''GetOverflowFromOp'', ''GetGEFromOp'', ''GetNZCVFromOp'', ''GetNZFromOp'',
    ''GetUpperFromOp'', ''GetLowerFromOp'', ''MostSignificantBit'', ''IsZero32'', ''IsZero64'']"

definition MayGetNZCVFromOp :: "opcode \<Rightarrow> bool" where
  "MayGetNZCVFromOp op \<longleftrightarrow> switch_case op [
    ''Add32'', ''Add64'', ''Sub32'', ''Sub64'', ''And32'', ''And64'', ''AndNot32'', ''AndNot64'', ''Eor32'',
    ''Eor64'', ''Or32'', ''Or64'', ''Not32'', ''Not64'']"

section \<open>Evaluation\<close>

lemma switch_case_weak_cong: "op = op' \<Longrightarrow> switch_case op cs = switch_case op' cs"
  by simp

lemma switch_case_iff: "switch_case op cs \<longleftrightarrow> op \<in> set cs"
  by (induction cs) auto

text \<open>The disjunction of \<^const>\<open>MayHaveSideEffects\<close>, tried in the order of the source.\<close>

lemma MayHaveSideEffects_eval:
  "MayHaveSideEffects op \<longleftrightarrow>
     (if op = ''PushRSB'' then True else if op = ''CallHostFunction'' then True
      else if op = ''A64DataCacheOperationRaised'' then True
      else if op = ''A64InstructionCacheOperationRaised'' then True
      else if IsSetCheckBitOperation op then True else if IsBarrier op then True
      else if CausesCPUException op then True else if WritesToCoreRegister op then True
      else if WritesToSystemRegister op then True else if WritesToCPSR op then True
      else if WritesToFPCR op then True else if AltersExclusiveState op then True
      else if IsMemoryWrite op then True else if IsCoprocessorInstruction op then True
      else WritesToFPSR op)"
  unfolding MayHaveSideEffects_def by auto

lemma IsAPseudoOperation_simps [simp]:
  "IsAPseudoOperation ''Void'' \<longleftrightarrow> False"
  "IsAPseudoOperation ''Identity'' \<longleftrightarrow> False"
  "IsAPseudoOperation ''GetCarryFromOp'' \<longleftrightarrow> True"
  "IsAPseudoOperation ''GetOverflowFromOp'' \<longleftrightarrow> True"
  "IsAPseudoOperation ''GetGEFromOp'' \<longleftrightarrow> True"
  "IsAPseudoOperation ''GetNZCVFromOp'' \<longleftrightarrow> True"
  "IsAPseudoOperation ''GetNZFromOp'' \<longleftrightarrow> True"
  "IsAPseudoOperation ''GetUpperFromOp'' \<longleftrightarrow> True"
  "IsAPseudoOperation ''GetLowerFromOp'' \<longleftrightarrow> True"
  "IsAPseudoOperation ''MostSignificantBit'' \<longleftrightarrow> True"
  "IsAPseudoOperation ''IsZero32'' \<longleftrightarrow> True"
  "IsAPseudoOperation ''IsZero64'' \<longleftrightarrow> True"
  by (simp_all add: IsAPseudoOperation_def)

text \<open>The opcodes with no result of their own that read back through a pseudo-operation.\<close>

definition result_by_pseudo :: "opcode \<Rightarrow> bool" where
  "result_by_pseudo op \<longleftrightarrow> op \<in> {''VectorSignedMultiply16'', ''VectorSignedMultiply32'',
     ''VectorUnsignedMultiply16'', ''VectorUnsignedMultiply32''}"

definition effect_row_ok :: "opcode \<times> ir_type \<times> ir_type list \<Rightarrow> bool" where
  "effect_row_ok row \<longleftrightarrow>
     (if fst (snd row) = Type_Void
      then (if fst row = ''Void'' then True else if result_by_pseudo (fst row) then True
            else MayHaveSideEffects (fst row))
      else True)"

lemmas effect_eval = effect_row_ok_def result_by_pseudo_def MayHaveSideEffects_eval
  IsSetCheckBitOperation_def IsBarrier_def CausesCPUException_def WritesToCoreRegister_def
  WritesToSystemRegister_def WritesToCPSR_def WritesToFPCR_def AltersExclusiveState_def
  IsExclusiveMemoryRead_def IsExclusiveMemoryWrite_def IsMemoryWrite_def IsSharedMemoryWrite_def
  IsCoprocessorInstruction_def WritesToFPSR_def

lemma effect_ops_core: "list_all effect_row_ok ops_core"
  by (simp add: ops_core_def effect_eval cong: switch_case_weak_cong)

lemma effect_ops_a32_context: "list_all effect_row_ok ops_a32_context"
  by (simp add: ops_a32_context_def effect_eval cong: switch_case_weak_cong)

lemma effect_ops_a64_context: "list_all effect_row_ok ops_a64_context"
  by (simp add: ops_a64_context_def effect_eval cong: switch_case_weak_cong)

lemma effect_ops_hints: "list_all effect_row_ok ops_hints"
  by (simp add: ops_hints_def effect_eval cong: switch_case_weak_cong)

lemma effect_ops_pseudo: "list_all effect_row_ok ops_pseudo"
  by (simp add: ops_pseudo_def effect_eval cong: switch_case_weak_cong)

lemma effect_ops_calc: "list_all effect_row_ok ops_calc"
  by (simp add: ops_calc_def effect_eval cong: switch_case_weak_cong)

lemma effect_ops_saturated: "list_all effect_row_ok ops_saturated"
  by (simp add: ops_saturated_def effect_eval cong: switch_case_weak_cong)

lemma effect_ops_vector_saturated: "list_all effect_row_ok ops_vector_saturated"
  by (simp add: ops_vector_saturated_def effect_eval cong: switch_case_weak_cong)

lemma effect_ops_packed: "list_all effect_row_ok ops_packed"
  by (simp add: ops_packed_def effect_eval cong: switch_case_weak_cong)

lemma effect_ops_crc: "list_all effect_row_ok ops_crc"
  by (simp add: ops_crc_def effect_eval cong: switch_case_weak_cong)

lemma effect_ops_aes: "list_all effect_row_ok ops_aes"
  by (simp add: ops_aes_def effect_eval cong: switch_case_weak_cong)

lemma effect_ops_sm4: "list_all effect_row_ok ops_sm4"
  by (simp add: ops_sm4_def effect_eval cong: switch_case_weak_cong)

lemma effect_ops_sha: "list_all effect_row_ok ops_sha"
  by (simp add: ops_sha_def effect_eval cong: switch_case_weak_cong)

lemma effect_ops_vector: "list_all effect_row_ok ops_vector"
  by (simp add: ops_vector_def effect_eval cong: switch_case_weak_cong)

lemma effect_ops_fp: "list_all effect_row_ok ops_fp"
  by (simp add: ops_fp_def effect_eval cong: switch_case_weak_cong)

lemma effect_ops_fp_conversion: "list_all effect_row_ok ops_fp_conversion"
  by (simp add: ops_fp_conversion_def effect_eval cong: switch_case_weak_cong)

lemma effect_ops_fp_vector: "list_all effect_row_ok ops_fp_vector"
  by (simp add: ops_fp_vector_def effect_eval cong: switch_case_weak_cong)

lemma effect_ops_a32_memory: "list_all effect_row_ok ops_a32_memory"
  by (simp add: ops_a32_memory_def effect_eval cong: switch_case_weak_cong)

lemma effect_ops_a64_memory: "list_all effect_row_ok ops_a64_memory"
  by (simp add: ops_a64_memory_def effect_eval cong: switch_case_weak_cong)

lemma effect_ops_coprocessor: "list_all effect_row_ok ops_coprocessor"
  by (simp add: ops_coprocessor_def effect_eval cong: switch_case_weak_cong)

lemma effect_rows_ok: "list_all effect_row_ok opcode_info"
  by (simp add: opcode_info_def effect_ops_core effect_ops_a32_context effect_ops_a64_context effect_ops_hints effect_ops_pseudo effect_ops_calc effect_ops_saturated effect_ops_vector_saturated effect_ops_packed effect_ops_crc effect_ops_aes effect_ops_sm4 effect_ops_sha effect_ops_vector effect_ops_fp effect_ops_fp_conversion effect_ops_fp_vector effect_ops_a32_memory effect_ops_a64_memory effect_ops_coprocessor)

text \<open>
  C16. Every opcode of the table that returns nothing is classified as having a side
  effect, apart from \<open>Void\<close> itself and the four vector multiplications whose two results
  are read by pseudo-operations: dead code elimination cannot drop an operation that is
  only executed for its effect.
\<close>

theorem void_opcodes_have_side_effects:
  assumes "opcode_meta op = Some (Type_Void, ts)"
  shows "op = ''Void'' \<or> result_by_pseudo op \<or> MayHaveSideEffects op"
  using table_lookup_in [of opcode_info op] assms effect_rows_ok
  by (auto simp: list_all_iff effect_row_ok_def opcode_meta_def split: if_splits)

theorem void_opcodes_have_side_effects_witness:
  "opcode_meta ''Breakpoint'' = Some (Type_Void, []) \<and> MayHaveSideEffects ''Breakpoint''"
  using void_opcodes_have_side_effects [of "''Breakpoint''" "[]"] by (simp add: result_by_pseudo_def opcode_meta_def opcode_info_def ops_core_def)

end
