(* ===== verification/Bit_Util.thy ===== *)
theory Bit_Util
  imports Umbra_Prelude
begin

text \<open>
  The bit helpers every part of the recompiler is written in terms of:
  \<^verbatim>\<open>externals/mcl/include/mcl/bit/*.hpp\<close> (masks, bit fields, sign extension, rotation,
  byte swaps, bit counts) and \<^verbatim>\<open>src/umbra/common/safe_ops.h\<close> (shifts that are defined
  for every shift amount).  The C++ templates over an integral type are definitions
  polymorphic in the word length.  The lemmas relate each helper to the bits of its
  argument or to arithmetic on integers.
\<close>

section \<open>Bit fields (bit_field.hpp)\<close>

text \<open>
  The source has each field helper twice: a template over the bit positions, which checks
  them at compile time, and a function of the bit positions, which asserts the same
  conditions when it runs.  The definitions below are the templates.  \<open>ones_checked\<close> is
  the function of the count, for the calls whose count is a run-time value.
\<close>

definition ones :: "nat \<Rightarrow> 'a::len word" where
  "ones count = (if count = 0 then 0 else drop_bit (LENGTH('a) - count) (NOT 0))"

definition ones_checked :: "nat \<Rightarrow> 'a::len word option" where
  "ones_checked count = (if count \<le> LENGTH('a) then Some (ones count) else None)"

definition mask_range :: "nat \<Rightarrow> nat \<Rightarrow> 'a::len word" where
  "mask_range begin_bit end_bit = push_bit begin_bit (ones (end_bit - begin_bit + 1))"

definition get_bits :: "nat \<Rightarrow> nat \<Rightarrow> 'a::len word \<Rightarrow> 'a word" where
  "get_bits begin_bit end_bit v = drop_bit begin_bit (v AND mask_range begin_bit end_bit)"

definition clear_bits :: "nat \<Rightarrow> nat \<Rightarrow> 'a::len word \<Rightarrow> 'a word" where
  "clear_bits begin_bit end_bit v = v AND NOT (mask_range begin_bit end_bit)"

definition set_bits_mcl :: "nat \<Rightarrow> nat \<Rightarrow> 'a::len word \<Rightarrow> 'a word \<Rightarrow> 'a word" where
  "set_bits_mcl begin_bit end_bit v new_bits =
     (let m = mask_range begin_bit end_bit
      in (v AND NOT m) OR (push_bit begin_bit new_bits AND m))"

definition get_bit :: "nat \<Rightarrow> 'a::len word \<Rightarrow> bool" where
  "get_bit bit_position v = (v AND mask_range bit_position bit_position \<noteq> 0)"

definition clear_bit :: "nat \<Rightarrow> 'a::len word \<Rightarrow> 'a word" where
  "clear_bit bit_position v = v AND NOT (mask_range bit_position bit_position)"

definition set_bit_mcl :: "nat \<Rightarrow> 'a::len word \<Rightarrow> bool \<Rightarrow> 'a word" where
  "set_bit_mcl bit_position v new_bit =
     (let m = mask_range bit_position bit_position
      in (v AND NOT m) OR (if new_bit then m else 0))"

definition sign_extend :: "nat \<Rightarrow> 'a::len word \<Rightarrow> 'a word" where
  "sign_extend bit_count v =
     (let shift_amount = LENGTH('a) - bit_count
      in signed_drop_bit shift_amount (push_bit shift_amount v))"

definition most_significant_bit :: "'a::len word \<Rightarrow> bool" where
  "most_significant_bit v = get_bit (LENGTH('a) - 1) v"

text \<open>
  \<^verbatim>\<open>replicate_element\<close> doubles the element size until it is the size of the type.  The
  static assertions of the source (the element size divides the type's size) bound the
  recursion; an element size of 0 or above the width is rejected by them, and the model
  returns the value unchanged there.
\<close>

function replicate_element :: "nat \<Rightarrow> 'a::len word \<Rightarrow> 'a word" where
  "replicate_element element_size v =
     (if element_size = 0 \<or> LENGTH('a) \<le> element_size then v
      else replicate_element (element_size * 2) (v OR push_bit element_size v))"
  by pat_completeness auto
termination
  by (relation "measure (\<lambda>(n, v :: 'a word). LENGTH('a) - n)") auto

declare replicate_element.simps [simp del]

section \<open>Rotation, byte swaps and bit counts\<close>

definition rotate_right :: "'a::len word \<Rightarrow> nat \<Rightarrow> 'a word" where
  "rotate_right x amount =
     (let a = amount mod LENGTH('a)
      in if a = 0 then x else drop_bit a x OR push_bit (LENGTH('a) - a) x)"

definition rotate_left :: "'a::len word \<Rightarrow> nat \<Rightarrow> 'a word" where
  "rotate_left x amount =
     (let a = amount mod LENGTH('a)
      in if a = 0 then x else push_bit a x OR drop_bit (LENGTH('a) - a) x)"

definition swap_bytes_16 :: "u16 \<Rightarrow> u16" where
  "swap_bytes_16 v = ucast (drop_bit 8 (ucast v :: u32) OR push_bit 8 (ucast v :: u32))"

definition swap_bytes_32 :: "u32 \<Rightarrow> u32" where
  "swap_bytes_32 v =
     drop_bit 24 (v AND 0xff000000) OR drop_bit 8 (v AND 0x00ff0000) OR
     push_bit 8 (v AND 0x0000ff00) OR push_bit 24 (v AND 0x000000ff)"

definition swap_bytes_64 :: "u64 \<Rightarrow> u64" where
  "swap_bytes_64 v =
     drop_bit 56 (v AND 0xff00000000000000) OR drop_bit 40 (v AND 0x00ff000000000000) OR
     drop_bit 24 (v AND 0x0000ff0000000000) OR drop_bit 8 (v AND 0x000000ff00000000) OR
     push_bit 8 (v AND 0x00000000ff000000) OR push_bit 24 (v AND 0x0000000000ff0000) OR
     push_bit 40 (v AND 0x000000000000ff00) OR push_bit 56 (v AND 0x00000000000000ff)"

text \<open>\<^verbatim>\<open>while (x != 0) { x >>= 1; result++; }\<close> with \<^verbatim>\<open>int result = -1\<close>.\<close>

function highest_set_bit_loop :: "'a::len word \<Rightarrow> int \<Rightarrow> int" where
  "highest_set_bit_loop x result =
     (if x \<noteq> 0 then highest_set_bit_loop (drop_bit 1 x) (result + 1) else result)"
  by pat_completeness auto
termination
  by (relation "measure (\<lambda>(x, r). unat x)") (auto intro: unat_drop_bit_1_less [simplified])

declare highest_set_bit_loop.simps [simp del]

definition highest_set_bit :: "'a::len word \<Rightarrow> int" where
  "highest_set_bit x = highest_set_bit_loop x (- 1)"

section \<open>Shifts defined for every amount (safe_ops.h)\<close>

text \<open>
  The shift amount is a C++ \<^verbatim>\<open>int\<close>.  A negative amount shifts the other way; an amount
  of at least the width of the type gives 0, or the sign for an arithmetic right shift.
  The templates of the source are mutually recursive through the negative case.
\<close>

function LogicalShiftLeft :: "'a::len word \<Rightarrow> int \<Rightarrow> 'a word"
  and LogicalShiftRight :: "'a::len word \<Rightarrow> int \<Rightarrow> 'a word" where
  "LogicalShiftLeft v shift_amount =
     (if int LENGTH('a) \<le> shift_amount then 0
      else if shift_amount < 0 then LogicalShiftRight v (- shift_amount)
      else push_bit (nat shift_amount) v)"
| "LogicalShiftRight v shift_amount =
     (if int LENGTH('a) \<le> shift_amount then 0
      else if shift_amount < 0 then LogicalShiftLeft v (- shift_amount)
      else drop_bit (nat shift_amount) v)"
  by pat_completeness auto
termination
  by (relation "measure (\<lambda>z. case z of Inl (v, s) \<Rightarrow> if s < 0 then 1 else 0
                                    | Inr (v, s) \<Rightarrow> if s < 0 then 1 else 0)") auto

function ArithmeticShiftLeft :: "'a::len word \<Rightarrow> int \<Rightarrow> 'a word"
  and ArithmeticShiftRight :: "'a::len word \<Rightarrow> int \<Rightarrow> 'a word" where
  "ArithmeticShiftLeft v shift_amount =
     (if int LENGTH('a) \<le> shift_amount then 0
      else if shift_amount < 0 then ArithmeticShiftRight v (- shift_amount)
      else push_bit (nat shift_amount) v)"
| "ArithmeticShiftRight v shift_amount =
     (if int LENGTH('a) \<le> shift_amount then (if most_significant_bit v then NOT 0 else 0)
      else if shift_amount < 0 then ArithmeticShiftLeft v (- shift_amount)
      else signed_drop_bit (nat shift_amount) v)"
  by pat_completeness auto
termination
  by (relation "measure (\<lambda>z. case z of Inl (v, s) \<Rightarrow> if s < 0 then 1 else 0
                                    | Inr (v, s) \<Rightarrow> if s < 0 then 1 else 0)") auto

declare LogicalShiftLeft.simps [simp del] LogicalShiftRight.simps [simp del]
  ArithmeticShiftLeft.simps [simp del] ArithmeticShiftRight.simps [simp del]

definition LogicalShiftRightDouble :: "'a::len word \<Rightarrow> 'a word \<Rightarrow> int \<Rightarrow> 'a word" where
  "LogicalShiftRightDouble upper lower shift_amount =
     LogicalShiftLeft upper (int LENGTH('a) - shift_amount) OR LogicalShiftRight lower shift_amount"

definition ArithmeticShiftRightDouble :: "'a::len word \<Rightarrow> 'a word \<Rightarrow> int \<Rightarrow> 'a word" where
  "ArithmeticShiftRightDouble upper lower shift_amount =
     ArithmeticShiftLeft upper (int LENGTH('a) - shift_amount) OR LogicalShiftRight lower shift_amount"

definition Negate :: "'a::len word \<Rightarrow> 'a word" where
  "Negate v = NOT v + 1"

section \<open>Bit-level characterisations\<close>

lemma ones_eq_mask: "n \<le> LENGTH('a::len) \<Longrightarrow> (ones n :: 'a word) = mask n"
  by (rule bit_word_eqI) (auto simp: ones_def bit_simps)

lemma bit_mask_range [umbra_bits]:
  "bit (mask_range b e :: 'a::len word) n \<longleftrightarrow> b \<le> n \<and> n \<le> e \<and> n < LENGTH('a)"
  if "b \<le> e" "e < LENGTH('a)"
  using that by (auto simp: mask_range_def ones_eq_mask bit_simps)

lemma get_bit_iff_bit [umbra_bits]: "n < LENGTH('a) \<Longrightarrow> get_bit n (v :: 'a::len word) \<longleftrightarrow> bit v n"
  by (auto simp: get_bit_def word_eq_0_bits bit_simps umbra_bits)

lemma bit_get_bits [umbra_bits]:
  "bit (get_bits b e (v :: 'a::len word)) n \<longleftrightarrow> n \<le> e - b \<and> bit v (b + n)"
  if "b \<le> e" "e < LENGTH('a)"
  using that by (auto simp: get_bits_def bit_simps umbra_bits dest: bit_imp_le_length)

lemma bit_clear_bits [umbra_bits]:
  "bit (clear_bits b e (v :: 'a::len word)) n \<longleftrightarrow> bit v n \<and> \<not> (b \<le> n \<and> n \<le> e)"
  if "b \<le> e" "e < LENGTH('a)"
  using that by (auto simp: clear_bits_def bit_simps umbra_bits dest: bit_imp_le_length)

lemma bit_set_bits_mcl [umbra_bits]:
  "bit (set_bits_mcl b e (v :: 'a::len word) w) n \<longleftrightarrow>
     (if b \<le> n \<and> n \<le> e then bit w (n - b) else bit v n)"
  if "b \<le> e" "e < LENGTH('a)"
  using that by (auto simp: set_bits_mcl_def Let_def bit_simps umbra_bits dest: bit_imp_le_length)

lemma bit_clear_bit [umbra_bits]:
  "b < LENGTH('a) \<Longrightarrow> bit (clear_bit b (v :: 'a::len word)) n \<longleftrightarrow> bit v n \<and> n \<noteq> b"
  by (auto simp: clear_bit_def bit_simps umbra_bits dest: bit_imp_le_length)

lemma bit_set_bit_mcl [umbra_bits]:
  "b < LENGTH('a) \<Longrightarrow> bit (set_bit_mcl b (v :: 'a::len word) x) n \<longleftrightarrow> (if n = b then x else bit v n)"
  by (auto simp: set_bit_mcl_def Let_def bit_simps umbra_bits dest: bit_imp_le_length)

lemma most_significant_bit_iff [umbra_bits]:
  "most_significant_bit (v :: 'a::len word) \<longleftrightarrow> bit v (LENGTH('a) - 1)"
  by (simp add: most_significant_bit_def get_bit_iff_bit)

lemma most_significant_bit_sint: "most_significant_bit v \<longleftrightarrow> sint v < 0"
  by (simp add: most_significant_bit_iff bit_last_iff)

lemma get_bits_take: "e < LENGTH('a) \<Longrightarrow> get_bits 0 e (v :: 'a::len word) = take_bit (Suc e) v"
  by (rule bit_word_eqI) (auto simp: umbra_bits bit_simps)

lemma bit_sign_extend [umbra_bits]:
  "bit (sign_extend k (v :: 'a::len word)) n \<longleftrightarrow> n < LENGTH('a) \<and> bit v (if n < k then n else k - 1)"
  if "0 < k" "k \<le> LENGTH('a)"
  using that
  by (auto simp: sign_extend_def Let_def bit_simps bit_signed_drop_bit_iff dest: bit_imp_le_length)

lemma bit_rotate_right [umbra_bits]:
  "bit (rotate_right (x :: 'a::len word) k) n \<longleftrightarrow> n < LENGTH('a) \<and> bit x ((n + k) mod LENGTH('a))"
proof (cases "n < LENGTH('a)")
  case True
  define a where "a = k mod LENGTH('a)"
  have "a < LENGTH('a)" by (simp add: a_def)
  have m: "(n + k) mod LENGTH('a) = (n + a) mod LENGTH('a)" by (simp add: a_def mod_add_right_eq)
  show ?thesis
  proof (cases "n + a < LENGTH('a)")
    case True
    with \<open>n < LENGTH('a)\<close> show ?thesis
      unfolding m by (auto simp: rotate_right_def Let_def bit_simps add.commute simp flip: a_def)
  next
    case False
    then have "(n + a) mod LENGTH('a) = n - (LENGTH('a) - a)"
      using True \<open>a < LENGTH('a)\<close> by (simp add: mod_if)
    with False True \<open>a < LENGTH('a)\<close> show ?thesis
      unfolding m by (auto simp: rotate_right_def Let_def bit_simps simp flip: a_def)
  qed
qed simp

lemma rotate_right_eq_rotr: "rotate_right x n = word_rotr n x"
  by (rule bit_word_eqI) (simp add: umbra_bits bit_word_rotr_iff)

lemma bit_swap_bytes_16 [umbra_bits]: "n < 16 \<Longrightarrow> bit (swap_bytes_16 v) n \<longleftrightarrow> bit v (8 - 8 * (n div 8) + n mod 8)"
proof -
  have "\<forall>n<16. bit (swap_bytes_16 v) n \<longleftrightarrow> bit v (8 - 8 * (n div 8) + n mod 8)"
    unfolding all_less_16 all_less_8 by (simp add: swap_bytes_16_def bit_simps) (simp add: numeral_2_eq_2)
  then show "n < 16 \<Longrightarrow> ?thesis" by blast
qed

lemma bit_swap_bytes_32 [umbra_bits]: "n < 32 \<Longrightarrow> bit (swap_bytes_32 v) n \<longleftrightarrow> bit v (24 - 8 * (n div 8) + n mod 8)"
proof -
  have "\<forall>n<32. bit (swap_bytes_32 v) n \<longleftrightarrow> bit v (24 - 8 * (n div 8) + n mod 8)"
    unfolding all_less_32 all_less_16 all_less_8 by (simp add: swap_bytes_32_def bit_simps) (simp add: numeral_2_eq_2)
  then show "n < 32 \<Longrightarrow> ?thesis" by blast
qed

lemma bit_swap_bytes_64 [umbra_bits]: "n < 64 \<Longrightarrow> bit (swap_bytes_64 v) n \<longleftrightarrow> bit v (56 - 8 * (n div 8) + n mod 8)"
proof -
  have "\<forall>n<64. bit (swap_bytes_64 v) n \<longleftrightarrow> bit v (56 - 8 * (n div 8) + n mod 8)"
    unfolding all_less_64 all_less_32 all_less_16 all_less_8 by (simp add: swap_bytes_64_def bit_simps) (simp add: numeral_2_eq_2)
  then show "n < 64 \<Longrightarrow> ?thesis" by blast
qed

lemma byte_index_involution:
  fixes n k :: nat
  assumes "n < 8 * Suc k"
  shows "8 * k - 8 * ((8 * k - 8 * (n div 8) + n mod 8) div 8) + (8 * k - 8 * (n div 8) + n mod 8) mod 8 = n"
    and "8 * k - 8 * (n div 8) + n mod 8 < 8 * Suc k"
proof -
  define d where "d = n div 8"
  have "d \<le> k" using assms unfolding d_def by (auto simp: less_mult_imp_div_less)
  then have 1: "8 * k - 8 * d + n mod 8 = 8 * (k - d) + n mod 8" by (simp add: diff_mult_distrib2)
  have 2: "(8 * (k - d) + n mod 8) div 8 = k - d" by simp
  have "8 * k - 8 * (k - d) + n mod 8 = n"
    using \<open>d \<le> k\<close> unfolding d_def by (simp add: diff_mult_distrib2 [symmetric])
  then show "8 * k - 8 * ((8 * k - 8 * (n div 8) + n mod 8) div 8) + (8 * k - 8 * (n div 8) + n mod 8) mod 8 = n"
    unfolding d_def [symmetric] 1 2 by simp
  have "n mod 8 < 8" "8 * (k - d) \<le> 8 * k" by simp_all
  then have "8 * (k - d) + n mod 8 < 8 * k + 8" by (metis add_le_less_mono)
  then show "8 * k - 8 * (n div 8) + n mod 8 < 8 * Suc k"
    unfolding d_def [symmetric] 1 by simp
qed

lemma swap_bytes_16_involutive: "swap_bytes_16 (swap_bytes_16 v) = v"
  by (rule bit_word_eqI) (use byte_index_involution [where k = 1] in \<open>simp add: umbra_bits\<close>)

lemma swap_bytes_32_involutive: "swap_bytes_32 (swap_bytes_32 v) = v"
  by (rule bit_word_eqI) (use byte_index_involution [where k = 3] in \<open>simp add: umbra_bits\<close>)

lemma swap_bytes_64_involutive: "swap_bytes_64 (swap_bytes_64 v) = v"
  by (rule bit_word_eqI) (use byte_index_involution [where k = 7] in \<open>simp add: umbra_bits\<close>)

lemma highest_set_bit_loop_bounds:
  "x \<noteq> 0 \<Longrightarrow> \<exists>n. highest_set_bit_loop (x :: 'a::len word) r = r + 1 + int n \<and> 2 ^ n \<le> unat x \<and> unat x < 2 ^ Suc n"
proof (induction x r rule: highest_set_bit_loop.induct)
  case (1 x r)
  let ?y = "drop_bit 1 x"
  have y: "unat ?y = unat x div 2"
    unfolding unat_drop_bit_eq by (simp add: drop_bit_eq_div)
  have unfold: "highest_set_bit_loop x r = highest_set_bit_loop ?y (r + 1)"
    using "1.prems" by (simp add: highest_set_bit_loop.simps [of x r])
  show ?case
  proof (cases "?y = 0")
    case True
    then have "unat x div 2 = 0" using y by simp
    moreover have "unat x \<noteq> 0" using "1.prems" by (simp add: unat_eq_zero)
    ultimately have "unat x = 1" by simp
    moreover have "highest_set_bit_loop ?y (r + 1) = r + 1"
      using True by (simp add: highest_set_bit_loop.simps)
    ultimately show ?thesis using unfold by (intro exI [of _ 0]) simp
  next
    case False
    from "1.IH" [OF "1.prems" False] obtain n where
      n: "highest_set_bit_loop ?y (r + 1) = r + 1 + 1 + int n" "2 ^ n \<le> unat ?y" "unat ?y < 2 ^ Suc n"
      by blast
    then have "2 ^ Suc n \<le> unat x" "unat x < 2 ^ Suc (Suc n)"
      unfolding y by auto
    with n(1) unfold show ?thesis by (intro exI [of _ "Suc n"]) simp
  qed
qed

lemma highest_set_bit_spec:
  assumes "(x :: 'a::len word) \<noteq> 0"
  shows "0 \<le> highest_set_bit x" "highest_set_bit x < int LENGTH('a)"
    "2 ^ nat (highest_set_bit x) \<le> unat x" "unat x < 2 ^ Suc (nat (highest_set_bit x))"
proof -
  obtain n where n: "highest_set_bit x = int n" "2 ^ n \<le> unat x" "unat x < 2 ^ Suc n"
    using highest_set_bit_loop_bounds [OF assms, of "-1"] by (auto simp: highest_set_bit_def)
  have "(2::nat) ^ n < 2 ^ LENGTH('a)"
    using n(2) unsigned_less [of x, where 'a = nat] by (rule le_less_trans)
  then have "n < LENGTH('a)" by simp
  with n show "0 \<le> highest_set_bit x" "highest_set_bit x < int LENGTH('a)"
    "2 ^ nat (highest_set_bit x) \<le> unat x" "unat x < 2 ^ Suc (nat (highest_set_bit x))"
    by auto
qed

lemma highest_set_bit_0 [simp]: "highest_set_bit 0 = - 1"
  by (simp add: highest_set_bit_def highest_set_bit_loop.simps)

lemma highest_set_bit_unique:
  assumes "2 ^ n \<le> unat (x :: 'a::len word)" "unat x < 2 ^ Suc n"
  shows "highest_set_bit x = int n"
proof -
  have "x \<noteq> 0" using assms(1) by auto
  note s = highest_set_bit_spec [OF this]
  define m where "m = nat (highest_set_bit x)"
  have m: "2 ^ m \<le> unat x" "unat x < 2 ^ Suc m" using s m_def by auto
  have "(2::nat) ^ m < 2 ^ Suc n" "(2::nat) ^ n < 2 ^ Suc m"
    using m assms by linarith+
  then have "m < Suc n" "n < Suc m"
    using power_less_imp_less_exp [of "2::nat"] by (metis one_less_numeral_iff semiring_norm(76))+
  then show ?thesis using s(1) m_def by simp
qed

lemma LogicalShiftLeft_nonneg:
  "0 \<le> s \<Longrightarrow> LogicalShiftLeft (v :: 'a::len word) s = push_bit (nat s) v"
  by (auto simp: LogicalShiftLeft.simps intro!: bit_word_eqI simp: bit_simps)

lemma LogicalShiftRight_nonneg:
  "0 \<le> s \<Longrightarrow> LogicalShiftRight (v :: 'a::len word) s = drop_bit (nat s) v"
  by (auto simp: LogicalShiftRight.simps intro!: bit_word_eqI simp: bit_simps)

lemma LogicalShiftLeft_neg: "s < 0 \<Longrightarrow> LogicalShiftLeft v s = LogicalShiftRight v (- s)"
  by (simp add: LogicalShiftLeft.simps)

lemma LogicalShiftRight_neg: "s < 0 \<Longrightarrow> LogicalShiftRight v s = LogicalShiftLeft v (- s)"
  by (simp add: LogicalShiftRight.simps)

lemma ArithmeticShiftLeft_nonneg:
  "0 \<le> s \<Longrightarrow> ArithmeticShiftLeft (v :: 'a::len word) s = push_bit (nat s) v"
  by (auto simp: ArithmeticShiftLeft.simps intro!: bit_word_eqI simp: bit_simps)

lemma ArithmeticShiftRight_nonneg:
  "0 \<le> s \<Longrightarrow> ArithmeticShiftRight (v :: 'a::len word) s = signed_drop_bit (nat s) v"
proof (cases "int LENGTH('a) \<le> s")
  case True
  then have "LENGTH('a) \<le> nat s" by linarith
  with True show ?thesis
    by (auto simp: ArithmeticShiftRight.simps intro!: bit_word_eqI simp: bit_simps umbra_bits bit_signed_drop_bit_iff)
qed (simp add: ArithmeticShiftRight.simps)

lemma ArithmeticShiftLeft_neg: "s < 0 \<Longrightarrow> ArithmeticShiftLeft v s = ArithmeticShiftRight v (- s)"
  by (simp add: ArithmeticShiftLeft.simps)

lemma ArithmeticShiftRight_neg: "s < 0 \<Longrightarrow> ArithmeticShiftRight v s = ArithmeticShiftLeft v (- s)"
  by (simp add: ArithmeticShiftRight.simps)

lemmas safe_shift_simps =
  LogicalShiftLeft_nonneg LogicalShiftLeft_neg LogicalShiftRight_nonneg LogicalShiftRight_neg
  ArithmeticShiftLeft_nonneg ArithmeticShiftLeft_neg ArithmeticShiftRight_nonneg ArithmeticShiftRight_neg

lemma uint_drop_bit: "uint (drop_bit n v) = uint v div 2 ^ n"
proof -
  have "uint (drop_bit n v) = drop_bit n (uint v)"
    by (rule bit_eqI) (auto simp: bit_simps)
  then show ?thesis by (simp only: drop_bit_eq_div)
qed

lemma uint_LogicalShiftRight: "0 \<le> s \<Longrightarrow> uint (LogicalShiftRight v s) = uint v div 2 ^ nat s"
  by (simp only: safe_shift_simps uint_drop_bit)

lemma sint_ArithmeticShiftRight: "0 \<le> s \<Longrightarrow> sint (ArithmeticShiftRight v s) = sint v div 2 ^ nat s"
  by (simp add: safe_shift_simps sint_signed_drop_bit_eq drop_bit_eq_div)

lemma Negate_eq_uminus [simp]: "Negate v = - v"
  by (simp add: Negate_def minus_eq_not_plus_1)

end
