(* ===== verification/IR_Heap.thy ===== *)
theory IR_Heap
  imports IR_Predicates Bit_Util "HOL-Library.Monad_Syntax"
begin

text \<open>
  Values and microinstructions (\<^verbatim>\<open>ir/value.h\<close>, \<^verbatim>\<open>ir/value.cpp\<close>, \<^verbatim>\<open>ir/microinstruction.h\<close>,
  \<^verbatim>\<open>ir/microinstruction.cpp\<close>).  The instructions of a block live in its memory pool,
  here a list whose indices are the addresses; a pointer to an instruction is its
  index.  Every \<^verbatim>\<open>ASSERT\<close>, every dereference of a null pointer and every walk that does
  not end is the result \<^term>\<open>None\<close>.  The \<^verbatim>\<open>DEBUG_ASSERT\<close>s are compiled out of a release
  build and are not part of the operations; the invariant proved about the pseudo-operation
  lists implies them.
\<close>

section \<open>Values\<close>

datatype ir_value =
    VEmpty
  | VInst nat
  | VA32Reg nat
  | VA32ExtReg nat
  | VA64Reg nat
  | VA64Vec nat
  | VU1 bool
  | VU8 u8
  | VU16 u16
  | VU32 u32
  | VU64 u64
  | VCoprocInfo "u8 list"
  | VNZCVMarker
  | VCond cond
  | VAccType acc_type

text \<open>The discriminator \<^verbatim>\<open>Value::type\<close>.\<close>

primrec value_type :: "ir_value \<Rightarrow> ir_type" where
  "value_type VEmpty = Type_Void"
| "value_type (VInst a) = Type_Opaque"
| "value_type (VA32Reg r) = Type_A32Reg"
| "value_type (VA32ExtReg r) = Type_A32ExtReg"
| "value_type (VA64Reg r) = Type_A64Reg"
| "value_type (VA64Vec r) = Type_A64Vec"
| "value_type (VU1 b) = Type_U1"
| "value_type (VU8 x) = Type_U8"
| "value_type (VU16 x) = Type_U16"
| "value_type (VU32 x) = Type_U32"
| "value_type (VU64 x) = Type_U64"
| "value_type (VCoprocInfo i) = Type_CoprocInfo"
| "value_type VNZCVMarker = Type_NZCVFlags"
| "value_type (VCond c) = Type_Cond"
| "value_type (VAccType t) = Type_AccType"

section \<open>Microinstructions\<close>

record inst =
  opc :: opcode
  use_count :: u32
  inst_name :: u32
  args :: "ir_value list"
  next_pseudoop :: "nat option"

type_synonym heap = "inst list"

definition max_arg_count :: nat where
  "max_arg_count = 4"

definition new_inst :: "opcode \<Rightarrow> inst" where
  "new_inst p = \<lparr>opc = p, use_count = 0, inst_name = 0, args = replicate max_arg_count VEmpty,
                 next_pseudoop = None\<rparr>"

text \<open>A write to a member of the instruction at an address.\<close>

definition upd :: "heap \<Rightarrow> nat \<Rightarrow> (inst \<Rightarrow> inst) \<Rightarrow> heap" where
  "upd h a f = h[a := f (h ! a)]"

definition set_slot :: "heap \<Rightarrow> nat \<Rightarrow> nat \<Rightarrow> ir_value \<Rightarrow> heap" where
  "set_slot h a i v = upd h a (\<lambda>x. x\<lparr>args := (args x)[i := v]\<rparr>)"

section \<open>Reading values\<close>

definition IsIdentity :: "heap \<Rightarrow> ir_value \<Rightarrow> bool" where
  "IsIdentity h v = (case v of VInst a \<Rightarrow> opc (h ! a) = ''Identity'' | _ \<Rightarrow> False)"

definition IsEmpty :: "ir_value \<Rightarrow> bool" where
  "IsEmpty v \<longleftrightarrow> value_type v = Type_Void"

text \<open>
  The recursion shared by the accessors: as long as the value is an identity, continue
  with the identity's argument.  A chain of identities that visits more instructions than
  the pool holds is a cycle, on which the source recurses for ever.
\<close>

fun chase_fuel :: "nat \<Rightarrow> heap \<Rightarrow> ir_value \<Rightarrow> ir_value option" where
  "chase_fuel n h v =
     (if IsIdentity h v
      then (case (n, v) of (Suc m, VInst a) \<Rightarrow> chase_fuel m h (args (h ! a) ! 0) | _ \<Rightarrow> None)
      else Some v)"

definition chase :: "heap \<Rightarrow> ir_value \<Rightarrow> ir_value option" where
  "chase h v = chase_fuel (length h) h v"

definition IsImmediate :: "heap \<Rightarrow> ir_value \<Rightarrow> bool option" where
  "IsImmediate h v = do { w \<leftarrow> chase h v; Some (value_type w \<noteq> Type_Opaque) }"

definition GetInst :: "ir_value \<Rightarrow> nat option" where
  "GetInst v = (case v of VInst a \<Rightarrow> Some a | _ \<Rightarrow> None)"

definition GetInstRecursive :: "heap \<Rightarrow> ir_value \<Rightarrow> nat option" where
  "GetInstRecursive h v = do { w \<leftarrow> chase h v; GetInst w }"

definition GetType :: "heap \<Rightarrow> ir_value \<Rightarrow> ir_type option" where
  "GetType h v = do { w \<leftarrow> chase h v;
     (case w of VInst a \<Rightarrow> GetTypeOf (opc (h ! a)) | _ \<Rightarrow> Some (value_type w)) }"

definition GetA32RegRef :: "ir_value \<Rightarrow> nat option" where
  "GetA32RegRef v = (case v of VA32Reg r \<Rightarrow> Some r | _ \<Rightarrow> None)"

definition GetA32ExtRegRef :: "ir_value \<Rightarrow> nat option" where
  "GetA32ExtRegRef v = (case v of VA32ExtReg r \<Rightarrow> Some r | _ \<Rightarrow> None)"

definition GetA64RegRef :: "ir_value \<Rightarrow> nat option" where
  "GetA64RegRef v = (case v of VA64Reg r \<Rightarrow> Some r | _ \<Rightarrow> None)"

definition GetA64VecRef :: "ir_value \<Rightarrow> nat option" where
  "GetA64VecRef v = (case v of VA64Vec r \<Rightarrow> Some r | _ \<Rightarrow> None)"

definition GetU1 :: "heap \<Rightarrow> ir_value \<Rightarrow> bool option" where
  "GetU1 h v = do { w \<leftarrow> chase h v; (case w of VU1 b \<Rightarrow> Some b | _ \<Rightarrow> None) }"

definition GetU8 :: "heap \<Rightarrow> ir_value \<Rightarrow> u8 option" where
  "GetU8 h v = do { w \<leftarrow> chase h v; (case w of VU8 x \<Rightarrow> Some x | _ \<Rightarrow> None) }"

definition GetU16 :: "heap \<Rightarrow> ir_value \<Rightarrow> u16 option" where
  "GetU16 h v = do { w \<leftarrow> chase h v; (case w of VU16 x \<Rightarrow> Some x | _ \<Rightarrow> None) }"

definition GetU32 :: "heap \<Rightarrow> ir_value \<Rightarrow> u32 option" where
  "GetU32 h v = do { w \<leftarrow> chase h v; (case w of VU32 x \<Rightarrow> Some x | _ \<Rightarrow> None) }"

definition GetU64 :: "heap \<Rightarrow> ir_value \<Rightarrow> u64 option" where
  "GetU64 h v = do { w \<leftarrow> chase h v; (case w of VU64 x \<Rightarrow> Some x | _ \<Rightarrow> None) }"

definition GetCoprocInfo :: "heap \<Rightarrow> ir_value \<Rightarrow> u8 list option" where
  "GetCoprocInfo h v = do { w \<leftarrow> chase h v; (case w of VCoprocInfo x \<Rightarrow> Some x | _ \<Rightarrow> None) }"

definition GetCond :: "heap \<Rightarrow> ir_value \<Rightarrow> cond option" where
  "GetCond h v = do { w \<leftarrow> chase h v; (case w of VCond x \<Rightarrow> Some x | _ \<Rightarrow> None) }"

definition GetAccType :: "heap \<Rightarrow> ir_value \<Rightarrow> acc_type option" where
  "GetAccType h v = do { w \<leftarrow> chase h v; (case w of VAccType x \<Rightarrow> Some x | _ \<Rightarrow> None) }"

text \<open>The signed immediate is the 64-bit word that holds it in two's complement.\<close>

definition GetImmediateAsS64 :: "heap \<Rightarrow> ir_value \<Rightarrow> u64 option" where
  "GetImmediateAsS64 h v = do {
     imm \<leftarrow> IsImmediate h v; assert_opt imm;
     w \<leftarrow> chase h v;
     (case w of VU1 b \<Rightarrow> Some (of_bool b)
      | VU8 x \<Rightarrow> Some (sign_extend 8 (ucast x))
      | VU16 x \<Rightarrow> Some (sign_extend 16 (ucast x))
      | VU32 x \<Rightarrow> Some (sign_extend 32 (ucast x))
      | VU64 x \<Rightarrow> Some x
      | _ \<Rightarrow> None) }"

definition GetImmediateAsU64 :: "heap \<Rightarrow> ir_value \<Rightarrow> u64 option" where
  "GetImmediateAsU64 h v = do {
     imm \<leftarrow> IsImmediate h v; assert_opt imm;
     w \<leftarrow> chase h v;
     (case w of VU1 b \<Rightarrow> Some (of_bool b)
      | VU8 x \<Rightarrow> Some (ucast x)
      | VU16 x \<Rightarrow> Some (ucast x)
      | VU32 x \<Rightarrow> Some (ucast x)
      | VU64 x \<Rightarrow> Some x
      | _ \<Rightarrow> None) }"

definition IsSignedImmediate :: "heap \<Rightarrow> ir_value \<Rightarrow> u64 \<Rightarrow> bool option" where
  "IsSignedImmediate h v value = do {
     imm \<leftarrow> IsImmediate h v;
     if imm then do { x \<leftarrow> GetImmediateAsS64 h v; Some (x = value) } else Some False }"

definition IsUnsignedImmediate :: "heap \<Rightarrow> ir_value \<Rightarrow> u64 \<Rightarrow> bool option" where
  "IsUnsignedImmediate h v value = do {
     imm \<leftarrow> IsImmediate h v;
     if imm then do { x \<leftarrow> GetImmediateAsU64 h v; Some (x = value) } else Some False }"

definition HasAllBitsSet :: "heap \<Rightarrow> ir_value \<Rightarrow> bool option" where
  "HasAllBitsSet h v = IsSignedImmediate h v (- 1)"

definition IsZero :: "heap \<Rightarrow> ir_value \<Rightarrow> bool option" where
  "IsZero h v = IsUnsignedImmediate h v 0"

section \<open>Operations on instructions\<close>

definition NumArgs :: "heap \<Rightarrow> nat \<Rightarrow> nat option" where
  "NumArgs h a = GetNumArgsOf (opc (h ! a))"

definition inst_GetType :: "heap \<Rightarrow> nat \<Rightarrow> ir_type option" where
  "inst_GetType h a =
     (if opc (h ! a) = ''Identity'' then GetType h (args (h ! a) ! 0) else GetTypeOf (opc (h ! a)))"

fun all_immediate :: "heap \<Rightarrow> ir_value list \<Rightarrow> bool option" where
  "all_immediate h [] = Some True"
| "all_immediate h (v # vs) = do { imm \<leftarrow> IsImmediate h v; if imm then all_immediate h vs else Some False }"

definition AreAllArgsImmediates :: "heap \<Rightarrow> nat \<Rightarrow> bool option" where
  "AreAllArgsImmediates h a = do { n \<leftarrow> NumArgs h a; all_immediate h (take n (args (h ! a))) }"

definition HasUses :: "heap \<Rightarrow> nat \<Rightarrow> bool" where
  "HasUses h a \<longleftrightarrow> use_count (h ! a) > 0"

definition HasAssociatedPseudoOperation :: "heap \<Rightarrow> nat \<Rightarrow> bool" where
  "HasAssociatedPseudoOperation h a \<longleftrightarrow>
     next_pseudoop (h ! a) \<noteq> None \<and> \<not> IsAPseudoOperation (opc (h ! a))"

text \<open>The walk down the list of pseudo-operations; \<open>Some None\<close> is the null pointer it returns.\<close>

fun find_pseudo :: "nat \<Rightarrow> heap \<Rightarrow> nat \<Rightarrow> opcode \<Rightarrow> nat option \<Rightarrow> nat option option" where
  "find_pseudo n h this p None = Some None"
| "find_pseudo 0 h this p (Some c) = None"
| "find_pseudo (Suc n) h this p (Some c) =
     (if opc (h ! c) = p
      then do { a \<leftarrow> GetInst (args (h ! c) ! 0); assert_opt (a = this); Some (Some c) }
      else find_pseudo n h this p (next_pseudoop (h ! c)))"

definition GetAssociatedPseudoOperation :: "heap \<Rightarrow> nat \<Rightarrow> opcode \<Rightarrow> nat option option" where
  "GetAssociatedPseudoOperation h a p = find_pseudo (length h) h a p (next_pseudoop (h ! a))"

definition GetArg :: "heap \<Rightarrow> nat \<Rightarrow> nat \<Rightarrow> ir_value option" where
  "GetArg h a i = do {
     n \<leftarrow> NumArgs h a;
     assert_opt (i < n);
     t \<leftarrow> GetArgTypeOf (opc (h ! a)) i;
     assert_opt (\<not> IsEmpty (args (h ! a) ! i) \<or> t = Type_Opaque);
     Some (args (h ! a) ! i) }"

text \<open>The end of a list of pseudo-operations, and the element before a given one.\<close>

fun chain_end :: "nat \<Rightarrow> heap \<Rightarrow> nat \<Rightarrow> nat option" where
  "chain_end n h a =
     (case next_pseudoop (h ! a) of None \<Rightarrow> Some a
      | Some b \<Rightarrow> (case n of 0 \<Rightarrow> None | Suc m \<Rightarrow> chain_end m h b))"

fun chain_pred :: "nat \<Rightarrow> heap \<Rightarrow> nat \<Rightarrow> nat \<Rightarrow> nat option" where
  "chain_pred n h a this =
     (case next_pseudoop (h ! a) of None \<Rightarrow> None
      | Some b \<Rightarrow> if b = this then Some a else (case n of 0 \<Rightarrow> None | Suc m \<Rightarrow> chain_pred m h b this))"

definition inst_Use :: "heap \<Rightarrow> nat \<Rightarrow> ir_value \<Rightarrow> heap option" where
  "inst_Use h this v = do {
     b \<leftarrow> GetInst v;
     let h1 = upd h b (\<lambda>x. x\<lparr>use_count := use_count x + 1\<rparr>);
     if IsAPseudoOperation (opc (h1 ! this))
     then do {
       assert_opt (opc (h1 ! this) = ''GetNZCVFromOp'' \<longrightarrow> MayGetNZCVFromOp (opc (h1 ! b)));
       insert_point \<leftarrow> chain_end (length h) h1 b;
       Some (upd h1 insert_point (\<lambda>x. x\<lparr>next_pseudoop := Some this\<rparr>)) }
     else Some h1 }"

definition inst_UndoUse :: "heap \<Rightarrow> nat \<Rightarrow> ir_value \<Rightarrow> heap option" where
  "inst_UndoUse h this v = do {
     b \<leftarrow> GetInst v;
     let h1 = upd h b (\<lambda>x. x\<lparr>use_count := use_count x - 1\<rparr>);
     if IsAPseudoOperation (opc (h1 ! this))
     then do {
       insert_point \<leftarrow> chain_pred (length h) h1 b this;
       Some (upd (upd h1 insert_point (\<lambda>x. x\<lparr>next_pseudoop := next_pseudoop (h1 ! this)\<rparr>))
               this (\<lambda>x. x\<lparr>next_pseudoop := None\<rparr>)) }
     else Some h1 }"

definition SetArg :: "heap \<Rightarrow> nat \<Rightarrow> nat \<Rightarrow> ir_value \<Rightarrow> heap option" where
  "SetArg h a i v = do {
     n \<leftarrow> NumArgs h a;
     assert_opt (i < n);
     arg_type \<leftarrow> GetArgTypeOf (opc (h ! a)) i;
     ty \<leftarrow> GetType h v;
     assert_opt (AreTypesCompatible ty arg_type);
     old_imm \<leftarrow> IsImmediate h (args (h ! a) ! i);
     h1 \<leftarrow> (if \<not> old_imm then inst_UndoUse h a (args (h ! a) ! i) else Some h);
     new_imm \<leftarrow> IsImmediate h1 v;
     h2 \<leftarrow> (if \<not> new_imm then inst_Use h1 a v else Some h1);
     Some (set_slot h2 a i v) }"

fun clear_slots :: "heap \<Rightarrow> nat \<Rightarrow> nat list \<Rightarrow> heap option" where
  "clear_slots h a [] = Some h"
| "clear_slots h a (i # is) = do {
     imm \<leftarrow> IsImmediate h (args (h ! a) ! i);
     h1 \<leftarrow> (if \<not> imm then inst_UndoUse h a (args (h ! a) ! i) else Some h);
     clear_slots (set_slot h1 a i VEmpty) a is }"

definition ClearArgs :: "heap \<Rightarrow> nat \<Rightarrow> heap option" where
  "ClearArgs h a = clear_slots h a [0..<max_arg_count]"

definition Invalidate :: "heap \<Rightarrow> nat \<Rightarrow> heap option" where
  "Invalidate h a = do { h1 \<leftarrow> ClearArgs h a; Some (upd h1 a (\<lambda>x. x\<lparr>opc := ''Void''\<rparr>)) }"

definition ReplaceUsesWith :: "heap \<Rightarrow> nat \<Rightarrow> ir_value \<Rightarrow> heap option" where
  "ReplaceUsesWith h a replacement = do {
     h1 \<leftarrow> Invalidate h a;
     let h2 = upd h1 a (\<lambda>x. x\<lparr>opc := ''Identity''\<rparr>);
     imm \<leftarrow> IsImmediate h2 replacement;
     h3 \<leftarrow> (if \<not> imm then inst_Use h2 a replacement else Some h2);
     Some (set_slot h3 a 0 replacement) }"

definition SetName :: "heap \<Rightarrow> nat \<Rightarrow> u32 \<Rightarrow> heap" where
  "SetName h a n = upd h a (\<lambda>x. x\<lparr>inst_name := n\<rparr>)"

declare chase_fuel.simps [simp del] chain_end.simps [simp del] chain_pred.simps [simp del]

section \<open>Writes to the pool\<close>

lemma length_upd [simp]: "length (upd h a f) = length h"
  by (simp add: upd_def)

lemma nth_upd: "b < length h \<Longrightarrow> upd h a f ! b = (if b = a then f (h ! a) else h ! b)"
  by (auto simp: upd_def)

lemma nth_upd_eq [simp]: "a < length h \<Longrightarrow> upd h a f ! a = f (h ! a)"
  by (simp add: nth_upd)

lemma nth_upd_neq [simp]: "b \<noteq> a \<Longrightarrow> upd h a f ! b = h ! b"
  by (simp add: upd_def)

lemma upd_member:
  assumes "\<And>x. g (f x) = g x"
  shows "g (upd h a f ! b) = g (h ! b)"
  using assms by (cases "a < length h"; cases "b = a") (simp_all add: upd_def not_less list_update_beyond)

lemma length_set_slot [simp]: "length (set_slot h a i v) = length h"
  by (simp add: set_slot_def)

lemma set_slot_members [simp]:
  "opc (set_slot h a i v ! b) = opc (h ! b)"
  "use_count (set_slot h a i v ! b) = use_count (h ! b)"
  "inst_name (set_slot h a i v ! b) = inst_name (h ! b)"
  "next_pseudoop (set_slot h a i v ! b) = next_pseudoop (h ! b)"
  unfolding set_slot_def by (rule upd_member, simp)+

lemma set_slot_args:
  "a < length h \<Longrightarrow> args (set_slot h a i v ! b) = (if b = a then (args (h ! a))[i := v] else args (h ! b))"
  by (auto simp: set_slot_def)

lemma set_slot_args_neq [simp]: "b \<noteq> a \<Longrightarrow> args (set_slot h a i v ! b) = args (h ! b)"
  by (simp add: set_slot_def)

end
