(* ===== verification/IR_Wf.thy ===== *)
theory IR_Wf
  imports IR_Heap
begin

text \<open>
  The well-formedness invariant of a pool of microinstructions and its preservation by
  the operations that change the pool.
\<close>

section \<open>References and identities\<close>

definition valid_value :: "heap \<Rightarrow> ir_value \<Rightarrow> bool" where
  "valid_value h v \<longleftrightarrow> (case v of VInst b \<Rightarrow> b < length h | _ \<Rightarrow> True)"

text \<open>
  \<open>ranked h r\<close>: every instruction has four argument slots and refers only to
  instructions of smaller rank.  In a block the rank of an instruction is its position.
\<close>

definition ranked :: "heap \<Rightarrow> (nat \<Rightarrow> nat) \<Rightarrow> bool" where
  "ranked h r \<longleftrightarrow>
     (\<forall>a<length h. r a < length h \<and> length (args (h ! a)) = max_arg_count
        \<and> (\<forall>v\<in>set (args (h ! a)). case v of VInst b \<Rightarrow> b < length h \<and> r b < r a | _ \<Rightarrow> True))"

definition below :: "heap \<Rightarrow> (nat \<Rightarrow> nat) \<Rightarrow> nat \<Rightarrow> ir_value \<Rightarrow> bool" where
  "below h r n v \<longleftrightarrow> (case v of VInst b \<Rightarrow> b < length h \<and> r b < n | _ \<Rightarrow> True)"

lemma below_simps [simp]:
  "below h r n (VInst b) \<longleftrightarrow> b < length h \<and> r b < n"
  "\<forall>b. v \<noteq> VInst b \<Longrightarrow> below h r n v"
  by (auto simp: below_def split: ir_value.splits)

lemma below_mono: "below h r n v \<Longrightarrow> n \<le> m \<Longrightarrow> below h r m v"
  by (auto simp: below_def split: ir_value.splits)

lemma below_valid: "below h r n v \<Longrightarrow> valid_value h v"
  by (auto simp: below_def valid_value_def split: ir_value.splits)

lemma valid_value_simps [simp]: "valid_value h (VInst b) \<longleftrightarrow> b < length h"
  "\<forall>b. v \<noteq> VInst b \<Longrightarrow> valid_value h v"
  by (auto simp: valid_value_def split: ir_value.splits)

lemma ranked_alt:
  "ranked h r \<longleftrightarrow> (\<forall>a<length h. r a < length h \<and> length (args (h ! a)) = 4
      \<and> (\<forall>v\<in>set (args (h ! a)). below h r (r a) v))"
  by (simp add: ranked_def below_def max_arg_count_def)

lemma ranked_arg:
  assumes "ranked h r" "a < length h" "i < 4"
  shows "below h r (r a) (args (h ! a) ! i)"
  using assms by (simp add: ranked_alt)

lemma ranked_length: "ranked h r \<Longrightarrow> a < length h \<Longrightarrow> length (args (h ! a)) = 4"
  by (simp add: ranked_alt)

lemma ranked_less: "ranked h r \<Longrightarrow> a < length h \<Longrightarrow> r a < length h"
  by (simp add: ranked_alt)

lemma IsIdentity_simps [simp]:
  "IsIdentity h (VInst a) \<longleftrightarrow> opc (h ! a) = ''Identity''"
  "\<forall>a. v \<noteq> VInst a \<Longrightarrow> \<not> IsIdentity h v"
  by (auto simp: IsIdentity_def split: ir_value.splits)

lemma chase_fuel_other: "\<not> IsIdentity h v \<Longrightarrow> chase_fuel n h v = Some v"
  by (subst chase_fuel.simps) simp

lemma chase_fuel_identity:
  "opc (h ! a) = ''Identity'' \<Longrightarrow> chase_fuel (Suc n) h (VInst a) = chase_fuel n h (args (h ! a) ! 0)"
  by (subst chase_fuel.simps) simp

lemma IsIdentityE:
  assumes "IsIdentity h v"
  obtains a where "v = VInst a" "opc (h ! a) = ''Identity''"
  using assms by (auto simp: IsIdentity_def split: ir_value.splits)

lemma chase_fuel_mono: "chase_fuel n h v = Some w \<Longrightarrow> n \<le> m \<Longrightarrow> chase_fuel m h v = Some w"
proof (induction n arbitrary: m v)
  case 0
  then have "\<not> IsIdentity h v" by (auto simp: chase_fuel.simps [of 0])
  with 0 show ?case by (simp add: chase_fuel_other)
next
  case (Suc n)
  show ?case
  proof (cases "IsIdentity h v")
    case True
    then obtain a where v: "v = VInst a" "opc (h ! a) = ''Identity''" by (rule IsIdentityE)
    from Suc.prems(2) obtain l where m: "m = Suc l" "n \<le> l" by (cases m) auto
    from Suc.IH [of "args (h ! a) ! 0" l] Suc.prems(1) m(2) show ?thesis
      by (simp add: v m chase_fuel_identity)
  qed (use Suc.prems in \<open>simp add: chase_fuel_other\<close>)
qed

text \<open>The induction that follows a chain of identities downwards.\<close>

lemma below_induct [consumes 2, case_names other identity]:
  assumes "ranked h r" "below h r n v"
    and other: "\<And>v. \<not> IsIdentity h v \<Longrightarrow> valid_value h v \<Longrightarrow> P v"
    and identity: "\<And>a. a < length h \<Longrightarrow> opc (h ! a) = ''Identity'' \<Longrightarrow> P (args (h ! a) ! 0) \<Longrightarrow> P (VInst a)"
  shows "P v"
  using assms(2)
proof (induction n arbitrary: v rule: less_induct)
  case (less n)
  show ?case
  proof (cases "IsIdentity h v")
    case True
    then obtain a where v: "v = VInst a" "opc (h ! a) = ''Identity''" by (rule IsIdentityE)
    with less.prems have a: "a < length h" "r a < n" by auto
    from ranked_arg [OF assms(1) a(1), of 0] have "P (args (h ! a) ! 0)"
      by (intro less.IH [OF a(2)]) simp
    with a v show ?thesis by (auto intro: identity)
  qed (use less.prems in \<open>auto intro: other below_valid\<close>)
qed

lemma valid_below: "ranked h r \<Longrightarrow> valid_value h v \<Longrightarrow> below h r (length h) v"
  by (auto simp: valid_value_def below_def ranked_less split: ir_value.splits)

lemma chase_fuel_total:
  assumes "ranked h r" "below h r n v"
  shows "\<exists>w. chase_fuel n h v = Some w"
  using assms(2)
proof (induction n arbitrary: v)
  case (Suc n)
  show ?case
  proof (cases "IsIdentity h v")
    case True
    then obtain a where v: "v = VInst a" "opc (h ! a) = ''Identity''" by (rule IsIdentityE)
    with Suc.prems have a: "a < length h" "r a \<le> n" by auto
    have "below h r n (args (h ! a) ! 0)"
      using ranked_arg [OF assms(1) a(1), of 0] a(2) by (auto intro: below_mono)
    from Suc.IH [OF this] show ?thesis by (simp add: v chase_fuel_identity)
  qed (simp add: chase_fuel_other)
next
  case 0
  then have "\<not> IsIdentity h v" by (auto simp: IsIdentity_def below_def split: ir_value.splits)
  then show ?case by (simp add: chase_fuel_other)
qed

lemma chase_other [simp]: "\<not> IsIdentity h v \<Longrightarrow> chase h v = Some v"
  by (simp add: chase_def chase_fuel_other)

lemma chase_total: "ranked h r \<Longrightarrow> valid_value h v \<Longrightarrow> \<exists>w. chase h v = Some w"
  unfolding chase_def by (rule chase_fuel_total) (auto intro: valid_below)

lemma chase_identity:
  assumes "ranked h r" "a < length h" "opc (h ! a) = ''Identity''"
  shows "chase h (VInst a) = chase h (args (h ! a) ! 0)"
proof -
  obtain n where n: "length h = Suc n" using assms(2) by (cases "length h") auto
  have "below h r n (args (h ! a) ! 0)"
    using ranked_arg [OF assms(1,2), of 0] ranked_less [OF assms(1,2)] n by (auto intro: below_mono)
  then obtain w where w: "chase_fuel n h (args (h ! a) ! 0) = Some w"
    using chase_fuel_total [OF assms(1)] by blast
  with chase_fuel_mono [OF w, of "Suc n"] show ?thesis
    unfolding chase_def n by (simp add: chase_fuel_identity assms(3))
qed

lemma chase_result:
  assumes "ranked h r" "below h r n v" "chase h v = Some w"
  shows "\<not> IsIdentity h w \<and> below h r n w"
  using assms(2,3)
proof (induction n arbitrary: v rule: less_induct)
  case (less n)
  show ?case
  proof (cases "IsIdentity h v")
    case True
    then obtain a where v: "v = VInst a" "opc (h ! a) = ''Identity''" by (rule IsIdentityE)
    with less.prems have a: "a < length h" "r a < n" by auto
    have "chase h (args (h ! a) ! 0) = Some w"
      using less.prems v chase_identity [OF assms(1) a(1)] by simp
    then have "\<not> IsIdentity h w \<and> below h r (r a) w"
      using less.IH [OF a(2) ranked_arg [OF assms(1) a(1), of 0]] by simp
    with a(2) show ?thesis by (auto intro: below_mono)
  qed (use less.prems in auto)
qed

definition same_ids :: "heap \<Rightarrow> heap \<Rightarrow> bool" where
  "same_ids h h' \<longleftrightarrow> length h' = length h
     \<and> (\<forall>a<length h. (opc (h' ! a) = ''Identity'' \<longleftrightarrow> opc (h ! a) = ''Identity'')
          \<and> (opc (h ! a) = ''Identity'' \<longrightarrow> args (h' ! a) ! 0 = args (h ! a) ! 0))"

lemma chase_cong:
  assumes "ranked h r" "same_ids h h'" "valid_value h v"
  shows "chase h' v = chase h v"
proof -
  have "chase_fuel n h' v = chase_fuel n h v" for n
    using assms(3)
  proof (induction n arbitrary: v)
    case 0
    with assms(2) show ?case
      by (auto simp: chase_fuel.simps [of 0] same_ids_def IsIdentity_def valid_value_def split: ir_value.splits)
  next
    case (Suc n)
    show ?case
    proof (cases "IsIdentity h v")
      case True
      then obtain a where v: "v = VInst a" "opc (h ! a) = ''Identity''" by (rule IsIdentityE)
      with Suc.prems have a: "a < length h" by simp
      from ranked_arg [OF assms(1) a, of 0] have "valid_value h (args (h ! a) ! 0)" by (auto intro: below_valid)
      from Suc.IH [OF this] a v assms(2) show ?thesis by (simp add: chase_fuel_identity same_ids_def)
    next
      case False
      with Suc.prems assms(2) have "\<not> IsIdentity h' v"
        by (auto simp: same_ids_def IsIdentity_def valid_value_def split: ir_value.splits)
      with False show ?thesis by (simp add: chase_fuel_other)
    qed
  qed
  with assms(2) show ?thesis by (simp add: chase_def same_ids_def)
qed

text \<open>A value that resolves to an instruction, as opposed to an immediate.\<close>

definition nonimm :: "heap \<Rightarrow> ir_value \<Rightarrow> bool" where
  "nonimm h v \<longleftrightarrow> (case chase h v of Some (VInst b) \<Rightarrow> True | _ \<Rightarrow> False)"

lemma value_type_Opaque [simp]: "value_type v = Type_Opaque \<longleftrightarrow> (\<exists>b. v = VInst b)"
  by (cases v) simp_all

lemma nonimm_alt: "nonimm h v \<longleftrightarrow> (\<exists>b. chase h v = Some (VInst b))"
  by (auto simp: nonimm_def split: option.splits ir_value.splits)

lemma nonimm_VInst: "nonimm h v \<Longrightarrow> \<exists>b. v = VInst b"
  by (cases v) (auto simp: nonimm_alt)

lemma nonimm_simps [simp]:
  "opc (h ! a) \<noteq> ''Identity'' \<Longrightarrow> nonimm h (VInst a)"
  "\<forall>b. v \<noteq> VInst b \<Longrightarrow> \<not> nonimm h v"
  by (auto simp: nonimm_alt)

lemma IsImmediate_eq: "ranked h r \<Longrightarrow> valid_value h v \<Longrightarrow> IsImmediate h v = Some (\<not> nonimm h v)"
  using chase_total [of h r v] by (auto simp: IsImmediate_def nonimm_alt)

lemma nonimm_cong:
  assumes "ranked h r" "same_ids h h'" "valid_value h v"
  shows "nonimm h' v = nonimm h v"
  unfolding nonimm_def chase_cong [OF assms] ..

section \<open>Frames of the primitive writes\<close>

lemma inst_Use_frame:
  assumes "inst_Use h t v = Some h'"
  shows "length h' = length h" "opc (h' ! x) = opc (h ! x)" "args (h' ! x) = args (h ! x)"
    "inst_name (h' ! x) = inst_name (h ! x)"
    "x < length h \<Longrightarrow> use_count (h' ! x) = use_count (h ! x) + of_bool (v = VInst x)"
  using assms
  by (auto simp: inst_Use_def GetInst_def Let_def upd_member nth_upd
        split: ir_value.splits if_splits option.splits bind_splits)

lemma inst_UndoUse_frame:
  assumes "inst_UndoUse h t v = Some h'"
  shows "length h' = length h" "opc (h' ! x) = opc (h ! x)" "args (h' ! x) = args (h ! x)"
    "inst_name (h' ! x) = inst_name (h ! x)"
    "x < length h \<Longrightarrow> use_count (h' ! x) = use_count (h ! x) - of_bool (v = VInst x)"
  using assms
  by (auto simp: inst_UndoUse_def GetInst_def Let_def upd_member nth_upd
        split: ir_value.splits if_splits option.splits bind_splits)

section \<open>The invariant\<close>

text \<open>The number of argument slots that hold a reference to an instruction.\<close>

definition slots :: "heap \<Rightarrow> nat \<Rightarrow> nat" where
  "slots h x = (\<Sum>i\<leftarrow>h. count_list (args i) (VInst x))"

text \<open>
  Use counts.  While an instruction is not an alias of an immediate, its use count is the
  number of slots that refer to it.  Once it is, the source neither adds nor removes uses
  any more, and what remains true is that an instruction that is referred to has a use.
\<close>

definition counted :: "heap \<Rightarrow> bool" where
  "counted h \<longleftrightarrow>
     (\<forall>x<length h.
        if opc (h ! x) = ''Void'' then slots h x = 0
        else if nonimm h (VInst x) then use_count (h ! x) = of_nat (slots h x)
        else use_count (h ! x) = 0 \<longrightarrow> slots h x = 0)"

text \<open>Arguments have the types that the opcode table asks for.\<close>

definition arg_ok :: "heap \<Rightarrow> ir_value \<Rightarrow> ir_type \<Rightarrow> bool" where
  "arg_ok h v t \<longleftrightarrow> (case GetType h v of None \<Rightarrow> False | Some ty \<Rightarrow> AreTypesCompatible ty t)"

definition args_typed :: "heap \<Rightarrow> nat \<Rightarrow> bool" where
  "args_typed h a \<longleftrightarrow>
     (case opcode_meta (opc (h ! a)) of None \<Rightarrow> False
      | Some (t, ts) \<Rightarrow> (\<forall>i<length ts. arg_ok h (args (h ! a) ! i) (ts ! i))
          \<and> (\<forall>i<max_arg_count. length ts \<le> i \<longrightarrow> args (h ! a) ! i = VEmpty))"

definition typed :: "heap \<Rightarrow> bool" where
  "typed h \<longleftrightarrow> (\<forall>a<length h. args_typed h a)"

text \<open>The pseudo-operations of an instruction, and the list that links them.\<close>

definition observes :: "heap \<Rightarrow> nat \<Rightarrow> nat \<Rightarrow> bool" where
  "observes h b c \<longleftrightarrow> c < length h \<and> IsAPseudoOperation (opc (h ! c)) \<and> args (h ! c) ! 0 = VInst b"

fun pchain :: "heap \<Rightarrow> nat option \<Rightarrow> nat list \<Rightarrow> bool" where
  "pchain h None L \<longleftrightarrow> L = []"
| "pchain h (Some c) L \<longleftrightarrow> (case L of [] \<Rightarrow> False | d # L' \<Rightarrow> d = c \<and> c < length h \<and> pchain h (next_pseudoop (h ! c)) L')"

definition chain_ok :: "heap \<Rightarrow> nat \<Rightarrow> bool" where
  "chain_ok h b \<longleftrightarrow> (\<exists>L. pchain h (next_pseudoop (h ! b)) L \<and> distinct L \<and> set L = Collect (observes h b))"

definition chained :: "heap \<Rightarrow> bool" where
  "chained h \<longleftrightarrow>
     (\<forall>b<length h. nonimm h (VInst b) \<longrightarrow> opc (h ! b) \<noteq> ''Void'' \<longrightarrow> \<not> IsAPseudoOperation (opc (h ! b)) \<longrightarrow> chain_ok h b)
     \<and> (\<forall>c<length h. \<forall>b<length h. observes h b c \<longrightarrow> \<not> IsAPseudoOperation (opc (h ! b)))"

definition wf_heap :: "heap \<Rightarrow> (nat \<Rightarrow> nat) \<Rightarrow> bool" where
  "wf_heap h r \<longleftrightarrow> ranked h r \<and> counted h \<and> typed h \<and> chained h \<and> length h < 2 ^ 30"

subsection \<open>Counting slots\<close>

lemma count_list_update:
  "i < length xs \<Longrightarrow> count_list (xs[i := v]) y + of_bool (xs ! i = y) = count_list xs y + of_bool (v = y)"
proof (induction xs arbitrary: i)
  case (Cons x xs)
  then show ?case by (cases i) auto
qed simp

lemma slots_change:
  assumes "length h' = length h" "a < length h" "\<And>b. b < length h \<Longrightarrow> b \<noteq> a \<Longrightarrow> args (h' ! b) = args (h ! b)"
  shows "slots h' x + count_list (args (h ! a)) (VInst x) = slots h x + count_list (args (h' ! a)) (VInst x)"
proof -
  let ?f = "\<lambda>i. count_list (args i) (VInst x)"
  have "map ?f h' = (map ?f h)[a := ?f (h' ! a)]"
    using assms by (intro nth_equalityI) (auto simp: nth_list_update)
  moreover have "?f (h ! a) \<le> sum_list (map ?f h)"
    using assms(2) by (intro elem_le_sum_list [of a "map ?f h", simplified]) simp
  ultimately show ?thesis
    using assms(2) by (simp add: slots_def sum_list_update)
qed

lemma slots_same:
  assumes "length h' = length h" "\<And>b. b < length h \<Longrightarrow> args (h' ! b) = args (h ! b)"
  shows "slots h' x = slots h x"
proof -
  have "map (\<lambda>i. count_list (args i) (VInst x)) h' = map (\<lambda>i. count_list (args i) (VInst x)) h"
    using assms by (intro nth_equalityI) auto
  then show ?thesis by (simp add: slots_def)
qed

lemma slots_pos: "0 < slots h x \<longleftrightarrow> (\<exists>a<length h. VInst x \<in> set (args (h ! a)))"
proof -
  have "slots h x = 0 \<longleftrightarrow> (\<forall>i\<in>set h. VInst x \<notin> set (args i))"
    by (simp add: slots_def count_list_0_iff)
  then show ?thesis by (auto simp: in_set_conv_nth Bex_def neq0_conv [symmetric] simp del: neq0_conv)
qed

lemma slots_0: "slots h x = 0 \<longleftrightarrow> (\<forall>a<length h. VInst x \<notin> set (args (h ! a)))"
  using slots_pos [of h x] by auto

lemma slots_le:
  assumes "ranked h r"
  shows "slots h x \<le> 4 * length h"
proof -
  have "count_list (args i) (VInst x) \<le> 4" if "i \<in> set h" for i
  proof -
    from that obtain a where "a < length h" "i = h ! a" by (auto simp: in_set_conv_nth)
    with assms count_le_length [of "args i" "VInst x"] show ?thesis by (simp add: ranked_length)
  qed
  then have "slots h x \<le> (\<Sum>i\<leftarrow>h. 4)" unfolding slots_def by (intro sum_list_mono) simp
  then show ?thesis by (simp add: sum_list_triv mult.commute)
qed

lemma of_nat_slots_0:
  assumes "ranked h r" "length h < 2 ^ 30"
  shows "(of_nat (slots h x) :: u32) = 0 \<longleftrightarrow> slots h x = 0"
proof -
  have "slots h x < 2 ^ 32" using slots_le [OF assms(1), of x] assms(2) by simp
  then show ?thesis by (auto simp: word_of_nat_eq_0_iff dest: dvd_imp_le)
qed

lemma slots_self: "ranked h r \<Longrightarrow> a < length h \<Longrightarrow> VInst a \<notin> set (args (h ! a))"
  by (fastforce simp: ranked_alt)


subsection \<open>Writing an argument\<close>

text \<open>
  What \<^const>\<open>SetArg\<close> leaves behind, apart from the links of the pseudo-operation lists.
\<close>

definition arg_written :: "heap \<Rightarrow> nat \<Rightarrow> nat \<Rightarrow> ir_value \<Rightarrow> heap \<Rightarrow> bool" where
  "arg_written h a i v h' \<longleftrightarrow> length h' = length h
     \<and> (\<forall>x<length h. opc (h' ! x) = opc (h ! x)
          \<and> args (h' ! x) = (if x = a then (args (h ! a))[i := v] else args (h ! x))
          \<and> use_count (h' ! x) = use_count (h ! x)
              - of_bool (nonimm h (args (h ! a) ! i) \<and> args (h ! a) ! i = VInst x)
              + of_bool (nonimm h v \<and> v = VInst x))"

text \<open>A value that may be stored: it refers to a live instruction, and an alias of an
  immediate is one that has been used before.\<close>

definition storable :: "heap \<Rightarrow> ir_value \<Rightarrow> bool" where
  "storable h v \<longleftrightarrow> (case v of VInst x \<Rightarrow> opc (h ! x) \<noteq> ''Void'' \<and> (nonimm h v \<or> use_count (h ! x) \<noteq> 0) | _ \<Rightarrow> True)"

lemma storable_simps [simp]:
  "storable h (VInst x) \<longleftrightarrow> opc (h ! x) \<noteq> ''Void'' \<and> (nonimm h (VInst x) \<or> use_count (h ! x) \<noteq> 0)"
  "\<forall>x. v \<noteq> VInst x \<Longrightarrow> storable h v"
  by (auto simp: storable_def split: ir_value.splits)

lemma storable_arg:
  assumes "counted h" "ranked h r" "a < length h" "v \<in> set (args (h ! a))"
  shows "storable h v"
proof (cases v)
  case (VInst x)
  with assms have x: "x < length h" by (fastforce simp: ranked_alt)
  have "0 < slots h x" using assms VInst by (auto simp: slots_pos)
  with assms(1) x VInst show ?thesis by (auto simp: counted_def split: if_splits)
qed auto

lemma ranked_arg_written:
  assumes "ranked h r" "a < length h" "arg_written h a i v h'" "below h r (r a) v"
  shows "ranked h' r"
  unfolding ranked_alt
proof (intro allI impI conjI ballI)
  fix x assume "x < length h'"
  then have x: "x < length h" using assms(3) by (simp add: arg_written_def)
  show "r x < length h'" "length (args (h' ! x)) = 4"
    using assms x by (auto simp: arg_written_def ranked_alt)
  fix u assume "u \<in> set (args (h' ! x))"
  then have "u \<in> set (args (h ! x)) \<or> (x = a \<and> u = v)"
    using assms(3) x set_update_subset_insert [of "args (h ! a)" i v]
    by (auto simp: arg_written_def split: if_splits)
  then show "below h' r (r x) u"
    using assms x by (auto simp: ranked_alt below_def arg_written_def split: ir_value.splits)
qed

lemma chase_arg_written:
  assumes "ranked h r" "a < length h" "arg_written h a i v h'" "below h r (r a) v"
    and keep: "opc (h ! a) = ''Identity'' \<Longrightarrow> chase h v = chase h (args (h ! a) ! 0)"
    and "below h r n u"
  shows "chase h' u = chase h u"
  using assms(6)
proof (induction n arbitrary: u rule: less_induct)
  case (less n)
  have r': "ranked h' r" by (rule ranked_arg_written [OF assms(1-4)])
  show ?case
  proof (cases "IsIdentity h u")
    case True
    then obtain b where u: "u = VInst b" "opc (h ! b) = ''Identity''" by (rule IsIdentityE)
    with less.prems have b: "b < length h" "r b < n" by auto
    from u b assms(3) have b': "b < length h'" "opc (h' ! b) = ''Identity''"
      by (auto simp: arg_written_def)
    have "chase h' (args (h' ! b) ! 0) = chase h (args (h ! b) ! 0)"
    proof (cases "b = a \<and> i = 0")
      case True
      then have "args (h' ! b) ! 0 = v" using assms(1-3) by (simp add: arg_written_def ranked_alt)
      with True u less.IH [OF b(2), of v] assms(4) keep show ?thesis by simp
    next
      case False
      then have "args (h' ! b) ! 0 = args (h ! b) ! 0" using assms(3) b by (auto simp: arg_written_def)
      with less.IH [OF b(2) ranked_arg [OF assms(1) b(1), of 0]] show ?thesis by simp
    qed
    with u b b' show ?thesis by (simp add: chase_identity [OF assms(1)] chase_identity [OF r'])
  next
    case False
    with less.prems assms(3) have "\<not> IsIdentity h' u"
      by (auto simp: arg_written_def IsIdentity_def below_def split: ir_value.splits)
    with False show ?thesis by simp
  qed
qed

lemma nonimm_arg_written:
  assumes "ranked h r" "a < length h" "arg_written h a i v h'" "below h r (r a) v"
    and "opc (h ! a) = ''Identity'' \<Longrightarrow> chase h v = chase h (args (h ! a) ! 0)"
    and "valid_value h u"
  shows "nonimm h' u = nonimm h u"
  using chase_arg_written [OF assms(1-5) valid_below [OF assms(1,6)]] by (simp add: nonimm_def)

lemma GetType_arg_written:
  assumes "ranked h r" "a < length h" "arg_written h a i v h'" "below h r (r a) v"
    and "opc (h ! a) = ''Identity'' \<Longrightarrow> chase h v = chase h (args (h ! a) ! 0)"
    and "valid_value h u"
  shows "GetType h' u = GetType h u"
proof -
  obtain w where w: "chase h u = Some w" using chase_total [OF assms(1,6)] by blast
  moreover have "below h r (length h) w"
    using chase_result [OF assms(1) valid_below [OF assms(1,6)] w] by simp
  moreover have "chase h' u = Some w"
    using chase_arg_written [OF assms(1-5) valid_below [OF assms(1,6)]] w by simp
  ultimately show ?thesis
    using assms(3) by (cases w) (auto simp: GetType_def arg_written_def)
qed

lemma counted_arg_written:
  assumes "ranked h r" "a < length h" "arg_written h a i v h'" "below h r (r a) v"
    and keep: "opc (h ! a) = ''Identity'' \<Longrightarrow> chase h v = chase h (args (h ! a) ! 0)"
    and "i < 4" "counted h" "storable h v"
  shows "counted h'"
  unfolding counted_def
proof (intro allI impI)
  fix x assume "x < length h'"
  then have x: "x < length h" and op: "opc (h' ! x) = opc (h ! x)"
    and uc: "use_count (h' ! x) = use_count (h ! x)
              - of_bool (nonimm h (args (h ! a) ! i) \<and> args (h ! a) ! i = VInst x)
              + of_bool (nonimm h v \<and> v = VInst x)"
    using assms(3) by (auto simp: arg_written_def)
  have ni: "nonimm h' (VInst x) = nonimm h (VInst x)"
    using nonimm_arg_written [OF assms(1-5)] x by simp
  have "args (h' ! a) = (args (h ! a))[i := v]" using assms(2,3) by (simp add: arg_written_def)
  then have "slots h' x + count_list (args (h ! a)) (VInst x) = slots h x + count_list ((args (h ! a))[i := v]) (VInst x)"
    using assms(2,3) slots_change [of h' h a x] by (simp add: arg_written_def)
  moreover have "count_list ((args (h ! a))[i := v]) (VInst x) + of_bool (args (h ! a) ! i = VInst x)
      = count_list (args (h ! a)) (VInst x) + of_bool (v = VInst x)"
    using assms(1,2,6) by (intro count_list_update) (simp add: ranked_length)
  ultimately have sl: "slots h' x + of_bool (args (h ! a) ! i = VInst x) = slots h x + of_bool (v = VInst x)"
    by linarith
  have old: "args (h ! a) ! i = VInst x \<Longrightarrow> 0 < slots h x"
    using assms(1,2,6) by (auto simp: slots_pos ranked_length intro!: exI [of _ a] nth_mem dest: sym)
  have c: "if opc (h ! x) = ''Void'' then slots h x = 0
        else if nonimm h (VInst x) then use_count (h ! x) = of_nat (slots h x)
        else use_count (h ! x) = 0 \<longrightarrow> slots h x = 0"
    using assms(7) x by (simp add: counted_def)
  have "of_nat (slots h' x) + of_bool (args (h ! a) ! i = VInst x) = (of_nat (slots h x) + of_bool (v = VInst x) :: u32)"
    using arg_cong [OF sl, of "of_nat :: nat \<Rightarrow> u32"] by simp
  then have osl: "(of_nat (slots h' x) :: u32) = of_nat (slots h x) + of_bool (v = VInst x) - of_bool (args (h ! a) ! i = VInst x)"
    by (simp add: eq_diff_eq)
  show "if opc (h' ! x) = ''Void'' then slots h' x = 0
        else if nonimm h' (VInst x) then use_count (h' ! x) = of_nat (slots h' x)
        else use_count (h' ! x) = 0 \<longrightarrow> slots h' x = 0"
    using c uc sl old assms(8) unfolding op ni osl
    by (cases "v = VInst x"; cases "args (h ! a) ! i = VInst x") (auto split: if_splits)
qed

lemma arg_ok_cong: "GetType h' u = GetType h u \<Longrightarrow> arg_ok h' u t = arg_ok h u t"
  by (simp add: arg_ok_def)

lemma typed_arg_written:
  assumes "ranked h r" "a < length h" "arg_written h a i v h'" "below h r (r a) v"
    and keep: "opc (h ! a) = ''Identity'' \<Longrightarrow> chase h v = chase h (args (h ! a) ! 0)"
    and "typed h" "opcode_meta (opc (h ! a)) = Some (t, ts)" "i < length ts" "arg_ok h v (ts ! i)"
  shows "typed h'"
  unfolding typed_def
proof (intro allI impI)
  fix x assume "x < length h'"
  then have x: "x < length h" and op: "opc (h' ! x) = opc (h ! x)"
    and ar: "args (h' ! x) = (if x = a then (args (h ! a))[i := v] else args (h ! x))"
    using assms(3) by (auto simp: arg_written_def)
  obtain t' ts' where m: "opcode_meta (opc (h ! x)) = Some (t', ts')"
    and ok: "\<And>j. j < length ts' \<Longrightarrow> arg_ok h (args (h ! x) ! j) (ts' ! j)"
    and em: "\<And>j. j < 4 \<Longrightarrow> length ts' \<le> j \<Longrightarrow> args (h ! x) ! j = VEmpty"
    using assms(6) x by (auto simp: typed_def args_typed_def max_arg_count_def split: option.splits prod.splits)
  have len: "length ts' \<le> 4" "length (args (h ! x)) = 4"
    using opcode_meta_ok [OF m] ranked_length [OF assms(1) x] by auto
  have same: "arg_ok h' u s = arg_ok h u s" if "valid_value h u" for u s
    using that by (intro arg_ok_cong GetType_arg_written [OF assms(1-5)])
  have "arg_ok h' (args (h' ! x) ! j) (ts' ! j)" if "j < length ts'" for j
  proof -
    have "valid_value h (args (h ! x) ! j)" "valid_value h v"
      using ranked_arg [OF assms(1) x, of j] that len assms(4) by (auto intro: below_valid)
    then show ?thesis using ok [OF that] assms(7-9) m that len by (auto simp: ar same nth_list_update)
  qed
  moreover have "args (h' ! x) ! j = VEmpty" if "j < 4" "length ts' \<le> j" for j
    using em [OF that] assms(7,8) m that by (auto simp: ar)
  ultimately show "args_typed h' x"
    by (simp add: args_typed_def op m max_arg_count_def)
qed

lemma chained_arg_written:
  assumes "ranked h r" "a < length h" "arg_written h a i v h'" "below h r (r a) v"
    and keep: "opc (h ! a) = ''Identity'' \<Longrightarrow> chase h v = chase h (args (h ! a) ! 0)"
    and "chained h" "\<not> IsAPseudoOperation (opc (h ! a))"
    and nx: "\<And>x. x < length h \<Longrightarrow> next_pseudoop (h' ! x) = next_pseudoop (h ! x)"
  shows "chained h'"
proof -
  have len: "length h' = length h" and op: "\<And>x. x < length h \<Longrightarrow> opc (h' ! x) = opc (h ! x)"
    using assms(3) by (auto simp: arg_written_def)
  have "observes h' b c \<longleftrightarrow> observes h b c" for b c
    using assms(3,7) op by (cases "c = a") (auto simp: observes_def arg_written_def)
  then have obs: "observes h' = observes h" by (intro ext)
  have pc: "pchain h' n L = pchain h n L" for n L
  proof (induction L arbitrary: n)
    case Nil
    then show ?case by (cases n) auto
  next
    case (Cons d L)
    then show ?case by (cases n) (simp_all add: len nx cong: conj_cong)
  qed
  have "chain_ok h' b = chain_ok h b" if "b < length h" for b
    using that by (simp add: chain_ok_def pc nx obs)
  moreover have "nonimm h' (VInst b) = nonimm h (VInst b)" if "b < length h" for b
    using that nonimm_arg_written [OF assms(1-5)] by simp
  ultimately show ?thesis
    using assms(6) unfolding chained_def len by (simp add: op obs)
qed

text \<open>\<^const>\<open>SetArg\<close> on an instruction that is not a pseudo-operation.\<close>

lemma inst_Use_plain:
  "\<not> IsAPseudoOperation (opc (h ! t)) \<Longrightarrow> inst_Use h t (VInst b) = Some (upd h b (\<lambda>x. x\<lparr>use_count := use_count x + 1\<rparr>))"
  by (simp add: inst_Use_def GetInst_def upd_member)

lemma inst_UndoUse_plain:
  "\<not> IsAPseudoOperation (opc (h ! t)) \<Longrightarrow> inst_UndoUse h t (VInst b) = Some (upd h b (\<lambda>x. x\<lparr>use_count := use_count x - 1\<rparr>))"
  by (simp add: inst_UndoUse_def GetInst_def upd_member)

lemma SetArg_plain:
  assumes "ranked h r" "a < length h" "below h r (r a) v"
    and m: "opcode_meta (opc (h ! a)) = Some (t, ts)" "i < length ts" "arg_ok h v (ts ! i)"
    and np: "\<not> IsAPseudoOperation (opc (h ! a))"
  obtains h' where "SetArg h a i v = Some h'" "arg_written h a i v h'"
    "\<And>x. next_pseudoop (h' ! x) = next_pseudoop (h ! x)"
proof -
  let ?old = "args (h ! a) ! i"
  have i4: "i < 4" using opcode_meta_ok(1) [OF m(1)] m(2) by simp
  have old: "valid_value h ?old" and v: "valid_value h v"
    using ranked_arg [OF assms(1,2) i4] assms(3) by (auto intro: below_valid)
  obtain h1 where h1: "(if \<not> (\<not> nonimm h ?old) then inst_UndoUse h a ?old else Some h) = Some h1"
    and h1m: "length h1 = length h" "\<And>x. opc (h1 ! x) = opc (h ! x)" "\<And>x. args (h1 ! x) = args (h ! x)"
      "\<And>x. next_pseudoop (h1 ! x) = next_pseudoop (h ! x)"
      "\<And>x. x < length h \<Longrightarrow> use_count (h1 ! x) = use_count (h ! x) - of_bool (nonimm h ?old \<and> ?old = VInst x)"
  proof (cases "nonimm h ?old")
    case True
    then obtain b where "?old = VInst b" using nonimm_VInst by blast
    with True np that show ?thesis by (auto simp: inst_UndoUse_plain upd_member nth_upd)
  qed (use that in auto)
  have same1: "same_ids h h1" using h1m by (simp add: same_ids_def)
  have ty: "GetType h v \<noteq> None" "AreTypesCompatible (the (GetType h v)) (ts ! i)"
    using m(3) by (auto simp: arg_ok_def split: option.splits)
  obtain h2 where h2: "(if \<not> (\<not> nonimm h v) then inst_Use h1 a v else Some h1) = Some h2"
    and h2m: "length h2 = length h" "\<And>x. opc (h2 ! x) = opc (h ! x)" "\<And>x. args (h2 ! x) = args (h ! x)"
      "\<And>x. next_pseudoop (h2 ! x) = next_pseudoop (h ! x)"
      "\<And>x. x < length h \<Longrightarrow> use_count (h2 ! x) = use_count (h1 ! x) + of_bool (nonimm h v \<and> v = VInst x)"
  proof (cases "nonimm h v")
    case True
    then obtain b where "v = VInst b" using nonimm_VInst by blast
    with True np that h1m show ?thesis by (auto simp: inst_Use_plain upd_member nth_upd)
  qed (use that h1m in auto)
  have "IsImmediate h ?old = Some (\<not> nonimm h ?old)" "IsImmediate h1 v = Some (\<not> nonimm h v)"
    using IsImmediate_eq [OF assms(1)] old v chase_cong [OF assms(1) same1 v]
    by (simp_all add: IsImmediate_def)
  then have "SetArg h a i v = Some (set_slot h2 a i v)"
    using m ty h1 h2 by (auto simp: SetArg_def NumArgs_def simp del: not_not)
  moreover have "arg_written h a i v (set_slot h2 a i v)"
    using assms(2) h1m h2m by (auto simp: arg_written_def set_slot_args)
  ultimately show ?thesis using that h2m by simp
qed

lemma SetArg_wf:
  assumes "wf_heap h r" "a < length h" "below h r (r a) v"
    and m: "opcode_meta (opc (h ! a)) = Some (t, ts)" "i < length ts" "arg_ok h v (ts ! i)"
    and np: "\<not> IsAPseudoOperation (opc (h ! a))" "storable h v"
    and keep: "opc (h ! a) = ''Identity'' \<Longrightarrow> chase h v = chase h (args (h ! a) ! 0)"
  obtains h' where "SetArg h a i v = Some h'" "arg_written h a i v h'" "wf_heap h' r"
    "\<And>x. next_pseudoop (h' ! x) = next_pseudoop (h ! x)"
proof -
  have rk: "ranked h r" using assms(1) by (simp add: wf_heap_def)
  have i4: "i < 4" using opcode_meta_ok(1) [OF m(1)] m(2) by simp
  obtain h' where h': "SetArg h a i v = Some h'" "arg_written h a i v h'"
    "\<And>x. next_pseudoop (h' ! x) = next_pseudoop (h ! x)"
    using SetArg_plain [OF rk assms(2,3) m np(1)] by blast
  note w = rk assms(2) h'(2) assms(3)
  have "wf_heap h' r"
    using assms(1) ranked_arg_written [OF w] counted_arg_written [OF w keep i4 _ np(2)]
      typed_arg_written [OF w keep _ m] chained_arg_written [OF w keep _ np(1) h'(3)] h'(2)
    by (simp add: wf_heap_def arg_written_def)
  with h' that show ?thesis by blast
qed

subsection \<open>Lists of pseudo-operations\<close>

lemma pchain_cong:
  assumes "length h' = length h" "\<And>c. c \<in> set L \<Longrightarrow> next_pseudoop (h' ! c) = next_pseudoop (h ! c)"
  shows "pchain h' n L = pchain h n L"
  using assms(2)
proof (induction L arbitrary: n)
  case Nil
  then show ?case by (cases n) auto
next
  case (Cons d L)
  then show ?case by (cases n) (simp_all add: assms(1) cong: conj_cong)
qed

lemma pchain_Cons [simp]:
  "pchain h n (d # L) \<longleftrightarrow> n = Some d \<and> d < length h \<and> pchain h (next_pseudoop (h ! d)) L"
  by (cases n) auto

lemma pchain_Nil [simp]: "pchain h n [] \<longleftrightarrow> n = None"
  by (cases n) auto

lemma pchain_less: "pchain h n L \<Longrightarrow> c \<in> set L \<Longrightarrow> c < length h"
  by (induction L arbitrary: n) auto

lemma pchain_length:
  assumes "pchain h n L" "distinct L"
  shows "length L \<le> length h"
proof -
  have "set L \<subseteq> {..<length h}" using pchain_less [OF assms(1)] by auto
  from card_mono [OF _ this] show ?thesis using distinct_card [OF assms(2)] by simp
qed

lemma chain_end_pchain:
  "pchain h (next_pseudoop (h ! b)) L \<Longrightarrow> length L \<le> n \<Longrightarrow> chain_end n h b = Some (last (b # L))"
proof (induction L arbitrary: b n)
  case Nil
  then show ?case by (simp add: chain_end.simps)
next
  case (Cons c L)
  then obtain m where "n = Suc m" by (cases n) auto
  with Cons show ?case by (subst chain_end.simps) simp
qed

lemma chain_pred_pchain:
  assumes "pchain h (next_pseudoop (h ! b)) (xs @ t # ys)" "t \<notin> set xs" "length xs \<le> n"
  shows "chain_pred n h b t = Some (last (b # xs))"
  using assms
proof (induction xs arbitrary: b n)
  case Nil
  then show ?case by (simp add: chain_pred.simps)
next
  case (Cons c xs)
  then obtain m where "n = Suc m" by (cases n) auto
  with Cons show ?case by (subst chain_pred.simps) simp
qed

lemma pchain_unlink:
  assumes "pchain h (next_pseudoop (h ! b)) (xs @ t # ys)" "distinct (b # xs @ t # ys)"
    and "length h' = length h"
    and "\<And>c. c \<in> set (b # xs @ ys) \<Longrightarrow> next_pseudoop (h' ! c) =
      (if c = last (b # xs) then next_pseudoop (h ! t) else next_pseudoop (h ! c))"
  shows "pchain h' (next_pseudoop (h' ! b)) (xs @ ys)"
  using assms
proof (induction xs arbitrary: b)
  case Nil
  have "pchain h' (next_pseudoop (h ! t)) ys = pchain h (next_pseudoop (h ! t)) ys"
    using Nil by (intro pchain_cong) auto
  with Nil show ?case by simp
next
  case (Cons x xs)
  have "b \<noteq> last (x # xs)" using Cons.prems(2) last_in_set [of "x # xs"] by auto
  with Cons.prems(1,4) have b: "next_pseudoop (h' ! b) = Some x" by simp
  have "pchain h' (next_pseudoop (h' ! x)) (xs @ ys)"
    using Cons.prems by (intro Cons.IH) auto
  with b Cons.prems(1,3) show ?case by simp
qed

lemma pchain_append:
  assumes "pchain h (next_pseudoop (h ! b)) L" "distinct (b # L)" "t \<notin> set (b # L)" "t < length h"
    and "length h' = length h" "next_pseudoop (h' ! t) = None"
    and "\<And>c. c \<in> set (b # L) \<Longrightarrow> next_pseudoop (h' ! c) = (if c = last (b # L) then Some t else next_pseudoop (h ! c))"
  shows "pchain h' (next_pseudoop (h' ! b)) (L @ [t])"
  using assms
proof (induction L arbitrary: b)
  case (Cons x xs)
  have "b \<noteq> last (x # xs)" using Cons.prems(2) last_in_set [of "x # xs"] by auto
  with Cons.prems(1,7) have b: "next_pseudoop (h' ! b) = Some x" by simp
  have "pchain h' (next_pseudoop (h' ! x)) (xs @ [t])"
    using Cons.prems by (intro Cons.IH) auto
  with b Cons.prems(1,5) show ?case by simp
qed simp

lemma find_pseudo_pchain:
  assumes "pchain h n L" "length L \<le> k" "\<And>c. c \<in> set L \<Longrightarrow> args (h ! c) ! 0 = VInst b"
  shows "find_pseudo k h b p n = Some (find (\<lambda>c. opc (h ! c) = p) L)"
  using assms
proof (induction L arbitrary: n k)
  case Nil
  then show ?case by (cases k) auto
next
  case (Cons c L)
  then obtain m where "k = Suc m" by (cases k) auto
  with Cons show ?case by (auto simp: GetInst_def)
qed

subsection \<open>Clearing the arguments\<close>

text \<open>What \<^const>\<open>ClearArgs\<close> leaves behind, apart from the pseudo-operation lists.\<close>

definition cleared :: "heap \<Rightarrow> nat \<Rightarrow> heap \<Rightarrow> bool" where
  "cleared h a h' \<longleftrightarrow> length h' = length h
     \<and> (\<forall>x<length h. opc (h' ! x) = opc (h ! x)
          \<and> args (h' ! x) = (if x = a then replicate 4 VEmpty else args (h ! x))
          \<and> use_count (h' ! x) = use_count (h ! x)
              - (if nonimm h (VInst x) then of_nat (count_list (args (h ! a)) (VInst x)) else 0))"

lemma IsImmediate_VEmpty [simp]: "IsImmediate h VEmpty = Some True"
  by (simp add: IsImmediate_def)

lemma clear_slots_plain:
  assumes "ranked h r" "a < length h" "\<not> IsAPseudoOperation (opc (h ! a))" "opc (h ! a) \<noteq> ''Identity''"
    and "distinct is" "set is \<subseteq> {..<4}"
  shows "\<exists>h'. clear_slots h a is = Some h' \<and> length h' = length h
     \<and> (\<forall>x. opc (h' ! x) = opc (h ! x) \<and> next_pseudoop (h' ! x) = next_pseudoop (h ! x)
          \<and> (x \<noteq> a \<longrightarrow> args (h' ! x) = args (h ! x)))
     \<and> length (args (h' ! a)) = 4
     \<and> (\<forall>j<4. args (h' ! a) ! j = (if j \<in> set is then VEmpty else args (h ! a) ! j))
     \<and> (\<forall>x<length h. use_count (h' ! x) = use_count (h ! x)
          - (\<Sum>i\<leftarrow>is. of_bool (nonimm h (VInst x) \<and> args (h ! a) ! i = VInst x)))"
  using assms
proof (induction "is" arbitrary: h)
  case Nil
  then show ?case by (simp add: ranked_length)
next
  case (Cons i "is")
  let ?v = "args (h ! a) ! i"
  have i4: "i < 4" using Cons.prems by simp
  have v: "valid_value h ?v" using ranked_arg [OF Cons.prems(1,2) i4] by (rule below_valid)
  obtain h1 where h1: "(if \<not> (\<not> nonimm h ?v) then inst_UndoUse h a ?v else Some h) = Some h1"
    and h1m: "length h1 = length h" "\<And>x. opc (h1 ! x) = opc (h ! x)" "\<And>x. args (h1 ! x) = args (h ! x)"
      "\<And>x. next_pseudoop (h1 ! x) = next_pseudoop (h ! x)"
      "\<And>x. x < length h \<Longrightarrow> use_count (h1 ! x) = use_count (h ! x) - of_bool (nonimm h (VInst x) \<and> ?v = VInst x)"
  proof (cases "nonimm h ?v")
    case True
    then obtain b where "?v = VInst b" using nonimm_VInst by blast
    with True Cons.prems(3) that show ?thesis by (auto simp: inst_UndoUse_plain upd_member nth_upd)
  next
    case False
    then have "\<not> (nonimm h (VInst x) \<and> ?v = VInst x)" for x by auto
    with False that show ?thesis by simp
  qed
  let ?h2 = "set_slot h1 a i VEmpty"
  have a2: "args (?h2 ! x) = (if x = a then (args (h ! a))[i := VEmpty] else args (h ! x))" for x
    using Cons.prems(2) h1m by (simp add: set_slot_args)
  have ids: "same_ids h ?h2" using h1m Cons.prems(4) by (auto simp: same_ids_def a2)
  have "ranked ?h2 r"
    unfolding ranked_alt
  proof (intro allI impI conjI ballI)
    fix x assume "x < length ?h2"
    then have x: "x < length h" using h1m by simp
    show "r x < length ?h2" "length (args (?h2 ! x)) = 4"
      using Cons.prems(1) x h1m by (auto simp: ranked_alt a2)
    fix u assume "u \<in> set (args (?h2 ! x))"
    then have "u \<in> set (args (h ! x)) \<or> u = VEmpty"
      using set_update_subset_insert [of "args (h ! a)" i VEmpty] by (auto simp: a2 split: if_splits)
    then show "below ?h2 r (r x) u"
      using Cons.prems(1) x h1m by (auto simp: ranked_alt below_def split: ir_value.splits)
  qed
  then obtain h' where h': "clear_slots ?h2 a is = Some h'" "length h' = length h"
    "\<forall>x. opc (h' ! x) = opc (h ! x) \<and> next_pseudoop (h' ! x) = next_pseudoop (h ! x)
          \<and> (x \<noteq> a \<longrightarrow> args (h' ! x) = args (h ! x))"
    "length (args (h' ! a)) = 4"
    "\<forall>j<4. args (h' ! a) ! j = (if j \<in> set is then VEmpty else args (?h2 ! a) ! j)"
    "\<forall>x<length h. use_count (h' ! x) = use_count (h1 ! x)
          - (\<Sum>i\<leftarrow>is. of_bool (nonimm ?h2 (VInst x) \<and> args (?h2 ! a) ! i = VInst x))"
    using Cons.IH [of ?h2] Cons.prems h1m by (auto simp: a2)
  have keep: "args (?h2 ! a) ! j = args (h ! a) ! j" if "j \<in> set is" for j
  proof -
    have "j \<noteq> i" using that Cons.prems(5) by auto
    then show ?thesis by (simp add: a2)
  qed
  have "(\<Sum>i\<leftarrow>is. of_bool (nonimm ?h2 (VInst x) \<and> args (?h2 ! a) ! i = VInst x) :: u32)
      = (\<Sum>i\<leftarrow>is. of_bool (nonimm h (VInst x) \<and> args (h ! a) ! i = VInst x))" if "x < length h" for x
    using that nonimm_cong [OF Cons.prems(1) ids, of "VInst x"]
    by (intro arg_cong [of _ _ sum_list] map_cong) (auto simp: keep)
  with h' have "\<forall>x<length h. use_count (h' ! x) = use_count (h ! x)
          - (\<Sum>i\<leftarrow>i # is. of_bool (nonimm h (VInst x) \<and> args (h ! a) ! i = VInst x))"
    using h1m(5) by (simp add: algebra_simps)
  moreover have "\<forall>j<4. args (h' ! a) ! j = (if j \<in> set (i # is) then VEmpty else args (h ! a) ! j)"
    using h'(5) ranked_length [OF Cons.prems(1,2)] by (auto simp: a2 nth_list_update)
  moreover have "clear_slots h a (i # is) = Some h'"
    using h1 h'(1) IsImmediate_eq [OF Cons.prems(1) v] by (auto simp del: not_not)
  ultimately show ?case using h' by blast
qed

lemma count_list_4:
  assumes "length as = 4"
  shows "(\<Sum>i\<leftarrow>[0..<4]. of_bool (P \<and> as ! i = v)) = ((if P then of_nat (count_list as v) else 0) :: u32)"
proof -
  obtain p q s t where "as = [p, q, s, t]"
    using assms by (auto simp: length_Suc_conv numeral_eq_Suc)
  then show ?thesis by (simp add: upt_rec)
qed

lemma ClearArgs_plain:
  assumes "ranked h r" "a < length h" "\<not> IsAPseudoOperation (opc (h ! a))" "opc (h ! a) \<noteq> ''Identity''"
  obtains h' where "ClearArgs h a = Some h'" "cleared h a h'"
    "\<And>x. next_pseudoop (h' ! x) = next_pseudoop (h ! x)"
proof -
  obtain h' where h': "clear_slots h a [0..<4] = Some h'" "length h' = length h"
    "\<And>x. opc (h' ! x) = opc (h ! x)" "\<And>x. next_pseudoop (h' ! x) = next_pseudoop (h ! x)"
    "\<And>x. x \<noteq> a \<Longrightarrow> args (h' ! x) = args (h ! x)" "length (args (h' ! a)) = 4"
    "\<And>j. j < 4 \<Longrightarrow> args (h' ! a) ! j = VEmpty"
    "\<And>x. x < length h \<Longrightarrow> use_count (h' ! x) = use_count (h ! x)
          - (\<Sum>i\<leftarrow>[0..<4]. of_bool (nonimm h (VInst x) \<and> args (h ! a) ! i = VInst x))"
    using clear_slots_plain [OF assms, of "[0..<4]"] by (auto simp: atLeast0LessThan)
  have "args (h' ! a) = replicate 4 VEmpty"
    using h'(6,7) by (intro nth_equalityI) auto
  with h' have "cleared h a h'"
    by (simp add: cleared_def count_list_4 [OF ranked_length [OF assms(1,2)]])
  with h' that show ?thesis by (simp add: ClearArgs_def max_arg_count_def)
qed

text \<open>An instruction of one argument, as the identities and the pseudo-operations are.\<close>

lemma set_slot_empty_again:
  "a < length h \<Longrightarrow> args (h ! a) ! i = VEmpty \<Longrightarrow> i < length (args (h ! a)) \<Longrightarrow> set_slot h a i VEmpty = h"
proof -
  assume "a < length h" "args (h ! a) ! i = VEmpty" "i < length (args (h ! a))"
  then have "(args (h ! a))[i := VEmpty] = args (h ! a)" by (metis list_update_id)
  then show ?thesis by (simp add: set_slot_def upd_def)
qed

lemma ClearArgs_unary:
  assumes "a < length h" "args (h ! a) = [v, VEmpty, VEmpty, VEmpty]"
  shows "ClearArgs h a = do {
     imm \<leftarrow> IsImmediate h v;
     h1 \<leftarrow> (if \<not> imm then inst_UndoUse h a v else Some h);
     Some (set_slot h1 a 0 VEmpty) }"
proof -
  have *: "clear_slots (set_slot h1 a 0 VEmpty) a [1, 2, 3] = Some (set_slot h1 a 0 VEmpty)"
    if "length h1 = length h" "args (h1 ! a) = args (h ! a)" for h1
  proof -
    have "args (set_slot h1 a 0 VEmpty ! a) = replicate 4 VEmpty"
      using assms that by (simp add: set_slot_args numeral_eq_Suc)
    then show ?thesis using assms(1) that(1) by (simp add: set_slot_empty_again)
  qed
  have "[0..<max_arg_count] = [0, 1, 2, 3]" by (simp add: max_arg_count_def upt_rec)
  then have "ClearArgs h a = clear_slots h a (0 # [1, 2, 3])" by (simp only: ClearArgs_def)
  then show ?thesis
    using assms * inst_UndoUse_frame [of h a v]
    by (auto simp del: One_nat_def clear_slots.simps(2) simp: clear_slots.simps(2) [of h a 0]
        split: bind_splits)
qed

text \<open>What \<^const>\<open>ClearArgs\<close> does to the pseudo-operation lists.\<close>

definition unlinked_from :: "heap \<Rightarrow> nat \<Rightarrow> nat \<Rightarrow> nat list \<Rightarrow> nat list \<Rightarrow> heap \<Rightarrow> bool" where
  "unlinked_from h a b xs ys h' \<longleftrightarrow>
     args (h ! a) ! 0 = VInst b \<and> b < length h \<and> \<not> IsAPseudoOperation (opc (h ! b))
     \<and> pchain h (next_pseudoop (h ! b)) (xs @ a # ys) \<and> distinct (xs @ a # ys)
     \<and> set (xs @ a # ys) = Collect (observes h b)
     \<and> (\<forall>c<length h. next_pseudoop (h' ! c) =
           (if c = a then None else if c = last (b # xs) then next_pseudoop (h ! a) else next_pseudoop (h ! c)))"

definition unlinked :: "heap \<Rightarrow> nat \<Rightarrow> heap \<Rightarrow> bool" where
  "unlinked h a h' \<longleftrightarrow>
     (if IsAPseudoOperation (opc (h ! a)) \<and> nonimm h (args (h ! a) ! 0)
      then (\<exists>b xs ys. unlinked_from h a b xs ys h')
      else (\<forall>c<length h. next_pseudoop (h' ! c) = next_pseudoop (h ! c)))"

lemma pseudo_arity: "IsAPseudoOperation p \<Longrightarrow> \<exists>t s. opcode_meta p = Some (t, [s])"
  by (auto simp: IsAPseudoOperation_def switch_case_iff)

lemma pseudo_not_identity: "IsAPseudoOperation p \<Longrightarrow> p \<noteq> ''Identity'' \<and> p \<noteq> ''Void''"
  by auto

lemma list4_empty:
  assumes "length xs = 4" "\<And>i. i < 4 \<Longrightarrow> 1 \<le> i \<Longrightarrow> xs ! i = e"
  shows "xs = [xs ! 0, e, e, e]"
  using assms(2) [of 1] assms(2) [of 2] assms(2) [of 3] assms(1)
  by (auto simp: length_Suc_conv numeral_eq_Suc)

lemma unary_args:
  assumes "typed h" "ranked h r" "a < length h" "opcode_meta (opc (h ! a)) = Some (t, [s])"
  shows "args (h ! a) = [args (h ! a) ! 0, VEmpty, VEmpty, VEmpty]"
  using assms by (intro list4_empty) (auto simp: typed_def args_typed_def max_arg_count_def ranked_length)

lemma parent_chain:
  assumes "wf_heap h r" "a < length h" "IsAPseudoOperation (opc (h ! a))" "nonimm h (args (h ! a) ! 0)"
  obtains b xs ys where "args (h ! a) ! 0 = VInst b" "b < length h" "\<not> IsAPseudoOperation (opc (h ! b))"
    "pchain h (next_pseudoop (h ! b)) (xs @ a # ys)" "distinct (xs @ a # ys)"
    "set (xs @ a # ys) = Collect (observes h b)"
proof -
  have rk: "ranked h r" and ch: "chained h" and ct: "counted h" using assms(1) by (auto simp: wf_heap_def)
  obtain b where b: "args (h ! a) ! 0 = VInst b" using nonimm_VInst [OF assms(4)] by blast
  have bl: "b < length h" using ranked_arg [OF rk assms(2), of 0] b by simp
  have "VInst b \<in> set (args (h ! a))"
    using b ranked_length [OF rk assms(2)] nth_mem [of 0 "args (h ! a)"] by auto
  then have "0 < slots h b" using assms(2) by (auto simp: slots_pos)
  with ct bl have nv: "opc (h ! b) \<noteq> ''Void''" by (auto simp: counted_def split: if_splits)
  have ob: "observes h b a" using assms(2,3) b by (simp add: observes_def)
  with ch assms(2) bl have np: "\<not> IsAPseudoOperation (opc (h ! b))" by (auto simp: chained_def)
  with ch bl nv assms(4) b have "chain_ok h b" by (simp add: chained_def)
  then obtain L where L: "pchain h (next_pseudoop (h ! b)) L" "distinct L" "set L = Collect (observes h b)"
    by (auto simp: chain_ok_def)
  then obtain xs ys where "L = xs @ a # ys" using ob split_list [of a L] by auto
  with L b bl np that show ?thesis by blast
qed

lemma UndoUse_pseudo:
  assumes "wf_heap h r" "a < length h" "IsAPseudoOperation (opc (h ! a))" "nonimm h (args (h ! a) ! 0)"
  obtains h' where "inst_UndoUse h a (args (h ! a) ! 0) = Some h'" "unlinked h a h'"
proof -
  obtain b xs ys where p: "args (h ! a) ! 0 = VInst b" "b < length h" "\<not> IsAPseudoOperation (opc (h ! b))"
    "pchain h (next_pseudoop (h ! b)) (xs @ a # ys)" "distinct (xs @ a # ys)"
    "set (xs @ a # ys) = Collect (observes h b)"
    using parent_chain [OF assms] by blast
  let ?h1 = "upd h b (\<lambda>x. x\<lparr>use_count := use_count x - 1\<rparr>)"
  have nx1: "next_pseudoop (?h1 ! x) = next_pseudoop (h ! x)" for x by (rule upd_member) simp
  have op1: "opc (?h1 ! x) = opc (h ! x)" for x by (rule upd_member) simp
  have "length xs \<le> length h" using pchain_length [OF p(4,5)] by simp
  moreover have "pchain ?h1 (next_pseudoop (?h1 ! b)) (xs @ a # ys)"
    using p(4) pchain_cong [of ?h1 h "xs @ a # ys"] by (simp add: nx1)
  ultimately have cp: "chain_pred (length h) ?h1 b a = Some (last (b # xs))"
    using p(5) by (intro chain_pred_pchain) auto
  define q where "q = last (b # xs)"
  have qa: "q \<noteq> a" "q < length h"
  proof -
    have "q \<in> set (b # xs)" unfolding q_def by (rule last_in_set) simp
    moreover have "a \<noteq> b" using p(3) assms(3) by auto
    ultimately show "q \<noteq> a" "q < length h" using p(2,5) pchain_less [OF p(4)] by auto
  qed
  let ?h' = "upd (upd ?h1 q (\<lambda>x. x\<lparr>next_pseudoop := next_pseudoop (?h1 ! a)\<rparr>)) a (\<lambda>x. x\<lparr>next_pseudoop := None\<rparr>)"
  have "inst_UndoUse h a (args (h ! a) ! 0) = Some ?h'"
    using assms(3) cp by (simp add: inst_UndoUse_def p(1) GetInst_def op1 q_def Let_def)
  moreover have "\<forall>c<length h. next_pseudoop (?h' ! c) =
      (if c = a then None else if c = last (b # xs) then next_pseudoop (h ! a) else next_pseudoop (h ! c))"
    unfolding q_def [symmetric] using assms(2) qa by (auto simp: nx1 nth_upd)
  with p have "unlinked_from h a b xs ys ?h'" unfolding unlinked_from_def by blast
  then have "unlinked h a ?h'" using assms(3,4) by (auto simp: unlinked_def)
  ultimately show ?thesis using that by blast
qed

lemma ClearArgs_effect:
  assumes "wf_heap h r" "a < length h"
  obtains h' where "ClearArgs h a = Some h'" "cleared h a h'" "unlinked h a h'"
proof -
  have rk: "ranked h r" and ty: "typed h" using assms(1) by (auto simp: wf_heap_def)
  let ?v = "args (h ! a) ! 0"
  consider (plain) "\<not> IsAPseudoOperation (opc (h ! a))" "opc (h ! a) \<noteq> ''Identity''"
    | (unary) t s where "opcode_meta (opc (h ! a)) = Some (t, [s])"
    using pseudo_arity by fastforce
  then show ?thesis
  proof cases
    case plain
    obtain h' where h': "ClearArgs h a = Some h'" "cleared h a h'"
      "\<And>x. next_pseudoop (h' ! x) = next_pseudoop (h ! x)"
      using ClearArgs_plain [OF rk assms(2) plain] by blast
    then have "unlinked h a h'" using plain by (simp add: unlinked_def)
    with h' that show ?thesis by blast
  next
    case unary
    have ar: "args (h ! a) = [?v, VEmpty, VEmpty, VEmpty]" by (rule unary_args [OF ty rk assms(2) unary])
    have v: "valid_value h ?v" using ranked_arg [OF rk assms(2), of 0] by (auto intro: below_valid)
    obtain h1 where h1: "(if \<not> (\<not> nonimm h ?v) then inst_UndoUse h a ?v else Some h) = Some h1"
      and un: "unlinked h a h1" and len: "length h1 = length h"
      and m: "\<And>x. opc (h1 ! x) = opc (h ! x)" "\<And>x. args (h1 ! x) = args (h ! x)"
      "\<And>x. x < length h \<Longrightarrow> use_count (h1 ! x) = use_count (h ! x) - of_bool (nonimm h ?v \<and> ?v = VInst x)"
    proof (cases "nonimm h ?v")
      case True
      show ?thesis
      proof (cases "IsAPseudoOperation (opc (h ! a))")
        case pseudo: True
        obtain h1 where "inst_UndoUse h a ?v = Some h1" "unlinked h a h1"
          using UndoUse_pseudo [OF assms pseudo True] by blast
        with True that inst_UndoUse_frame [of h a ?v h1] show ?thesis by simp
      next
        case False
        obtain b where "?v = VInst b" using nonimm_VInst [OF True] by blast
        with True False show ?thesis
          by (intro that [of "upd h b (\<lambda>x. x\<lparr>use_count := use_count x - 1\<rparr>)"])
            (auto simp: inst_UndoUse_plain upd_member nth_upd unlinked_def)
      qed
    next
      case False
      then show ?thesis by (intro that [of h]) (simp_all add: unlinked_def)
    qed
    let ?h' = "set_slot h1 a 0 VEmpty"
    have "ClearArgs h a = Some ?h'"
      using ClearArgs_unary [OF assms(2) ar] IsImmediate_eq [OF rk v] h1 by (auto simp del: not_not)
    moreover have "unlinked h a ?h'"
      using un unfolding unlinked_def unlinked_from_def by (simp only: set_slot_members)
    moreover have "cleared h a ?h'"
    proof -
      have "(if nonimm h (VInst x) then of_nat (count_list (args (h ! a)) (VInst x)) else 0)
          = (of_bool (nonimm h ?v \<and> ?v = VInst x) :: u32)" for x
        by (subst ar) auto
      moreover have "args (?h' ! a) = replicate 4 VEmpty"
        using assms(2) len m(2) by (simp add: set_slot_args) (subst ar, simp add: numeral_eq_Suc)
      ultimately show ?thesis using len m by (simp add: cleared_def)
    qed
    ultimately show ?thesis using that by blast
  qed
qed

text \<open>The lists stay correct when an instruction leaves them and stops being a pseudo-operation.\<close>

lemma chain_ok_unlinked:
  assumes un: "unlinked h a h'" and len: "length h' = length h"
    and obs: "\<And>c. observes h' b c \<longleftrightarrow> observes h b c \<and> c \<noteq> a"
    and b: "b < length h" "b \<noteq> a" "nonimm h (VInst b)" "\<not> IsAPseudoOperation (opc (h ! b))" "chain_ok h b"
  shows "chain_ok h' b"
proof (cases "IsAPseudoOperation (opc (h ! a)) \<and> nonimm h (args (h ! a) ! 0)")
  case True
  then obtain p xs ys where f: "unlinked_from h a p xs ys h'" using un by (auto simp: unlinked_def)
  then have p: "args (h ! a) ! 0 = VInst p" "p < length h" "\<not> IsAPseudoOperation (opc (h ! p))"
    "pchain h (next_pseudoop (h ! p)) (xs @ a # ys)" "distinct (xs @ a # ys)"
    "set (xs @ a # ys) = Collect (observes h p)"
    and nx: "\<And>c. c < length h \<Longrightarrow> next_pseudoop (h' ! c) =
      (if c = a then None else if c = last (p # xs) then next_pseudoop (h ! a) else next_pseudoop (h ! c))"
    by (simp_all add: unlinked_from_def)
  have obp: "observes h p c" if "c \<in> set (xs @ a # ys)" for c using that p(6) by blast
  then have pn: "p \<notin> set (xs @ a # ys)" using p(3) by (auto simp: observes_def)
  show ?thesis
  proof (cases "b = p")
    case True
    have "pchain h' (next_pseudoop (h' ! p)) (xs @ ys)"
    proof (rule pchain_unlink [OF p(4) _ len])
      show "distinct (p # xs @ a # ys)" using p(5) pn by simp
      fix c assume "c \<in> set (p # xs @ ys)"
      then have "c \<noteq> a" "c < length h" using p(2,5) pn pchain_less [OF p(4)] by auto
      then show "next_pseudoop (h' ! c) = (if c = last (p # xs) then next_pseudoop (h ! a) else next_pseudoop (h ! c))"
        by (simp add: nx)
    qed
    moreover have "set (xs @ ys) = Collect (observes h' p)" using p(5,6) obs True by auto
    ultimately show ?thesis using p(5) unfolding chain_ok_def True by (intro exI [of _ "xs @ ys"]) auto
  next
    case False
    obtain L where L: "pchain h (next_pseudoop (h ! b)) L" "distinct L" "set L = Collect (observes h b)"
      using b(5) by (auto simp: chain_ok_def)
    have ql: "last (p # xs) = p \<or> observes h p (last (p # xs))"
      using obp last_in_set [of "p # xs"] by fastforce
    have *: "next_pseudoop (h' ! c) = next_pseudoop (h ! c)" if "c = b \<or> c \<in> set L" for c
    proof -
      have "c < length h" using that b(1) pchain_less [OF L(1)] by auto
      moreover have "c \<noteq> a" using that b(2) L(3) p(1) False by (auto simp: observes_def)
      moreover have "c \<noteq> last (p # xs)"
        using that ql L(3) False b(4) p(3) by (auto simp: observes_def)
      ultimately show ?thesis by (simp add: nx)
    qed
    then have "pchain h' (next_pseudoop (h' ! b)) L" using L(1) pchain_cong [OF len, of L] by simp
    moreover have "a \<notin> set L" using L(3) p(1) False by (auto simp: observes_def)
    then have "set L = Collect (observes h' b)" using L(3) obs by auto
    ultimately show ?thesis using L(2) by (auto simp: chain_ok_def)
  qed
next
  case False
  then have nx: "\<And>c. c < length h \<Longrightarrow> next_pseudoop (h' ! c) = next_pseudoop (h ! c)"
    using un by (simp only: unlinked_def if_False)
  have "\<not> observes h b a" using False b(3) by (auto simp: observes_def)
  then have "observes h' b = observes h b" using obs by blast
  moreover obtain L where L: "pchain h (next_pseudoop (h ! b)) L" "distinct L" "set L = Collect (observes h b)"
    using b(5) by (auto simp: chain_ok_def)
  moreover have "pchain h' (next_pseudoop (h' ! b)) L"
    using L(1) b(1) nx pchain_less [OF L(1)] pchain_cong [OF len, of L] by simp
  ultimately show ?thesis by (auto simp: chain_ok_def)
qed

lemma chained_removed:
  assumes "chained h" "unlinked h a h'" "a < length h" and len: "length h' = length h"
    and op: "\<And>x. x < length h \<Longrightarrow> x \<noteq> a \<Longrightarrow> opc (h' ! x) = opc (h ! x) \<and> args (h' ! x) = args (h ! x)"
    and np: "\<not> IsAPseudoOperation (opc (h' ! a))"
    and ni: "\<And>x. x < length h \<Longrightarrow> x \<noteq> a \<Longrightarrow> nonimm h' (VInst x) \<Longrightarrow> nonimm h (VInst x)"
    and self: "opc (h' ! a) \<noteq> ''Void'' \<Longrightarrow> nonimm h' (VInst a) \<Longrightarrow> chain_ok h' a"
  shows "chained h'"
proof -
  have obs: "observes h' b c \<longleftrightarrow> observes h b c \<and> c \<noteq> a" for b c
    using op np by (cases "c = a") (auto simp: observes_def len)
  show ?thesis
    unfolding chained_def
  proof (intro conjI allI impI)
    fix b assume "b < length h'" "nonimm h' (VInst b)" "opc (h' ! b) \<noteq> ''Void''" "\<not> IsAPseudoOperation (opc (h' ! b))"
    then show "chain_ok h' b"
      using self assms(1) op ni
      by (cases "b = a") (auto intro!: chain_ok_unlinked [OF assms(2) len obs] simp: len chained_def)
  next
    fix c b assume "c < length h'" "b < length h'" "observes h' b c"
    then show "\<not> IsAPseudoOperation (opc (h' ! b))"
      using assms(1) op [of b] np obs by (cases "b = a") (auto simp: chained_def len)
  qed
qed

text \<open>The list of an instruction that becomes an identity.\<close>

lemma chain_ok_self:
  assumes "wf_heap h r" "a < length h" "opc (h ! a) \<noteq> ''Identity''" "opc (h ! a) \<noteq> ''Void''"
    and "unlinked h a h'" and len: "length h' = length h"
    and op: "\<And>x. x < length h \<Longrightarrow> x \<noteq> a \<Longrightarrow> opc (h' ! x) = opc (h ! x) \<and> args (h' ! x) = args (h ! x)"
    and np: "\<not> IsAPseudoOperation (opc (h' ! a))"
    and "IsAPseudoOperation (opc (h ! a)) \<Longrightarrow> nonimm h (args (h ! a) ! 0)"
  shows "chain_ok h' a"
proof -
  have ch: "chained h" using assms(1) by (simp add: wf_heap_def)
  show ?thesis
  proof (cases "IsAPseudoOperation (opc (h ! a))")
    case True
    with assms(9) obtain b xs ys where "unlinked_from h a b xs ys h'"
      using assms(5) by (auto simp: unlinked_def)
    then have "next_pseudoop (h' ! a) = None" using assms(2) by (simp add: unlinked_from_def)
    moreover have "\<not> observes h a c" for c
      using True ch assms(2) unfolding chained_def by (metis observes_def)
    then have "\<not> observes h' a c" for c
      using op [of c] np by (cases "c = a") (auto simp: observes_def len)
    ultimately show ?thesis by (auto simp: chain_ok_def)
  next
    case False
    then have nx: "\<And>c. c < length h \<Longrightarrow> next_pseudoop (h' ! c) = next_pseudoop (h ! c)"
      using assms(5) by (simp add: unlinked_def)
    have "chain_ok h a" using ch assms(2-4) False by (simp add: chained_def)
    then obtain L where L: "pchain h (next_pseudoop (h ! a)) L" "distinct L" "set L = Collect (observes h a)"
      by (auto simp: chain_ok_def)
    have "pchain h' (next_pseudoop (h' ! a)) L"
      using L(1) assms(2) nx pchain_less [OF L(1)] pchain_cong [OF len, of L] by simp
    moreover have "observes h' a c \<longleftrightarrow> observes h a c" for c
      using op [of c] np False by (cases "c = a") (auto simp: observes_def len)
    ultimately show ?thesis using L(2,3) by (auto simp: chain_ok_def)
  qed
qed


subsection \<open>Replacing an instruction by an identity\<close>

definition replaced :: "heap \<Rightarrow> nat \<Rightarrow> ir_value \<Rightarrow> heap \<Rightarrow> bool" where
  "replaced h a v h' \<longleftrightarrow> length h' = length h
     \<and> (\<forall>x<length h. opc (h' ! x) = (if x = a then ''Identity'' else opc (h ! x))
          \<and> args (h' ! x) = (if x = a then [v, VEmpty, VEmpty, VEmpty] else args (h ! x))
          \<and> use_count (h' ! x) = use_count (h ! x)
              - (if nonimm h (VInst x) then of_nat (count_list (args (h ! a)) (VInst x)) else 0)
              + of_bool (nonimm h v \<and> v = VInst x))"

lemma chase_below_cong:
  assumes "ranked h r" "length h' = length h"
    and "\<And>x. x < length h \<Longrightarrow> x \<noteq> a \<Longrightarrow> opc (h' ! x) = opc (h ! x) \<and> args (h' ! x) = args (h ! x)"
    and "below h r (r a) v"
  shows "chase h' v = chase h v"
proof -
  have ident: "IsIdentity h' u = IsIdentity h u" if "below h r (r a) u" for u
  proof (cases u)
    case (VInst b)
    with that have "b \<noteq> a" "b < length h" by auto
    with VInst assms(3) show ?thesis by simp
  qed auto
  have "chase_fuel n h' v = chase_fuel n h v" for n
    using assms(4)
  proof (induction n arbitrary: v)
    case 0
    with ident show ?case by (simp add: chase_fuel.simps [of 0])
  next
    case (Suc n)
    show ?case
    proof (cases "IsIdentity h v")
      case True
      then obtain b where v: "v = VInst b" "opc (h ! b) = ''Identity''" by (rule IsIdentityE)
      with Suc.prems have b: "b < length h" "r b < r a" by auto
      then have "b \<noteq> a" by auto
      with b assms(3) v have "opc (h' ! b) = ''Identity''" "args (h' ! b) = args (h ! b)" by auto
      moreover have "below h r (r a) (args (h ! b) ! 0)"
        using ranked_arg [OF assms(1) b(1), of 0] b(2) by (auto intro: below_mono)
      ultimately show ?thesis using v by (simp add: chase_fuel_identity Suc.IH)
    next
      case False
      with Suc.prems ident have "\<not> IsIdentity h' v" by simp
      with False show ?thesis by (simp add: chase_fuel_other)
    qed
  qed
  with assms(2) show ?thesis by (simp add: chase_def)
qed

lemma ranked_replaced:
  assumes "ranked h r" "a < length h" "replaced h a v h'" "below h r (r a) v"
  shows "ranked h' r"
  using assms by (auto simp: ranked_alt replaced_def below_def split: ir_value.splits)

lemma chase_replaced:
  assumes "ranked h r" "a < length h" "replaced h a v h'" "below h r (r a) v"
    and "opc (h ! a) \<noteq> ''Identity''" "valid_value h u"
  shows "chase h' u = (if chase h u = Some (VInst a) then chase h v else chase h u)"
proof -
  have len: "length h' = length h"
    and op: "\<And>x. x < length h \<Longrightarrow> x \<noteq> a \<Longrightarrow> opc (h' ! x) = opc (h ! x) \<and> args (h' ! x) = args (h ! x)"
    and at: "opc (h' ! a) = ''Identity''" "args (h' ! a) ! 0 = v"
    using assms(2,3) by (auto simp: replaced_def)
  have r': "ranked h' r" by (rule ranked_replaced [OF assms(1-4)])
  have v: "chase h' v = chase h v" by (rule chase_below_cong [OF assms(1) len op assms(4)])
  from assms(1) valid_below [OF assms(1,6)] show ?thesis
  proof (induction rule: below_induct)
    case (other u)
    show ?case
    proof (cases "u = VInst a")
      case True
      with other at chase_identity [OF r', of a] assms(2) len v show ?thesis by simp
    next
      case False
      then have "\<not> IsIdentity h' u" using other op by (cases u) auto
      with other False show ?thesis by simp
    qed
  next
    case (identity b)
    then have "b \<noteq> a" using assms(5) by auto
    with identity op [of b] len chase_identity [OF r', of b] chase_identity [OF assms(1), of b]
    show ?case by simp
  qed
qed

lemma nonimm_replaced:
  assumes "ranked h r" "a < length h" "replaced h a v h'" "below h r (r a) v"
    and "opc (h ! a) \<noteq> ''Identity''" "valid_value h u"
  shows "nonimm h' u = (if chase h u = Some (VInst a) then nonimm h v else nonimm h u)"
  using chase_replaced [OF assms] by (simp add: nonimm_def)

lemma not_above:
  assumes "ranked h r" "below h r (r a) v"
  shows "chase h v \<noteq> Some (VInst a)"
  using chase_result [OF assms] by fastforce

lemma GetType_replaced:
  assumes "ranked h r" "a < length h" "replaced h a v h'" "below h r (r a) v"
    and "opc (h ! a) \<noteq> ''Identity''" "valid_value h u"
    and ty: "GetType h v = GetType h (VInst a)"
  shows "GetType h' u = GetType h u"
proof -
  have op: "\<And>x. x < length h \<Longrightarrow> x \<noteq> a \<Longrightarrow> opc (h' ! x) = opc (h ! x)"
    using assms(3) by (auto simp: replaced_def)
  have *: "(case w of VInst b \<Rightarrow> GetTypeOf (opc (h' ! b)) | _ \<Rightarrow> Some (value_type w))
      = (case w of VInst b \<Rightarrow> GetTypeOf (opc (h ! b)) | _ \<Rightarrow> Some (value_type w))"
    if "valid_value h w" "w \<noteq> VInst a" for w
    using that op by (cases w) auto
  have valid: "valid_value h w" if "chase h x = Some w" "valid_value h x" for x w
    using chase_result [OF assms(1) valid_below [OF assms(1) that(2)] that(1)] by (auto intro: below_valid)
  show ?thesis
  proof (cases "chase h u = Some (VInst a)")
    case True
    obtain w where w: "chase h v = Some w"
      using chase_total [OF assms(1) below_valid [OF assms(4)]] by blast
    have "w \<noteq> VInst a" "valid_value h w"
      using not_above [OF assms(1,4)] w valid [OF w below_valid [OF assms(4)]] by auto
    with True w have "GetType h' u = GetType h v"
      using * by (simp add: GetType_def chase_replaced [OF assms(1-6)])
    moreover have "GetType h u = GetType h (VInst a)"
      using True assms(5) by (simp add: GetType_def)
    ultimately show ?thesis using ty by simp
  next
    case False
    obtain w where w: "chase h u = Some w" using chase_total [OF assms(1,6)] by blast
    with False * valid [OF w assms(6)] show ?thesis
      by (simp add: GetType_def chase_replaced [OF assms(1-6)])
  qed
qed

lemma counted_replaced:
  assumes "ranked h r" "a < length h" "replaced h a v h'" "below h r (r a) v"
    and "opc (h ! a) \<noteq> ''Identity''" "opc (h ! a) \<noteq> ''Void''"
    and "counted h" "storable h v" "length h < 2 ^ 30"
  shows "counted h'"
  unfolding counted_def
proof (intro allI impI)
  fix x assume "x < length h'"
  then have x: "x < length h" and op: "opc (h' ! x) = (if x = a then ''Identity'' else opc (h ! x))"
    and uc: "use_count (h' ! x) = use_count (h ! x)
              - (if nonimm h (VInst x) then of_nat (count_list (args (h ! a)) (VInst x)) else 0)
              + of_bool (nonimm h v \<and> v = VInst x)"
    using assms(3) by (auto simp: replaced_def)
  let ?c = "count_list (args (h ! a)) (VInst x)"
  have "slots h' x + ?c = slots h x + count_list [v, VEmpty, VEmpty, VEmpty] (VInst x)"
    using assms(2,3) slots_change [of h' h a x] by (simp add: replaced_def)
  then have sl: "slots h' x + ?c = slots h x + of_bool (v = VInst x)" by simp
  have "of_nat (slots h' x) + of_nat ?c = (of_nat (slots h x) + of_bool (v = VInst x) :: u32)"
    using arg_cong [OF sl, of "of_nat :: nat \<Rightarrow> u32"] by simp
  then have osl: "(of_nat (slots h' x) :: u32) = of_nat (slots h x) - of_nat ?c + of_bool (v = VInst x)"
    by (simp add: algebra_simps)
  have zero: "(of_nat (slots h' x) :: u32) = 0 \<longleftrightarrow> slots h' x = 0"
    using assms(3,9) ranked_replaced [OF assms(1-4)] by (intro of_nat_slots_0) (auto simp: replaced_def)
  have ni: "nonimm h' (VInst x) = (if chase h (VInst x) = Some (VInst a) then nonimm h v else nonimm h (VInst x))"
    using nonimm_replaced [OF assms(1-5)] x by simp
  have na: "v = VInst x \<Longrightarrow> chase h (VInst x) \<noteq> Some (VInst a)" using not_above [OF assms(1,4)] by auto
  have c: "if opc (h ! x) = ''Void'' then slots h x = 0
        else if nonimm h (VInst x) then use_count (h ! x) = of_nat (slots h x)
        else use_count (h ! x) = 0 \<longrightarrow> slots h x = 0"
    using assms(7) x by (simp add: counted_def)
  have c0: "slots h x = 0 \<Longrightarrow> ?c = 0"
    using assms(2) by (auto simp: slots_0 count_list_0_iff)
  have self: "x = a \<Longrightarrow> nonimm h (VInst x)" using assms(5) by simp
  have via: "chase h (VInst x) = Some (VInst a) \<Longrightarrow> nonimm h (VInst x)" by (auto simp: nonimm_alt)
  show "if opc (h' ! x) = ''Void'' then slots h' x = 0
        else if nonimm h' (VInst x) then use_count (h' ! x) = of_nat (slots h' x)
        else use_count (h' ! x) = 0 \<longrightarrow> slots h' x = 0"
  proof (cases "v = VInst x")
    case True
    then have "opc (h ! x) \<noteq> ''Void''" "nonimm h (VInst x) \<or> use_count (h ! x) \<noteq> 0" using assms(8) by auto
    with True c uc osl ni na sl self assms(6) show ?thesis unfolding op by (auto split: if_splits)
  next
    case False
    consider (void) "opc (h ! x) = ''Void''" | (inst) "opc (h ! x) \<noteq> ''Void''" "nonimm h (VInst x)"
      | (imm) "opc (h ! x) \<noteq> ''Void''" "\<not> nonimm h (VInst x)" by blast
    then show ?thesis
    proof cases
      case void
      with c sl False have "slots h' x = 0" "x \<noteq> a" using assms(6) by auto
      with void show ?thesis by (simp add: op)
    next
      case inst
      with c uc osl False have "use_count (h' ! x) = of_nat (slots h' x)" by simp
      with inst zero show ?thesis by (auto simp: op)
    next
      case imm
      with self via ni have "x \<noteq> a" "\<not> nonimm h' (VInst x)" by auto
      with imm c uc sl False show ?thesis by (auto simp: op)
    qed
  qed
qed

lemma typed_replaced:
  assumes "ranked h r" "a < length h" "replaced h a v h'" "below h r (r a) v"
    and "opc (h ! a) \<noteq> ''Identity''" "typed h" "GetType h v = GetType h (VInst a)"
  shows "typed h'"
  unfolding typed_def
proof (intro allI impI)
  fix x assume "x < length h'"
  then have x: "x < length h" and op: "opc (h' ! x) = (if x = a then ''Identity'' else opc (h ! x))"
    and ar: "args (h' ! x) = (if x = a then [v, VEmpty, VEmpty, VEmpty] else args (h ! x))"
    using assms(3) by (auto simp: replaced_def)
  have same: "arg_ok h' u s = arg_ok h u s" if "valid_value h u" for u s
    using that by (intro arg_ok_cong GetType_replaced [OF assms(1-5) _ assms(7)])
  show "args_typed h' x"
  proof (cases "x = a")
    case True
    obtain t ts where m: "opcode_meta (opc (h ! a)) = Some (t, ts)"
      using assms(2,6) by (auto simp: typed_def args_typed_def split: option.splits)
    then have "GetType h v = Some t" using assms(5,7) by (simp add: GetType_def)
    then have "arg_ok h v Type_Opaque" by (simp add: arg_ok_def AreTypesCompatible_def)
    then have "arg_ok h' v Type_Opaque" using same [OF below_valid [OF assms(4)]] by simp
    moreover have "[v, VEmpty, VEmpty, VEmpty] ! i = VEmpty" if "i < 4" "Suc 0 \<le> i" for i
      using that by (auto simp: nth_Cons' numeral_eq_Suc)
    ultimately show ?thesis using True op ar by (simp add: args_typed_def max_arg_count_def)
  next
    case False
    obtain t ts where m: "opcode_meta (opc (h ! x)) = Some (t, ts)"
      using assms(6) x by (auto simp: typed_def args_typed_def split: option.splits)
    have "valid_value h (args (h ! x) ! i)" if "i < length ts" for i
      using ranked_arg [OF assms(1) x, of i] opcode_meta_ok(1) [OF m] that by (auto intro: below_valid)
    with False op ar m same assms(6) x show ?thesis by (auto simp: typed_def args_typed_def)
  qed
qed

lemma wf_replaced:
  assumes "wf_heap h r" "a < length h" "replaced h a v h'" "below h r (r a) v"
    and "opc (h ! a) \<noteq> ''Identity''" "opc (h ! a) \<noteq> ''Void''"
    and "storable h v" "GetType h v = GetType h (VInst a)" "unlinked h a h'"
    and pre: "IsAPseudoOperation (opc (h ! a)) \<Longrightarrow> nonimm h v \<Longrightarrow> nonimm h (args (h ! a) ! 0)"
  shows "wf_heap h' r"
proof -
  have w: "ranked h r" "counted h" "typed h" "chained h" "length h < 2 ^ 30"
    using assms(1) by (auto simp: wf_heap_def)
  have len: "length h' = length h"
    and op: "\<And>x. x < length h \<Longrightarrow> x \<noteq> a \<Longrightarrow> opc (h' ! x) = opc (h ! x) \<and> args (h' ! x) = args (h ! x)"
    and at: "opc (h' ! a) = ''Identity''"
    using assms(2,3) by (auto simp: replaced_def)
  have ni: "nonimm h' (VInst x) = (if chase h (VInst x) = Some (VInst a) then nonimm h v else nonimm h (VInst x))"
    if "x < length h" for x
    using nonimm_replaced [OF w(1) assms(2-5)] that by simp
  have "chained h'"
  proof (rule chained_removed [OF w(4) assms(9,2) len op])
    show "\<not> IsAPseudoOperation (opc (h' ! a))" by (simp add: at)
    show "nonimm h (VInst x)" if "x < length h" "x \<noteq> a" "nonimm h' (VInst x)" for x
      using that ni by (auto simp: nonimm_alt split: if_splits)
    show "chain_ok h' a" if "nonimm h' (VInst a)"
      using that ni assms(2,5) at pre
      by (intro chain_ok_self [OF assms(1,2,5,6,9) len op]) auto
  qed
  with ranked_replaced [OF w(1) assms(2-4)] counted_replaced [OF w(1) assms(2-6) w(2) assms(7) w(5)]
    typed_replaced [OF w(1) assms(2-5) w(3) assms(8)] w(5) len show ?thesis
    by (simp add: wf_heap_def)
qed

lemma unlinked_next:
  assumes "\<And>c. c < length h \<Longrightarrow> next_pseudoop (h2 ! c) = next_pseudoop (h1 ! c)" "unlinked h a h1"
  shows "unlinked h a h2"
  using assms unfolding unlinked_def unlinked_from_def by (auto split: if_splits)

lemma ReplaceUsesWith_wf:
  assumes "wf_heap h r" "a < length h" "below h r (r a) v"
    and "opc (h ! a) \<noteq> ''Identity''" "opc (h ! a) \<noteq> ''Void''"
    and "storable h v" "GetType h v = GetType h (VInst a)"
    and pre: "IsAPseudoOperation (opc (h ! a)) \<Longrightarrow> nonimm h v \<Longrightarrow> nonimm h (args (h ! a) ! 0)"
  obtains h' where "ReplaceUsesWith h a v = Some h'" "replaced h a v h'" "wf_heap h' r" "unlinked h a h'"
proof -
  have rk: "ranked h r" using assms(1) by (simp add: wf_heap_def)
  obtain h1 where h1: "ClearArgs h a = Some h1" "cleared h a h1" "unlinked h a h1"
    using ClearArgs_effect [OF assms(1,2)] by blast
  define h2 where "h2 = upd (upd h1 a (\<lambda>x. x\<lparr>opc := ''Void''\<rparr>)) a (\<lambda>x. x\<lparr>opc := ''Identity''\<rparr>)"
  have len1: "length h1 = length h" using h1(2) by (simp add: cleared_def)
  have h2m: "length h2 = length h"
    "\<And>x. x < length h \<Longrightarrow> opc (h2 ! x) = (if x = a then ''Identity'' else opc (h1 ! x))"
    "\<And>x. x < length h \<Longrightarrow> args (h2 ! x) = args (h1 ! x) \<and> use_count (h2 ! x) = use_count (h1 ! x)
        \<and> next_pseudoop (h2 ! x) = next_pseudoop (h1 ! x)"
    using len1 assms(2) by (auto simp: h2_def nth_upd)
  have "chase h2 v = chase h v"
    using h1(2) h2m by (intro chase_below_cong [OF rk _ _ assms(3)]) (auto simp: cleared_def)
  then have imm: "IsImmediate h2 v = Some (\<not> nonimm h v)"
    using IsImmediate_eq [OF rk below_valid [OF assms(3)]] by (simp add: IsImmediate_def)
  obtain h3 where h3: "(if \<not> (\<not> nonimm h v) then inst_Use h2 a v else Some h2) = Some h3"
    and h3m: "length h3 = length h" "\<And>x. opc (h3 ! x) = opc (h2 ! x)" "\<And>x. args (h3 ! x) = args (h2 ! x)"
      "\<And>x. next_pseudoop (h3 ! x) = next_pseudoop (h2 ! x)"
      "\<And>x. x < length h \<Longrightarrow> use_count (h3 ! x) = use_count (h2 ! x) + of_bool (nonimm h v \<and> v = VInst x)"
  proof (cases "nonimm h v")
    case True
    then obtain b where "v = VInst b" using nonimm_VInst by blast
    moreover have "\<not> IsAPseudoOperation (opc (h2 ! a))" using h2m assms(2) by simp
    ultimately show ?thesis using True h2m
      by (intro that [of "upd h2 b (\<lambda>x. x\<lparr>use_count := use_count x + 1\<rparr>)"])
        (auto simp: inst_Use_plain upd_member nth_upd)
  next
    case False
    then show ?thesis using h2m by (intro that [of h2]) auto
  qed
  let ?h' = "set_slot h3 a 0 v"
  have "ReplaceUsesWith h a v = Some ?h'"
    using h1(1) imm h3 by (auto simp: ReplaceUsesWith_def Invalidate_def h2_def Let_def simp del: not_not)
  moreover have rep: "replaced h a v ?h'"
    using h1(2) h2m h3m assms(2)
    by (auto simp: replaced_def cleared_def set_slot_args numeral_eq_Suc)
  moreover have un: "unlinked h a ?h'"
    using h2m h3m by (intro unlinked_next [OF _ h1(3)]) auto
  moreover have "wf_heap ?h' r"
    by (rule wf_replaced [OF assms(1,2) rep assms(3-7) un pre])
  ultimately show ?thesis using that by blast
qed

subsection \<open>Invalidating an instruction\<close>

definition invalidated :: "heap \<Rightarrow> nat \<Rightarrow> heap \<Rightarrow> bool" where
  "invalidated h a h' \<longleftrightarrow> length h' = length h
     \<and> (\<forall>x<length h. opc (h' ! x) = (if x = a then ''Void'' else opc (h ! x))
          \<and> args (h' ! x) = (if x = a then replicate 4 VEmpty else args (h ! x))
          \<and> use_count (h' ! x) = use_count (h ! x)
              - (if nonimm h (VInst x) then of_nat (count_list (args (h ! a)) (VInst x)) else 0))"

lemma chase_invalidated:
  assumes "ranked h r" "a < length h" "invalidated h a h'" "slots h a = 0" "valid_value h u" "u \<noteq> VInst a"
  shows "chase h' u = chase h u"
proof -
  have len: "length h' = length h"
    and op: "\<And>x. x < length h \<Longrightarrow> x \<noteq> a \<Longrightarrow> opc (h' ! x) = opc (h ! x) \<and> args (h' ! x) = args (h ! x)"
    using assms(2,3) by (auto simp: invalidated_def)
  have "chase_fuel n h' u = chase_fuel n h u" for n
    using assms(5,6)
  proof (induction n arbitrary: u)
    case 0
    then have "IsIdentity h' u = IsIdentity h u" using op by (cases u) auto
    then show ?case by (simp add: chase_fuel.simps [of 0])
  next
    case (Suc n)
    have ident: "IsIdentity h' u = IsIdentity h u" using Suc.prems op by (cases u) auto
    show ?case
    proof (cases "IsIdentity h u")
      case True
      then obtain b where u: "u = VInst b" "opc (h ! b) = ''Identity''" by (rule IsIdentityE)
      with Suc.prems have b: "b < length h" "b \<noteq> a" by auto
      have "args (h ! b) ! 0 \<in> set (args (h ! b))" using ranked_length [OF assms(1) b(1)] by simp
      with assms(4) b(1) have "args (h ! b) ! 0 \<noteq> VInst a" by (auto simp: slots_0)
      moreover have "valid_value h (args (h ! b) ! 0)"
        using ranked_arg [OF assms(1) b(1), of 0] by (auto intro: below_valid)
      ultimately show ?thesis using u b op [of b] by (simp add: chase_fuel_identity Suc.IH)
    qed (use ident in \<open>simp add: chase_fuel_other\<close>)
  qed
  with len show ?thesis by (simp add: chase_def)
qed

lemma chase_not_unused:
  assumes "ranked h r" "slots h a = 0" "valid_value h u" "u \<noteq> VInst a" "chase h u = Some c"
  shows "c \<noteq> VInst a"
proof -
  from assms(1) valid_below [OF assms(1,3)] have "u \<noteq> VInst a \<longrightarrow> chase h u \<noteq> Some (VInst a)"
  proof (induction rule: below_induct)
    case (identity b)
    then have "args (h ! b) ! 0 \<in> set (args (h ! b))" using ranked_length [OF assms(1), of b] by simp
    then have "args (h ! b) ! 0 \<noteq> VInst a" using assms(2) identity(1) by (auto simp: slots_0)
    with identity show ?case by (simp add: chase_identity [OF assms(1)])
  qed auto
  with assms(4,5) show ?thesis by auto
qed

lemma wf_invalidated:
  assumes "wf_heap h r" "a < length h" "invalidated h a h'" "slots h a = 0" "unlinked h a h'"
  shows "wf_heap h' r"
proof -
  have w: "ranked h r" "counted h" "typed h" "chained h" "length h < 2 ^ 30"
    using assms(1) by (auto simp: wf_heap_def)
  have len: "length h' = length h"
    and op: "\<And>x. x < length h \<Longrightarrow> x \<noteq> a \<Longrightarrow> opc (h' ! x) = opc (h ! x) \<and> args (h' ! x) = args (h ! x)"
    and at: "opc (h' ! a) = ''Void''" "args (h' ! a) = replicate 4 VEmpty"
    and uc: "\<And>x. x < length h \<Longrightarrow> use_count (h' ! x) = use_count (h ! x)
              - (if nonimm h (VInst x) then of_nat (count_list (args (h ! a)) (VInst x)) else 0)"
    using assms(2,3) by (auto simp: invalidated_def)
  have chase: "chase h' u = chase h u" if "valid_value h u" "u \<noteq> VInst a" for u
    by (rule chase_invalidated [OF w(1) assms(2-4) that])
  then have ni: "nonimm h' u = nonimm h u" if "valid_value h u" "u \<noteq> VInst a" for u
    using that by (simp add: nonimm_def)
  have rk': "ranked h' r"
    using w(1) op at len by (fastforce simp: ranked_alt below_def split: ir_value.splits)
  have nota: "args (h ! x) ! i \<noteq> VInst a" if "x < length h" "i < 4" for x i
    using assms(4) that ranked_length [OF w(1) that(1)] by (metis nth_mem slots_0)
  have ty: "GetType h' (args (h ! x) ! i) = GetType h (args (h ! x) ! i)" if "x < length h" "i < 4" for x i
  proof -
    let ?u = "args (h ! x) ! i"
    have u: "valid_value h ?u" "?u \<noteq> VInst a"
      using nota [OF that] ranked_arg [OF w(1) that] by (auto intro: below_valid)
    obtain c where c: "chase h ?u = Some c" using chase_total [OF w(1) u(1)] by blast
    have "c \<noteq> VInst a \<and> valid_value h c"
    proof -
      have "valid_value h c" using chase_result [OF w(1) valid_below [OF w(1) u(1)] c] by (auto intro: below_valid)
      moreover have "c \<noteq> VInst a"
        using chase_not_unused [OF w(1) assms(4) u c] .
      ultimately show ?thesis by simp
    qed
    then show ?thesis using c chase [OF u] op by (cases c) (auto simp: GetType_def)
  qed
  have "typed h'"
    unfolding typed_def len
  proof (intro allI impI)
    fix x assume x: "x < length h"
    show "args_typed h' x"
    proof (cases "x = a")
      case False
      obtain t ts where m: "opcode_meta (opc (h ! x)) = Some (t, ts)"
        using w(3) x by (auto simp: typed_def args_typed_def split: option.splits)
      have "arg_ok h' (args (h ! x) ! i) s = arg_ok h (args (h ! x) ! i) s" if "i < length ts" for i s
        using ty [OF x] opcode_meta_ok(1) [OF m] that by (intro arg_ok_cong) simp
      with False op [OF x] m w(3) x show ?thesis by (auto simp: typed_def args_typed_def)
    qed (simp add: args_typed_def at max_arg_count_def)
  qed
  moreover have "chained h'"
  proof (rule chained_removed [OF w(4) assms(5,2) len op])
    show "nonimm h (VInst x)" if "x < length h" "x \<noteq> a" "nonimm h' (VInst x)" for x
      using that ni by simp
  qed (simp_all add: at)
  moreover have "counted h'"
    unfolding counted_def len
  proof (intro allI impI)
    fix x assume x: "x < length h"
    let ?c = "count_list (args (h ! a)) (VInst x)"
    have "slots h' x + ?c = slots h x + count_list (replicate 4 VEmpty) (VInst x)"
      using assms(2) at len op slots_change [of h' h a x] by simp
    then have sl: "slots h' x + ?c = slots h x" by (simp add: numeral_eq_Suc)
    then have osl: "(of_nat (slots h' x) :: u32) = of_nat (slots h x) - of_nat ?c"
      by (metis add_diff_cancel_right' of_nat_add)
    show "if opc (h' ! x) = ''Void'' then slots h' x = 0
        else if nonimm h' (VInst x) then use_count (h' ! x) = of_nat (slots h' x)
        else use_count (h' ! x) = 0 \<longrightarrow> slots h' x = 0"
    proof (cases "x = a")
      case True
      with at assms(4) sl show ?thesis by simp
    next
      case False
      with w(2) x op [OF x] ni [of "VInst x"] uc [OF x] osl sl show ?thesis
        by (auto simp: counted_def split: if_splits)
    qed
  qed
  ultimately show ?thesis using rk' w(5) len by (simp add: wf_heap_def)
qed

lemma Invalidate_wf:
  assumes "wf_heap h r" "a < length h" "slots h a = 0"
  obtains h' where "Invalidate h a = Some h'" "invalidated h a h'" "wf_heap h' r" "unlinked h a h'"
proof -
  obtain h1 where h1: "ClearArgs h a = Some h1" "cleared h a h1" "unlinked h a h1"
    using ClearArgs_effect [OF assms(1,2)] by blast
  let ?h' = "upd h1 a (\<lambda>x. x\<lparr>opc := ''Void''\<rparr>)"
  have inv: "invalidated h a ?h'" using h1(2) assms(2) by (auto simp: invalidated_def cleared_def nth_upd)
  moreover have un: "unlinked h a ?h'" by (rule unlinked_next [OF _ h1(3)]) (simp add: upd_member)
  moreover have "Invalidate h a = Some ?h'" by (simp add: Invalidate_def h1(1))
  ultimately show ?thesis using that wf_invalidated [OF assms(1,2) inv assms(3) un] by blast
qed

end
