(* ===== verification/IR_Semantics.thy ===== *)
theory IR_Semantics
  imports IR_Wf
begin

text \<open>
  The meaning of a block of microinstructions, against which the optimisation passes are
  verified.  The calculation opcodes have the meaning \<^verbatim>\<open>docs/Design.md\<close> gives them; the
  remaining opcodes (registers, memory, coprocessors, floating point, vectors) are the
  business of a machine, a parameter of the semantics, of which only two things are
  assumed: an opcode that is not classified as having side effects leaves the machine
  unchanged, and a result has the type the opcode table promises.
\<close>

section \<open>Values and results\<close>

datatype sval =
    SVoid
  | S1 bool
  | S8 u8
  | S16 u16
  | S32 u32
  | S64 u64
  | S128 "128 word"
  | SNZCV bool bool bool bool
  | SRef ir_value

text \<open>
  The result of an instruction: its value, and what the pseudo-operations that refer to
  it read (carry, overflow, flags, ...).
\<close>

record result =
  rv :: sval
  pseudo :: "opcode \<Rightarrow> sval"

primrec as1 :: "sval \<Rightarrow> bool" where
  "as1 (S1 b) = b" | "as1 SVoid = False" | "as1 (S8 x) = False" | "as1 (S16 x) = False" | "as1 (S32 x) = False"
| "as1 (S64 x) = False" | "as1 (S128 x) = False" | "as1 (SNZCV n z c v) = False" | "as1 (SRef r) = False"

primrec as8 :: "sval \<Rightarrow> u8" where
  "as8 (S8 x) = x" | "as8 SVoid = 0" | "as8 (S1 b) = 0" | "as8 (S16 x) = 0" | "as8 (S32 x) = 0"
| "as8 (S64 x) = 0" | "as8 (S128 x) = 0" | "as8 (SNZCV n z c v) = 0" | "as8 (SRef r) = 0"

primrec as16 :: "sval \<Rightarrow> u16" where
  "as16 (S16 x) = x" | "as16 SVoid = 0" | "as16 (S1 b) = 0" | "as16 (S8 x) = 0" | "as16 (S32 x) = 0"
| "as16 (S64 x) = 0" | "as16 (S128 x) = 0" | "as16 (SNZCV n z c v) = 0" | "as16 (SRef r) = 0"

primrec as32 :: "sval \<Rightarrow> u32" where
  "as32 (S32 x) = x" | "as32 SVoid = 0" | "as32 (S1 b) = 0" | "as32 (S8 x) = 0" | "as32 (S16 x) = 0"
| "as32 (S64 x) = 0" | "as32 (S128 x) = 0" | "as32 (SNZCV n z c v) = 0" | "as32 (SRef r) = 0"

primrec as64 :: "sval \<Rightarrow> u64" where
  "as64 (S64 x) = x" | "as64 SVoid = 0" | "as64 (S1 b) = 0" | "as64 (S8 x) = 0" | "as64 (S16 x) = 0"
| "as64 (S32 x) = 0" | "as64 (S128 x) = 0" | "as64 (SNZCV n z c v) = 0" | "as64 (SRef r) = 0"

text \<open>The integer types of the opcode table and the values that have them.\<close>

definition sval_ok :: "ir_type \<Rightarrow> sval \<Rightarrow> bool" where
  "sval_ok t v \<longleftrightarrow>
     (t = Type_U1 \<longrightarrow> v = S1 (as1 v)) \<and> (t = Type_U8 \<longrightarrow> v = S8 (as8 v)) \<and> (t = Type_U16 \<longrightarrow> v = S16 (as16 v))
     \<and> (t = Type_U32 \<longrightarrow> v = S32 (as32 v)) \<and> (t = Type_U64 \<longrightarrow> v = S64 (as64 v))"

definition imm_sval :: "ir_value \<Rightarrow> sval" where
  "imm_sval v = (case v of VU1 b \<Rightarrow> S1 b | VU8 x \<Rightarrow> S8 x | VU16 x \<Rightarrow> S16 x | VU32 x \<Rightarrow> S32 x
                 | VU64 x \<Rightarrow> S64 x | _ \<Rightarrow> SRef v)"

text \<open>The flags of a logical operation: N and Z from the value, C and V clear.\<close>

definition logical_nzcv :: "sval \<Rightarrow> sval" where
  "logical_nzcv v = (case v of S32 x \<Rightarrow> SNZCV (bit x 31) (x = 0) False False
                     | S64 x \<Rightarrow> SNZCV (bit x 63) (x = 0) False False | _ \<Rightarrow> SVoid)"

definition plain_result :: "sval \<Rightarrow> result" where
  "plain_result v = \<lparr>rv = v, pseudo = (\<lambda>p. if p = ''GetNZCVFromOp'' then logical_nzcv v else SVoid)\<rparr>"

definition carry_result :: "sval \<Rightarrow> bool \<Rightarrow> result" where
  "carry_result v c = \<lparr>rv = v, pseudo = (\<lambda>p. if p = ''GetCarryFromOp'' then S1 c else SVoid)\<rparr>"

section \<open>Calculation opcodes\<close>

text \<open>
  Shifts follow the pseudocode of \<^verbatim>\<open>docs/Design.md\<close>: the amount is not masked, an amount
  of zero passes the carry through.
\<close>

definition shift_carry :: "nat \<Rightarrow> bool \<Rightarrow> bool \<Rightarrow> bool" where
  "shift_carry n carry_in carry_out = (if n = 0 then carry_in else carry_out)"

definition lsl32_carry :: "u32 \<Rightarrow> nat \<Rightarrow> bool" where
  "lsl32_carry x n \<longleftrightarrow> odd (unat x * 2 ^ n div 2 ^ 32)"

definition lsr32_carry :: "u32 \<Rightarrow> nat \<Rightarrow> bool" where
  "lsr32_carry x n \<longleftrightarrow> odd (unat x div 2 ^ (n - 1))"

definition asr32_carry :: "u32 \<Rightarrow> nat \<Rightarrow> bool" where
  "asr32_carry x n \<longleftrightarrow> odd (sint x div 2 ^ (n - 1))"

definition asr :: "'a::len word \<Rightarrow> nat \<Rightarrow> 'a word" where
  "asr x n = word_of_int (sint x div 2 ^ n)"

text \<open>Division rounds towards zero, and dividing by zero gives zero.\<close>

definition tdiv :: "int \<Rightarrow> int \<Rightarrow> int" where
  "tdiv a b = sgn a * sgn b * (\<bar>a\<bar> div \<bar>b\<bar>)"

definition sdiv_arm :: "'a::len word \<Rightarrow> 'a word \<Rightarrow> 'a word" where
  "sdiv_arm a b = (if b = 0 then 0 else word_of_int (tdiv (sint a) (sint b)))"

definition udiv_arm :: "'a::len word \<Rightarrow> 'a word \<Rightarrow> 'a word" where
  "udiv_arm a b = (if b = 0 then 0 else a div b)"

definition add_flags :: "sval \<Rightarrow> bool \<Rightarrow> bool \<Rightarrow> bool \<Rightarrow> bool \<Rightarrow> result" where
  "add_flags r n z c v = \<lparr>rv = r, pseudo = (\<lambda>p.
     if p = ''GetCarryFromOp'' then S1 c else if p = ''GetOverflowFromOp'' then S1 v
     else if p = ''GetNZCVFromOp'' then SNZCV n z c v else SVoid)\<rparr>"

definition AddWithCarry :: "('a::len word \<Rightarrow> sval) \<Rightarrow> 'a word \<Rightarrow> 'a word \<Rightarrow> bool \<Rightarrow> result" where
  "AddWithCarry mk a b c =
     (let r = a + b + of_bool c
      in add_flags (mk r) (bit r (LENGTH('a) - 1)) (r = 0)
           (uint r \<noteq> uint a + uint b + of_bool c) (sint r \<noteq> sint a + sint b + of_bool c))"

definition pure_table :: "(opcode \<times> (sval list \<Rightarrow> result)) list" where
  "pure_table = [
    (''LeastSignificantWord'', \<lambda>vs. plain_result (S32 (ucast (as64 (vs ! 0))))),
    (''LeastSignificantHalf'', \<lambda>vs. plain_result (S16 (ucast (as32 (vs ! 0))))),
    (''LeastSignificantByte'', \<lambda>vs. plain_result (S8 (ucast (as32 (vs ! 0))))),
    (''MostSignificantWord'', \<lambda>vs. carry_result (S32 (ucast (drop_bit 32 (as64 (vs ! 0))))) (bit (as64 (vs ! 0)) 31)),
    (''MostSignificantBit'', \<lambda>vs. plain_result (S1 (bit (as32 (vs ! 0)) 31))),
    (''IsZero32'', \<lambda>vs. plain_result (S1 (as32 (vs ! 0) = 0))),
    (''IsZero64'', \<lambda>vs. plain_result (S1 (as64 (vs ! 0) = 0))),
    (''LogicalShiftLeft32'', \<lambda>vs. let n = unat (as8 (vs ! 1)) in
        carry_result (S32 (push_bit n (as32 (vs ! 0)))) (shift_carry n (as1 (vs ! 2)) (lsl32_carry (as32 (vs ! 0)) n))),
    (''LogicalShiftLeft64'', \<lambda>vs. plain_result (S64 (push_bit (unat (as8 (vs ! 1))) (as64 (vs ! 0))))),
    (''LogicalShiftRight32'', \<lambda>vs. let n = unat (as8 (vs ! 1)) in
        carry_result (S32 (drop_bit n (as32 (vs ! 0)))) (shift_carry n (as1 (vs ! 2)) (lsr32_carry (as32 (vs ! 0)) n))),
    (''LogicalShiftRight64'', \<lambda>vs. plain_result (S64 (drop_bit (unat (as8 (vs ! 1))) (as64 (vs ! 0))))),
    (''ArithmeticShiftRight32'', \<lambda>vs. let n = unat (as8 (vs ! 1)) in
        carry_result (S32 (asr (as32 (vs ! 0)) n)) (shift_carry n (as1 (vs ! 2)) (asr32_carry (as32 (vs ! 0)) n))),
    (''ArithmeticShiftRight64'', \<lambda>vs. plain_result (S64 (asr (as64 (vs ! 0)) (unat (as8 (vs ! 1)))))),
    (''RotateRight32'', \<lambda>vs. let n = unat (as8 (vs ! 1)); r = word_rotr n (as32 (vs ! 0)) in
        carry_result (S32 r) (shift_carry n (as1 (vs ! 2)) (bit r 31))),
    (''RotateRight64'', \<lambda>vs. plain_result (S64 (word_rotr (unat (as8 (vs ! 1))) (as64 (vs ! 0))))),
    (''LogicalShiftLeftMasked32'', \<lambda>vs. plain_result (S32 (push_bit (unat (as32 (vs ! 1)) mod 32) (as32 (vs ! 0))))),
    (''LogicalShiftLeftMasked64'', \<lambda>vs. plain_result (S64 (push_bit (unat (as64 (vs ! 1)) mod 64) (as64 (vs ! 0))))),
    (''LogicalShiftRightMasked32'', \<lambda>vs. plain_result (S32 (drop_bit (unat (as32 (vs ! 1)) mod 32) (as32 (vs ! 0))))),
    (''LogicalShiftRightMasked64'', \<lambda>vs. plain_result (S64 (drop_bit (unat (as64 (vs ! 1)) mod 64) (as64 (vs ! 0))))),
    (''ArithmeticShiftRightMasked32'', \<lambda>vs. plain_result (S32 (asr (as32 (vs ! 0)) (unat (as32 (vs ! 1)) mod 32)))),
    (''ArithmeticShiftRightMasked64'', \<lambda>vs. plain_result (S64 (asr (as64 (vs ! 0)) (unat (as64 (vs ! 1)) mod 64)))),
    (''RotateRightMasked32'', \<lambda>vs. plain_result (S32 (word_rotr (unat (as32 (vs ! 1)) mod 32) (as32 (vs ! 0))))),
    (''RotateRightMasked64'', \<lambda>vs. plain_result (S64 (word_rotr (unat (as64 (vs ! 1)) mod 64) (as64 (vs ! 0))))),
    (''Add32'', \<lambda>vs. AddWithCarry S32 (as32 (vs ! 0)) (as32 (vs ! 1)) (as1 (vs ! 2))),
    (''Add64'', \<lambda>vs. AddWithCarry S64 (as64 (vs ! 0)) (as64 (vs ! 1)) (as1 (vs ! 2))),
    (''Sub32'', \<lambda>vs. AddWithCarry S32 (as32 (vs ! 0)) (NOT (as32 (vs ! 1))) (as1 (vs ! 2))),
    (''Sub64'', \<lambda>vs. AddWithCarry S64 (as64 (vs ! 0)) (NOT (as64 (vs ! 1))) (as1 (vs ! 2))),
    (''Mul32'', \<lambda>vs. plain_result (S32 (as32 (vs ! 0) * as32 (vs ! 1)))),
    (''Mul64'', \<lambda>vs. plain_result (S64 (as64 (vs ! 0) * as64 (vs ! 1)))),
    (''UnsignedDiv32'', \<lambda>vs. plain_result (S32 (udiv_arm (as32 (vs ! 0)) (as32 (vs ! 1))))),
    (''UnsignedDiv64'', \<lambda>vs. plain_result (S64 (udiv_arm (as64 (vs ! 0)) (as64 (vs ! 1))))),
    (''SignedDiv32'', \<lambda>vs. plain_result (S32 (sdiv_arm (as32 (vs ! 0)) (as32 (vs ! 1))))),
    (''SignedDiv64'', \<lambda>vs. plain_result (S64 (sdiv_arm (as64 (vs ! 0)) (as64 (vs ! 1))))),
    (''And32'', \<lambda>vs. plain_result (S32 (as32 (vs ! 0) AND as32 (vs ! 1)))),
    (''And64'', \<lambda>vs. plain_result (S64 (as64 (vs ! 0) AND as64 (vs ! 1)))),
    (''Eor32'', \<lambda>vs. plain_result (S32 (as32 (vs ! 0) XOR as32 (vs ! 1)))),
    (''Eor64'', \<lambda>vs. plain_result (S64 (as64 (vs ! 0) XOR as64 (vs ! 1)))),
    (''Or32'', \<lambda>vs. plain_result (S32 (as32 (vs ! 0) OR as32 (vs ! 1)))),
    (''Or64'', \<lambda>vs. plain_result (S64 (as64 (vs ! 0) OR as64 (vs ! 1)))),
    (''Not32'', \<lambda>vs. plain_result (S32 (NOT (as32 (vs ! 0))))),
    (''Not64'', \<lambda>vs. plain_result (S64 (NOT (as64 (vs ! 0))))),
    (''SignExtendByteToWord'', \<lambda>vs. plain_result (S32 (scast (as8 (vs ! 0))))),
    (''SignExtendHalfToWord'', \<lambda>vs. plain_result (S32 (scast (as16 (vs ! 0))))),
    (''SignExtendByteToLong'', \<lambda>vs. plain_result (S64 (scast (as8 (vs ! 0))))),
    (''SignExtendHalfToLong'', \<lambda>vs. plain_result (S64 (scast (as16 (vs ! 0))))),
    (''SignExtendWordToLong'', \<lambda>vs. plain_result (S64 (scast (as32 (vs ! 0))))),
    (''ZeroExtendByteToWord'', \<lambda>vs. plain_result (S32 (ucast (as8 (vs ! 0))))),
    (''ZeroExtendHalfToWord'', \<lambda>vs. plain_result (S32 (ucast (as16 (vs ! 0))))),
    (''ZeroExtendByteToLong'', \<lambda>vs. plain_result (S64 (ucast (as8 (vs ! 0))))),
    (''ZeroExtendHalfToLong'', \<lambda>vs. plain_result (S64 (ucast (as16 (vs ! 0))))),
    (''ZeroExtendWordToLong'', \<lambda>vs. plain_result (S64 (ucast (as32 (vs ! 0))))),
    (''ByteReverseWord'', \<lambda>vs. plain_result (S32 (swap_bytes_32 (as32 (vs ! 0))))),
    (''ByteReverseHalf'', \<lambda>vs. plain_result (S16 (swap_bytes_16 (as16 (vs ! 0))))),
    (''ByteReverseDual'', \<lambda>vs. plain_result (S64 (swap_bytes_64 (as64 (vs ! 0)))))]"

fun assoc :: "('k \<times> 'v) list \<Rightarrow> 'k \<Rightarrow> 'v option" where
  "assoc [] k = None"
| "assoc ((k', v) # xs) k = (if k = k' then Some v else assoc xs k)"

definition pure_sem :: "opcode \<Rightarrow> (sval list \<Rightarrow> result) option" where
  "pure_sem p = assoc pure_table p"

text \<open>The pseudo-operations that read a part of their parent's result other than its value.\<close>

definition reads_parent :: "opcode \<Rightarrow> bool" where
  "reads_parent p \<longleftrightarrow> p \<in> {''GetCarryFromOp'', ''GetOverflowFromOp'', ''GetGEFromOp'', ''GetNZCVFromOp'',
     ''GetUpperFromOp'', ''GetLowerFromOp''}"

definition coerce_pseudo :: "opcode \<Rightarrow> sval \<Rightarrow> sval" where
  "coerce_pseudo p v = (if p = ''GetCarryFromOp'' \<or> p = ''GetOverflowFromOp'' then S1 (as1 v)
     else if p = ''GetGEFromOp'' then S32 (as32 v) else v)"

section \<open>Execution\<close>

type_synonym env = "nat \<Rightarrow> result"

definition slot_result :: "env \<Rightarrow> ir_value \<Rightarrow> result" where
  "slot_result \<rho> v = (case v of VInst a \<Rightarrow> \<rho> a | _ \<Rightarrow> plain_result (imm_sval v))"

definition slot_value :: "env \<Rightarrow> ir_value \<Rightarrow> sval" where
  "slot_value \<rho> v = rv (slot_result \<rho> v)"

definition arity :: "opcode \<Rightarrow> nat" where
  "arity p = (case opcode_meta p of None \<Rightarrow> 0 | Some (t, ts) \<Rightarrow> length ts)"

definition arg_values :: "heap \<Rightarrow> env \<Rightarrow> nat \<Rightarrow> sval list" where
  "arg_values h \<rho> a = map (slot_value \<rho>) (take (arity (opc (h ! a))) (args (h ! a)))"

text \<open>The result of an instruction that does not depend on the machine.\<close>

definition det_result :: "heap \<Rightarrow> env \<Rightarrow> nat \<Rightarrow> result option" where
  "det_result h \<rho> a =
     (let p = opc (h ! a) in
      if p = ''Void'' then Some (plain_result SVoid)
      else if p = ''Identity'' then Some (plain_result (slot_value \<rho> (args (h ! a) ! 0)))
      else if reads_parent p
      then Some (plain_result (coerce_pseudo p (pseudo (slot_result \<rho> (args (h ! a) ! 0)) p)))
      else map_option (\<lambda>f. f (arg_values h \<rho> a)) (pure_sem p))"

definition step_inst :: "(opcode \<Rightarrow> sval list \<Rightarrow> 's \<Rightarrow> result \<times> 's) \<Rightarrow> heap \<Rightarrow> env \<Rightarrow> 's \<Rightarrow> nat \<Rightarrow> result \<times> 's" where
  "step_inst exec h \<rho> s a =
     (case det_result h \<rho> a of Some x \<Rightarrow> (x, s) | None \<Rightarrow> exec (opc (h ! a)) (arg_values h \<rho> a) s)"

fun run :: "(opcode \<Rightarrow> sval list \<Rightarrow> 's \<Rightarrow> result \<times> 's) \<Rightarrow> heap \<Rightarrow> nat list \<Rightarrow> env \<times> 's \<Rightarrow> env \<times> 's" where
  "run exec h [] st = st"
| "run exec h (a # as) (\<rho>, s) = (let (x, s') = step_inst exec h \<rho> s a in run exec h as (\<rho>(a := x), s'))"

section \<open>Blocks in order\<close>

text \<open>The instructions of a block appear by increasing rank, and use only each other.\<close>

definition closed_under_args :: "heap \<Rightarrow> nat set \<Rightarrow> bool" where
  "closed_under_args h D \<longleftrightarrow> (\<forall>a\<in>D. \<forall>c. VInst c \<in> set (args (h ! a)) \<longrightarrow> c \<in> D)"

definition ordered :: "nat list \<Rightarrow> heap \<Rightarrow> (nat \<Rightarrow> nat) \<Rightarrow> bool" where
  "ordered ord h r \<longleftrightarrow> set ord \<subseteq> {..<length h} \<and> sorted_wrt (\<lambda>a b. r a < r b) ord
     \<and> closed_under_args h (set ord)"

definition settled :: "heap \<Rightarrow> env \<Rightarrow> nat \<Rightarrow> bool" where
  "settled h \<rho> b \<longleftrightarrow> (\<forall>x. det_result h \<rho> b = Some x \<longrightarrow> \<rho> b = x)
     \<and> (\<forall>t. GetType h (VInst b) = Some t \<longrightarrow> sval_ok t (rv (\<rho> b)))"

text \<open>
  The environments that occur before an instruction is executed: the instructions of a
  set \<open>D\<close> that contains its operands, closed under operands, have their results.
\<close>

definition env_before :: "heap \<Rightarrow> nat \<Rightarrow> nat set \<Rightarrow> env \<Rightarrow> bool" where
  "env_before h a D \<rho> \<longleftrightarrow> D \<subseteq> {..<length h} \<and> closed_under_args h D
     \<and> (\<forall>c. VInst c \<in> set (args (h ! a)) \<longrightarrow> c \<in> D) \<and> (\<forall>b\<in>D. settled h \<rho> b)"

definition reads :: "heap \<Rightarrow> nat \<Rightarrow> opcode \<Rightarrow> bool" where
  "reads h c p \<longleftrightarrow> reads_parent p \<and> (\<exists>b<length h. opc (h ! b) = p \<and> args (h ! b) ! 0 = VInst c)"

text \<open>Two heaps in which an instruction has the same effect, as far as it can be observed.\<close>

definition same_effect :: "heap \<Rightarrow> heap \<Rightarrow> env \<Rightarrow> nat \<Rightarrow> bool" where
  "same_effect h h' \<rho> a \<longleftrightarrow>
     (case (det_result h \<rho> a, det_result h' \<rho> a) of
        (Some x, Some x') \<Rightarrow> rv x = rv x' \<and> (\<forall>p. reads h' a p \<longrightarrow> pseudo x p = pseudo x' p)
      | (None, None) \<Rightarrow> opc (h' ! a) = opc (h ! a) \<and> arg_values h' \<rho> a = arg_values h \<rho> a
      | _ \<Rightarrow> False)"

text \<open>The same, for one machine: the two steps agree from every state.\<close>

definition same_step :: "(opcode \<Rightarrow> sval list \<Rightarrow> 's \<Rightarrow> result \<times> 's) \<Rightarrow> heap \<Rightarrow> heap \<Rightarrow> env \<Rightarrow> nat \<Rightarrow> bool" where
  "same_step exec h h' \<rho> a \<longleftrightarrow> (\<forall>s. let (x, s1) = step_inst exec h \<rho> s a; (x', s1') = step_inst exec h' \<rho> s a in
     s1 = s1' \<and> rv x = rv x' \<and> (\<forall>p. reads h' a p \<longrightarrow> pseudo x p = pseudo x' p))"

definition quiet :: "heap \<Rightarrow> env \<Rightarrow> nat \<Rightarrow> bool" where
  "quiet h \<rho> a \<longleftrightarrow> det_result h \<rho> a \<noteq> None \<or> \<not> MayHaveSideEffects (opc (h ! a))"

definition env_rel :: "heap \<Rightarrow> nat set \<Rightarrow> env \<Rightarrow> env \<Rightarrow> bool" where
  "env_rel h X \<rho> \<rho>' \<longleftrightarrow>
     (\<forall>b. b \<notin> X \<longrightarrow> rv (\<rho> b) = rv (\<rho>' b) \<and> (\<forall>p. reads h b p \<longrightarrow> pseudo (\<rho> b) p = pseudo (\<rho>' b) p))"

subsection \<open>Environments\<close>

lemma slot_simps [simp]:
  "slot_result \<rho> (VInst a) = \<rho> a"
  "slot_value \<rho> (VInst a) = rv (\<rho> a)"
  "\<forall>a. v \<noteq> VInst a \<Longrightarrow> slot_value \<rho> v = imm_sval v"
  "\<forall>a. v \<noteq> VInst a \<Longrightarrow> slot_result \<rho> v = plain_result (imm_sval v)"
  by (auto simp: slot_result_def slot_value_def plain_result_def split: ir_value.splits)

lemma rv_plain [simp]: "rv (plain_result v) = v" "rv (carry_result v c) = v"
  by (simp_all add: plain_result_def carry_result_def)

lemma arg_values_cong:
  assumes "\<And>v. v \<in> set (args (h ! a)) \<Longrightarrow> slot_value \<rho> v = slot_value \<rho>' v"
  shows "arg_values h \<rho> a = arg_values h \<rho>' a"
  unfolding arg_values_def using assms by (intro map_cong) (auto dest: in_set_takeD)

lemma det_result_cong:
  assumes "length (args (h ! a)) = 4"
    and "\<And>v. v \<in> set (args (h ! a)) \<Longrightarrow> slot_value \<rho> v = slot_value \<rho>' v"
    and "\<And>v. v = args (h ! a) ! 0 \<Longrightarrow> reads_parent (opc (h ! a)) \<Longrightarrow>
      pseudo (slot_result \<rho> v) (opc (h ! a)) = pseudo (slot_result \<rho>' v) (opc (h ! a))"
  shows "det_result h \<rho> a = det_result h \<rho>' a"
proof -
  have "args (h ! a) ! 0 \<in> set (args (h ! a))" using assms(1) by simp
  with assms(2) have "slot_value \<rho> (args (h ! a) ! 0) = slot_value \<rho>' (args (h ! a) ! 0)" by blast
  with assms(3) arg_values_cong [of h a \<rho> \<rho>', OF assms(2)] show ?thesis by (simp add: det_result_def Let_def)
qed

lemma slot_value_rel:
  assumes "env_rel h X \<rho> \<rho>'" "\<And>c. v = VInst c \<Longrightarrow> c \<notin> X"
  shows "slot_value \<rho> v = slot_value \<rho>' v"
  using assms by (cases v) (auto simp: env_rel_def)

lemma det_result_rel:
  assumes "env_rel h X \<rho> \<rho>'" "a < length h" "length (args (h ! a)) = 4"
    and "\<And>c. VInst c \<in> set (args (h ! a)) \<Longrightarrow> c \<notin> X"
  shows "det_result h \<rho> a = det_result h \<rho>' a" "arg_values h \<rho> a = arg_values h \<rho>' a"
proof -
  have sv: "slot_value \<rho> v = slot_value \<rho>' v" if "v \<in> set (args (h ! a))" for v
    using assms(1,4) that by (intro slot_value_rel) auto
  then show "arg_values h \<rho> a = arg_values h \<rho>' a" by (rule arg_values_cong)
  show "det_result h \<rho> a = det_result h \<rho>' a"
  proof (rule det_result_cong [OF assms(3) sv])
    fix v assume v: "v = args (h ! a) ! 0" and rp: "reads_parent (opc (h ! a))"
    show "pseudo (slot_result \<rho> v) (opc (h ! a)) = pseudo (slot_result \<rho>' v) (opc (h ! a))"
    proof (cases v)
      case (VInst c)
      then have "VInst c \<in> set (args (h ! a))" using v assms(3) by (metis nth_mem zero_less_numeral)
      moreover have "reads h c (opc (h ! a))" using VInst v rp assms(2) by (auto simp: reads_def)
      ultimately show ?thesis using VInst assms(1,4) by (auto simp: env_rel_def)
    qed auto
  qed
qed

lemma settled_cong:
  assumes "length (args (h ! b)) = 4" "\<And>c. VInst c \<in> set (args (h ! b)) \<Longrightarrow> \<rho> c = \<rho>' c" "\<rho> b = \<rho>' b"
  shows "settled h \<rho> b = settled h \<rho>' b"
proof -
  have sr: "slot_result \<rho> v = slot_result \<rho>' v" if "v \<in> set (args (h ! b))" for v
    using assms(2) that by (cases v) auto
  have "args (h ! b) ! 0 \<in> set (args (h ! b))" using assms(1) by simp
  then have "det_result h \<rho> b = det_result h \<rho>' b"
    using sr by (intro det_result_cong [OF assms(1)]) (auto simp: slot_value_def)
  then show ?thesis by (simp add: settled_def assms(3))
qed

lemma sval_ok_imm: "sval_ok (value_type v) (imm_sval v)"
  by (cases v) (simp_all add: sval_ok_def imm_sval_def)

lemma sval_okD:
  "sval_ok Type_U1 v \<Longrightarrow> v = S1 (as1 v)" "sval_ok Type_U8 v \<Longrightarrow> v = S8 (as8 v)" "sval_ok Type_U16 v \<Longrightarrow> v = S16 (as16 v)"
  "sval_ok Type_U32 v \<Longrightarrow> v = S32 (as32 v)" "sval_ok Type_U64 v \<Longrightarrow> v = S64 (as64 v)"
  by (simp_all add: sval_ok_def)

lemma assoc_in: "assoc xs k = Some v \<Longrightarrow> (k, v) \<in> set xs"
  by (induction xs) (auto split: if_splits)

definition pure_row_typed :: "opcode \<times> (sval list \<Rightarrow> result) \<Rightarrow> bool" where
  "pure_row_typed row \<longleftrightarrow> (\<forall>vs. \<exists>t. GetTypeOf (fst row) = Some t \<and> sval_ok t (rv (snd row vs)))"

lemma pure_table_typed: "list_all pure_row_typed pure_table"
  by (simp add: pure_table_def pure_row_typed_def sval_ok_def GetTypeOf_def Let_def AddWithCarry_def add_flags_def)

lemma pure_sem_typed: "pure_sem p = Some f \<Longrightarrow> GetTypeOf p = Some t \<Longrightarrow> sval_ok t (rv (f vs))"
  using pure_table_typed assoc_in [of pure_table p f]
  by (fastforce simp: pure_sem_def list_all_iff pure_row_typed_def)

lemma ordered_split:
  assumes "ranked h r" "ordered (pre @ a # as) h r"
  shows "a < length h" "VInst c \<in> set (args (h ! a)) \<Longrightarrow> c \<in> set pre" "closed_under_args h (set pre)" "a \<notin> set pre"
proof -
  have s: "set (pre @ a # as) \<subseteq> {..<length h}" "sorted_wrt (\<lambda>a b. r a < r b) (pre @ a # as)"
    "closed_under_args h (set (pre @ a # as))"
    using assms(2) by (auto simp: ordered_def)
  show "a < length h" using s(1) by simp
  show "a \<notin> set pre" using s(2) by (auto simp: sorted_wrt_append)
  have lower: "r c < r b" if "VInst c \<in> set (args (h ! b))" "b < length h" for b c
    using assms(1) that by (fastforce simp: ranked_alt)
  have inpre: "c \<in> set pre" if "c \<in> set (pre @ a # as)" "r c < r b" "b \<in> insert a (set pre)" for b c
    using that s(2) by (fastforce simp: sorted_wrt_append)
  show "c \<in> set pre" if "VInst c \<in> set (args (h ! a))"
    using that s lower [of c a] by (intro inpre [of c a]) (auto simp: closed_under_args_def)
  show "closed_under_args h (set pre)"
    unfolding closed_under_args_def
  proof (intro ballI allI impI)
    fix b c assume "b \<in> set pre" "VInst c \<in> set (args (h ! b))"
    with s lower [of c b] show "c \<in> set pre" by (intro inpre [of c b]) (auto simp: closed_under_args_def)
  qed
qed

lemma coerce_typed: "reads_parent p \<Longrightarrow> GetTypeOf p = Some t \<Longrightarrow> sval_ok t (coerce_pseudo p v)"
  unfolding reads_parent_def by (elim insertE) (simp_all add: GetTypeOf_def coerce_pseudo_def sval_ok_def)

lemma same_effect_step: "same_effect h h' \<rho> a \<Longrightarrow> same_step exec h h' \<rho> a"
  by (auto simp: same_step_def same_effect_def step_inst_def Let_def case_prod_unfold split: option.splits)

section \<open>Machines\<close>

locale ir_machine =
  fixes exec :: "opcode \<Rightarrow> sval list \<Rightarrow> 's \<Rightarrow> result \<times> 's"
  assumes silent: "\<not> MayHaveSideEffects p \<Longrightarrow> snd (exec p vs s) = s"
    and result_typed: "GetTypeOf p = Some t \<Longrightarrow> sval_ok t (rv (fst (exec p vs s)))"
begin

lemma step_quiet: "quiet h \<rho> a \<Longrightarrow> snd (step_inst exec h \<rho> s a) = s"
  unfolding quiet_def step_inst_def using silent [of "opc (h ! a)"] by (cases "det_result h \<rho> a") simp_all

lemma step_typed:
  assumes "wf_heap h r" "a < length h" "env_before h a D \<rho>" "GetType h (VInst a) = Some t"
  shows "sval_ok t (rv (fst (step_inst exec h \<rho> s a)))"
proof -
  have rk: "ranked h r" using assms(1) by (simp add: wf_heap_def)
  show ?thesis
  proof (cases "opc (h ! a) = ''Identity''")
    case True
    let ?v = "args (h ! a) ! 0"
    have mem: "?v \<in> set (args (h ! a))" using ranked_length [OF rk assms(2)] by simp
    have t: "GetType h ?v = Some t"
      using assms(4) chase_identity [OF rk assms(2) True] by (simp add: GetType_def)
    have "sval_ok t (slot_value \<rho> ?v)"
    proof (cases ?v)
      case (VInst c)
      with mem assms(3) have "settled h \<rho> c" by (auto simp: env_before_def)
      with VInst t show ?thesis by (simp add: settled_def)
    qed (use t sval_ok_imm in \<open>auto simp: GetType_def imm_sval_def sval_ok_def\<close>)
    with True show ?thesis by (simp add: step_inst_def det_result_def Let_def)
  next
    case False
    then have t: "GetTypeOf (opc (h ! a)) = Some t" using assms(4) by (simp add: GetType_def)
    consider (void) "opc (h ! a) = ''Void''"
      | (parent) "opc (h ! a) \<noteq> ''Void''" "reads_parent (opc (h ! a))"
      | (pure) f where "opc (h ! a) \<noteq> ''Void''" "\<not> reads_parent (opc (h ! a))" "pure_sem (opc (h ! a)) = Some f"
      | (machine) "opc (h ! a) \<noteq> ''Void''" "\<not> reads_parent (opc (h ! a))" "pure_sem (opc (h ! a)) = None"
      by blast
    then show ?thesis
    proof cases
      case void
      with t show ?thesis by (simp add: step_inst_def det_result_def sval_ok_def GetTypeOf_def)
    next
      case parent
      with False show ?thesis using coerce_typed [OF parent(2) t] by (simp add: step_inst_def det_result_def Let_def)
    next
      case pure
      with False show ?thesis using pure_sem_typed [OF pure(3) t] by (simp add: step_inst_def det_result_def Let_def)
    next
      case machine
      with False show ?thesis using result_typed [OF t] by (simp add: step_inst_def det_result_def Let_def)
    qed
  qed
qed

lemma env_after:
  assumes "wf_heap h r" "a < length h" "a \<notin> D" "env_before h a D \<rho>"
  shows "\<forall>b\<in>insert a D. settled h (\<rho>(a := fst (step_inst exec h \<rho> s a))) b" "closed_under_args h (insert a D)"
proof -
  have rk: "ranked h r" using assms(1) by (simp add: wf_heap_def)
  let ?x = "fst (step_inst exec h \<rho> s a)"
  have D: "D \<subseteq> {..<length h}" "closed_under_args h D" "\<And>b. b \<in> D \<Longrightarrow> settled h \<rho> b"
    and aD: "\<And>c. VInst c \<in> set (args (h ! a)) \<Longrightarrow> c \<in> D"
    using assms(4) by (auto simp: env_before_def)
  show "closed_under_args h (insert a D)" using D(2) aD by (auto simp: closed_under_args_def)
  have "settled h (\<rho>(a := ?x)) b" if "b \<in> D" for b
  proof -
    have "\<And>c. VInst c \<in> set (args (h ! b)) \<Longrightarrow> c \<noteq> a"
      using D(2) that assms(3) by (auto simp: closed_under_args_def)
    then have "settled h (\<rho>(a := ?x)) b = settled h \<rho> b"
      using that assms(3) D(1) ranked_length [OF rk, of b] by (intro settled_cong) auto
    with D(3) [OF that] show ?thesis by simp
  qed
  moreover have "settled h (\<rho>(a := ?x)) a"
  proof -
    have "\<And>c. VInst c \<in> set (args (h ! a)) \<Longrightarrow> c \<noteq> a" using slots_self [OF rk assms(2)] by auto
    then have "\<And>v. v \<in> set (args (h ! a)) \<Longrightarrow> slot_result (\<rho>(a := ?x)) v = slot_result \<rho> v"
      by (metis fun_upd_other ir_value.exhaust slot_simps(1,4) slot_result_def)
    moreover have "args (h ! a) ! 0 \<in> set (args (h ! a))" using ranked_length [OF rk assms(2)] by simp
    ultimately have "det_result h (\<rho>(a := ?x)) a = det_result h \<rho> a"
      by (intro det_result_cong [OF ranked_length [OF rk assms(2)]]) (auto simp: slot_value_def)
    then show ?thesis
      using step_typed [OF assms(1,2,4)] by (auto simp: settled_def step_inst_def)
  qed
  ultimately show "\<forall>b\<in>insert a D. settled h (\<rho>(a := ?x)) b" by blast
qed

text \<open>
  The simulation behind every pass: instructions outside \<open>X\<close> keep their observable
  effect, instructions in \<open>X\<close> are quiet and nobody uses them, and those in \<open>Y\<close> are gone.
\<close>

lemma run_sim_step:
  assumes wf: "wf_heap h r" and ord: "ordered (pre @ as) h r"
    and len: "length h' = length h" "\<And>b. b < length h \<Longrightarrow> length (args (h' ! b)) = 4"
    and Y: "Y \<subseteq> X"
    and use: "\<And>b c. b \<in> set as \<Longrightarrow> b \<notin> Y \<Longrightarrow> VInst c \<in> set (args (h' ! b)) \<Longrightarrow> c \<notin> X"
    and eff: "\<And>b D \<rho>. b \<in> set as \<Longrightarrow> b \<notin> X \<Longrightarrow> env_before h b D \<rho> \<Longrightarrow> same_step exec h h' \<rho> b"
    and qu: "\<And>b D \<rho>. b \<in> set as \<Longrightarrow> b \<in> X \<Longrightarrow> env_before h b D \<rho> \<Longrightarrow> quiet h \<rho> b"
    and qu': "\<And>b \<rho>. b \<in> set as \<Longrightarrow> b \<in> X \<Longrightarrow> b \<notin> Y \<Longrightarrow> quiet h' \<rho> b"
    and env: "\<And>b. b \<in> set pre \<Longrightarrow> settled h \<rho> b" "env_rel h' X \<rho> \<rho>'"
  shows "snd (run exec h as (\<rho>, s)) = snd (run exec h' (filter (\<lambda>b. b \<notin> Y) as) (\<rho>', s))"
proof -
  have rk: "ranked h r" using wf by (simp add: wf_heap_def)
  show ?thesis
  using ord use eff qu qu' env
proof (induction as arbitrary: pre \<rho> \<rho>' s)
  case (Cons a as)
  have a: "a < length h" and inpre: "\<And>c. VInst c \<in> set (args (h ! a)) \<Longrightarrow> c \<in> set pre"
    and cpre: "closed_under_args h (set pre)" and anp: "a \<notin> set pre"
    using ordered_split [OF rk Cons.prems(1)] by auto
  have before: "env_before h a (set pre) \<rho>"
    using Cons.prems(1,6) inpre cpre by (auto simp: env_before_def ordered_def)
  let ?st = "step_inst exec h \<rho> s a"
  let ?\<rho> = "\<rho>(a := fst ?st)"
  have ord': "ordered ((pre @ [a]) @ as) h r" using Cons.prems(1) by simp
  have settled': "settled h ?\<rho> b" if "b \<in> set (pre @ [a])" for b
    using env_after(1) [OF wf a anp before] that by auto
  have IH: "snd (run exec h as (?\<rho>, s')) = snd (run exec h' (filter (\<lambda>b. b \<notin> Y) as) (\<rho>'', s'))"
    if "env_rel h' X ?\<rho> \<rho>''" for \<rho>'' s'
  proof (rule Cons.IH [OF ord' _ _ _ _ settled' that])
    show "c \<notin> X" if "b \<in> set as" "b \<notin> Y" "VInst c \<in> set (args (h' ! b))" for b c
      using Cons.prems(2) [of b c] that by simp
    show "same_step exec h h' \<rho> b" if "b \<in> set as" "b \<notin> X" "env_before h b D \<rho>" for b D \<rho>
      using Cons.prems(3) [of b D \<rho>] that by simp
    show "quiet h \<rho> b" if "b \<in> set as" "b \<in> X" "env_before h b D \<rho>" for b D \<rho>
      using Cons.prems(4) [of b D \<rho>] that by simp
    show "quiet h' \<rho> b" if "b \<in> set as" "b \<in> X" "b \<notin> Y" for b \<rho>
      using Cons.prems(5) [of b \<rho>] that by simp
  qed
  show ?case
  proof (cases "a \<in> X")
    case True
    then have s1: "snd ?st = s" using Cons.prems(4) [of a "set pre" \<rho>] before by (intro step_quiet) simp
    show ?thesis
    proof (cases "a \<in> Y")
      case aY: True
      have "env_rel h' X ?\<rho> \<rho>'" using Cons.prems(7) True by (simp add: env_rel_def)
      with IH [of \<rho>' s] s1 aY show ?thesis by (simp add: case_prod_unfold Let_def)
    next
      case False
      let ?st' = "step_inst exec h' \<rho>' s a"
      have s2: "snd ?st' = s" using Cons.prems(5) [of a \<rho>'] True False by (intro step_quiet) simp
      have "env_rel h' X ?\<rho> (\<rho>'(a := fst ?st'))" using Cons.prems(7) True by (simp add: env_rel_def)
      with IH [of "\<rho>'(a := fst ?st')" s] s1 s2 False show ?thesis by (simp add: case_prod_unfold Let_def)
    qed
  next
    case False
    then have aY: "a \<notin> Y" using Y by auto
    have se: "same_step exec h h' \<rho> a" using Cons.prems(3) [of a "set pre" \<rho>] False before by simp
    have al: "a < length h'" "length (args (h' ! a)) = 4" using a len by auto
    have dr: "det_result h' \<rho> a = det_result h' \<rho>' a" "arg_values h' \<rho> a = arg_values h' \<rho>' a"
      using det_result_rel [OF Cons.prems(7) al] Cons.prems(2) [of a] aY by auto
    let ?st' = "step_inst exec h' \<rho>' s a"
    have stp: "step_inst exec h' \<rho> s a = ?st'" unfolding step_inst_def dr by (rule refl)
    have "snd ?st = snd ?st'" and rel: "rv (fst ?st) = rv (fst ?st')"
      and "\<And>p. reads h' a p \<Longrightarrow> pseudo (fst ?st) p = pseudo (fst ?st') p"
      using spec [OF se [unfolded same_step_def], of s] unfolding stp Let_def case_prod_unfold by blast+
    moreover from this have "env_rel h' X ?\<rho> (\<rho>'(a := fst ?st'))"
      using Cons.prems(7) by (simp add: env_rel_def)
    ultimately show ?thesis
      using IH [of "\<rho>'(a := fst ?st')" "snd ?st"] aY by (simp add: case_prod_unfold Let_def)
  qed
qed simp
qed

lemma run_sim:
  assumes wf: "wf_heap h r" and ord: "ordered (pre @ as) h r"
    and len: "length h' = length h" "\<And>b. b < length h \<Longrightarrow> length (args (h' ! b)) = 4"
    and Y: "Y \<subseteq> X"
    and use: "\<And>b c. b \<in> set as \<Longrightarrow> b \<notin> Y \<Longrightarrow> VInst c \<in> set (args (h' ! b)) \<Longrightarrow> c \<notin> X"
    and eff: "\<And>b D \<rho>. b \<in> set as \<Longrightarrow> b \<notin> X \<Longrightarrow> env_before h b D \<rho> \<Longrightarrow> same_effect h h' \<rho> b"
    and qu: "\<And>b D \<rho>. b \<in> set as \<Longrightarrow> b \<in> X \<Longrightarrow> env_before h b D \<rho> \<Longrightarrow> quiet h \<rho> b"
    and qu': "\<And>b \<rho>. b \<in> set as \<Longrightarrow> b \<in> X \<Longrightarrow> b \<notin> Y \<Longrightarrow> quiet h' \<rho> b"
    and env: "\<And>b. b \<in> set pre \<Longrightarrow> settled h \<rho> b" "env_rel h' X \<rho> \<rho>'"
  shows "snd (run exec h as (\<rho>, s)) = snd (run exec h' (filter (\<lambda>b. b \<notin> Y) as) (\<rho>', s))"
  by (rule run_sim_step [OF wf ord len Y use _ qu qu' env]) (auto intro: same_effect_step eff)

end

section \<open>The trace machine\<close>

text \<open>
  The machine that records what a block does to the outside world: the side effects it
  has performed so far, in order, each with the values it was given. What an instruction
  outside the deterministic ones returns (a register read, a memory read, a floating point
  operation) is an arbitrary function of that history and of the operands, forced into
  the type of the opcode table.
\<close>

type_synonym trace = "(opcode \<times> sval list) list"

definition default_sval :: "ir_type \<Rightarrow> sval" where
  "default_sval t = (if t = Type_U1 then S1 False else if t = Type_U8 then S8 0 else if t = Type_U16 then S16 0
     else if t = Type_U32 then S32 0 else if t = Type_U64 then S64 0 else SVoid)"

definition trace_exec :: "(opcode \<Rightarrow> sval list \<Rightarrow> trace \<Rightarrow> result) \<Rightarrow> opcode \<Rightarrow> sval list \<Rightarrow> trace \<Rightarrow> result \<times> trace" where
  "trace_exec orc p vs s =
     (let x = orc p vs s in
      (case GetTypeOf p of None \<Rightarrow> x
         | Some t \<Rightarrow> if sval_ok t (rv x) then x else x\<lparr>rv := default_sval t\<rparr>,
       if MayHaveSideEffects p then s @ [(p, vs)] else s))"

lemma default_sval_ok: "sval_ok t (default_sval t)"
  by (simp add: sval_ok_def default_sval_def)

interpretation trace: ir_machine "trace_exec orc" for orc
  by unfold_locales (auto simp: trace_exec_def Let_def default_sval_ok)

end
