(* ===== verification/Opt_Passes.thy ===== *)
theory Opt_Passes
  imports IR_Semantics
begin

text \<open>
  The block-local passes of \<^verbatim>\<open>ir/opt/\<close> that remove and check instructions: dead code
  elimination, naming and verification.  A block is the list of its
  instructions' addresses in the pool, in order; a pass is a function from pools to
  pools that is undefined where an assertion of the source fails.
\<close>

section \<open>The passes\<close>

subsection \<open>Dead code elimination (dead_code_elimination_pass.cpp)\<close>

definition dce_step :: "heap \<Rightarrow> nat \<Rightarrow> heap option" where
  "dce_step h a = (if \<not> HasUses h a \<and> \<not> MayHaveSideEffects (opc (h ! a)) then Invalidate h a else Some h)"

fun dce_loop :: "heap \<Rightarrow> nat list \<Rightarrow> heap option" where
  "dce_loop h [] = Some h"
| "dce_loop h (a # as) = do { h1 \<leftarrow> dce_step h a; dce_loop h1 as }"

definition DeadCodeElimination :: "heap \<Rightarrow> nat list \<Rightarrow> heap option" where
  "DeadCodeElimination h block = dce_loop h (rev block)"

subsection \<open>Naming (naming_pass.cpp)\<close>

fun naming_loop :: "heap \<Rightarrow> u32 \<Rightarrow> nat list \<Rightarrow> heap" where
  "naming_loop h name [] = h"
| "naming_loop h name (a # as) = naming_loop (SetName h a name) (name + 1) as"

definition NamingPass :: "heap \<Rightarrow> nat list \<Rightarrow> heap" where
  "NamingPass h block = naming_loop h 1 block"

subsection \<open>Verification (verification_pass.cpp)\<close>

fun verify_arg_types :: "heap \<Rightarrow> nat \<Rightarrow> nat list \<Rightarrow> unit option" where
  "verify_arg_types h a [] = Some ()"
| "verify_arg_types h a (i # is) = do {
     v \<leftarrow> GetArg h a i;
     t1 \<leftarrow> GetType h v;
     t2 \<leftarrow> GetArgTypeOf (opc (h ! a)) i;
     assert_opt (AreTypesCompatible t1 t2);
     verify_arg_types h a is }"

fun verify_types :: "heap \<Rightarrow> nat list \<Rightarrow> unit option" where
  "verify_types h [] = Some ()"
| "verify_types h (a # as) = do { n \<leftarrow> NumArgs h a; verify_arg_types h a [0..<n]; verify_types h as }"

fun count_arg_uses :: "heap \<Rightarrow> nat \<Rightarrow> nat list \<Rightarrow> (nat \<Rightarrow> nat) \<Rightarrow> (nat \<Rightarrow> nat) option" where
  "count_arg_uses h a [] uses = Some uses"
| "count_arg_uses h a (i # is) uses = do {
     v \<leftarrow> GetArg h a i;
     imm \<leftarrow> IsImmediate h v;
     uses \<leftarrow> (if imm then Some uses else do { b \<leftarrow> GetInst v; Some (uses(b := uses b + 1)) });
     count_arg_uses h a is uses }"

fun count_uses :: "heap \<Rightarrow> nat list \<Rightarrow> (nat \<Rightarrow> nat) \<Rightarrow> (nat \<Rightarrow> nat) option" where
  "count_uses h [] uses = Some uses"
| "count_uses h (a # as) uses = do { n \<leftarrow> NumArgs h a; uses \<leftarrow> count_arg_uses h a [0..<n] uses; count_uses h as uses }"

text \<open>The entries of the source's map are the instructions with a non-zero number of uses.\<close>

definition VerificationPass :: "heap \<Rightarrow> nat list \<Rightarrow> unit option" where
  "VerificationPass h block = do {
     verify_types h block;
     actual_uses \<leftarrow> count_uses h block (\<lambda>b. 0);
     assert_opt (list_all (\<lambda>b. actual_uses b = 0 \<or> unat (use_count (h ! b)) = actual_uses b) [0..<length h]) }"

section \<open>Dead code elimination\<close>

lemma unused_slots:
  assumes "wf_heap h r" "a < length h" "\<not> HasUses h a"
  shows "slots h a = 0"
proof -
  have "use_count (h ! a) = 0" using assms(3) by (simp add: HasUses_def word_gt_0)
  moreover have "if opc (h ! a) = ''Void'' then slots h a = 0
    else if nonimm h (VInst a) then use_count (h ! a) = of_nat (slots h a)
    else use_count (h ! a) = 0 \<longrightarrow> slots h a = 0"
    using assms(1,2) unfolding wf_heap_def counted_def by blast
  moreover have "(of_nat (slots h a) :: u32) = 0 \<longleftrightarrow> slots h a = 0"
    using assms(1) by (intro of_nat_slots_0) (auto simp: wf_heap_def)
  ultimately show ?thesis by (metis (full_types))
qed

lemma same_effect_refl:
  assumes "opc (h' ! b) = opc (h ! b)" "args (h' ! b) = args (h ! b)"
  shows "same_effect h h' \<rho> b"
proof -
  have "det_result h' \<rho> b = det_result h \<rho> b" "arg_values h' \<rho> b = arg_values h \<rho> b"
    using assms by (simp_all add: det_result_def arg_values_def Let_def)
  then show ?thesis using assms by (simp add: same_effect_def split: option.split)
qed

lemma ordered_invalidated:
  assumes "ordered block h r" "invalidated h a h'"
  shows "ordered block h' r"
  using assms unfolding ordered_def closed_under_args_def invalidated_def
  by (auto simp: subset_iff split: if_splits)

lemma run_invalidated:
  assumes "wf_heap h r" "ordered block h r" "invalidated h a h'" "slots h a = 0" "\<not> MayHaveSideEffects (opc (h ! a))"
  shows "snd (run (trace_exec orc) h' block (\<rho>, s)) = snd (run (trace_exec orc) h block (\<rho>, s))"
proof -
  have rk: "ranked h r" using assms(1) by (simp add: wf_heap_def)
  have inb: "b < length h" if "b \<in> set block" for b using assms(2) that unfolding ordered_def by blast
  have i: "length h' = length h" "\<And>b. b < length h \<Longrightarrow> opc (h' ! b) = (if b = a then ''Void'' else opc (h ! b))"
    "\<And>b. b < length h \<Longrightarrow> args (h' ! b) = (if b = a then replicate 4 VEmpty else args (h ! b))"
    using assms(3) unfolding invalidated_def by blast+
  have na: "\<And>b. b < length h \<Longrightarrow> VInst a \<notin> set (args (h ! b))" using assms(4) unfolding slots_0 by blast
  have "snd (run (trace_exec orc) h block (\<rho>, s)) = snd (run (trace_exec orc) h' (filter (\<lambda>b. b \<notin> {}) block) (\<rho>, s))"
  proof (rule trace.run_sim [OF assms(1), where pre = "[]" and X = "{a}"])
    show "ordered ([] @ block) h r" using assms(2) by simp
    show "length h' = length h" by (rule i(1))
    show "length (args (h' ! b)) = 4" if "b < length h" for b
      using i(3) [OF that] ranked_length [OF rk that] by simp
    show "c \<notin> {a}" if "b \<in> set block" "b \<notin> {}" "VInst c \<in> set (args (h' ! b))" for b c
      using i(3) [OF inb [OF that(1)]] na [OF inb [OF that(1)]] that(3) by (cases "b = a") auto
    show "same_effect h h' \<rho>' b" if "b \<in> set block" "b \<notin> {a}" "env_before h b D \<rho>'" for b D \<rho>'
      using i(2,3) [OF inb [OF that(1)]] that(2) by (intro same_effect_refl) simp_all
    show "quiet h \<rho>' b" if "b \<in> set block" "b \<in> {a}" "env_before h b D \<rho>'" for b D \<rho>'
      using that(2) assms(5) by (simp add: quiet_def)
    show "quiet h' \<rho>' b" if "b \<in> set block" "b \<in> {a}" "b \<notin> {}" for b \<rho>'
      using i(2) [OF inb [OF that(1)]] that(2) by (simp add: quiet_def det_result_def Let_def)
    show "settled h \<rho> b" if "b \<in> set []" for b using that by simp
    show "env_rel h' {a} \<rho> \<rho>" by (simp add: env_rel_def)
  qed simp
  then show ?thesis by simp
qed

lemma dce_step_correct:
  assumes "wf_heap h r" "ordered block h r" "a \<in> set block"
  shows "\<exists>h'. dce_step h a = Some h' \<and> wf_heap h' r \<and> ordered block h' r
    \<and> (\<forall>orc \<rho> s. snd (run (trace_exec orc) h' block (\<rho>, s)) = snd (run (trace_exec orc) h block (\<rho>, s)))"
proof (cases "\<not> HasUses h a \<and> \<not> MayHaveSideEffects (opc (h ! a))")
  case False
  then have "dce_step h a = Some h" unfolding dce_step_def by (simp only: if_False)
  with assms show ?thesis by simp
next
  case True
  have a: "a < length h" using assms(2,3) by (auto simp: ordered_def)
  have sl: "slots h a = 0" using unused_slots [OF assms(1) a] True by simp
  obtain h' where h': "Invalidate h a = Some h'" "invalidated h a h'" "wf_heap h' r"
    using Invalidate_wf [OF assms(1) a sl] by blast
  have "dce_step h a = Some h'" using True h'(1) by (simp add: dce_step_def)
  moreover have "ordered block h' r" by (rule ordered_invalidated [OF assms(2) h'(2)])
  moreover have "snd (run (trace_exec orc) h' block (\<rho>, s)) = snd (run (trace_exec orc) h block (\<rho>, s))" for orc \<rho> s
    by (rule run_invalidated [OF assms(1,2) h'(2) sl]) (use True in simp)
  ultimately show ?thesis using h'(3) by blast
qed

lemma dce_loop_correct:
  "wf_heap h r \<Longrightarrow> ordered block h r \<Longrightarrow> set as \<subseteq> set block \<Longrightarrow>
    \<exists>h'. dce_loop h as = Some h' \<and> wf_heap h' r \<and> ordered block h' r
      \<and> (\<forall>orc \<rho> s. snd (run (trace_exec orc) h' block (\<rho>, s)) = snd (run (trace_exec orc) h block (\<rho>, s)))"
proof (induction as arbitrary: h)
  case (Cons a as)
  have "a \<in> set block" using Cons.prems(3) by simp
  then obtain h1 where h1: "dce_step h a = Some h1" "wf_heap h1 r" "ordered block h1 r"
    and r1: "\<forall>orc \<rho> s. snd (run (trace_exec orc) h1 block (\<rho>, s)) = snd (run (trace_exec orc) h block (\<rho>, s))"
    using dce_step_correct [OF Cons.prems(1,2)] by blast
  obtain h' where "dce_loop h1 as = Some h'" "wf_heap h' r" "ordered block h' r"
    "\<forall>orc \<rho> s. snd (run (trace_exec orc) h' block (\<rho>, s)) = snd (run (trace_exec orc) h1 block (\<rho>, s))"
    using Cons.IH [OF h1(2,3)] Cons.prems(3) by auto
  then show ?case using h1(1) r1 by simp
qed simp

text \<open>No instruction is left that is neither used nor executed for its effect.\<close>

definition live :: "heap \<Rightarrow> nat \<Rightarrow> bool" where
  "live h b \<longleftrightarrow> opc (h ! b) = ''Void'' \<or> HasUses h b \<or> MayHaveSideEffects (opc (h ! b))"

lemma dce_step_live:
  assumes "wf_heap h r" "ordered block h r" "a \<in> set block" "dce_step h a = Some h'"
  shows "live h' a" "b \<in> set block \<Longrightarrow> r a < r b \<Longrightarrow> live h b \<Longrightarrow> live h' b"
proof -
  have a: "a < length h" using assms(2,3) unfolding ordered_def by blast
  have rk: "ranked h r" using assms(1) by (simp add: wf_heap_def)
  have "live h' a \<and> (b \<in> set block \<longrightarrow> r a < r b \<longrightarrow> live h b \<longrightarrow> live h' b)"
  proof (cases "\<not> HasUses h a \<and> \<not> MayHaveSideEffects (opc (h ! a))")
    case False
    then have "h' = h" using assms(4) unfolding dce_step_def by (simp only: if_False option.inject)
    with False show ?thesis by (auto simp: live_def)
  next
    case True
    have sl: "slots h a = 0" using unused_slots [OF assms(1) a] True by simp
    have inv: "invalidated h a h'"
      using Invalidate_wf [OF assms(1) a sl] assms(4) True by (metis dce_step_def option.inject)
    have "live h' b" if "b \<in> set block" "r a < r b" "live h b"
    proof -
      have b: "b < length h" "b \<noteq> a" using assms(2) that unfolding ordered_def by auto
      have "VInst b \<notin> set (args (h ! a))" using rk a that(2) by (fastforce simp: ranked_alt)
      then have "count_list (args (h ! a)) (VInst b) = 0" by (simp add: count_list_0_iff)
      then have "use_count (h' ! b) = use_count (h ! b)" "opc (h' ! b) = opc (h ! b)"
        using inv b unfolding invalidated_def by simp_all
      with that(3) show ?thesis by (simp add: live_def HasUses_def)
    qed
    moreover have "opc (h' ! a) = ''Void''" using inv a unfolding invalidated_def by simp
    ultimately show ?thesis by (simp add: live_def)
  qed
  then show "live h' a" "b \<in> set block \<Longrightarrow> r a < r b \<Longrightarrow> live h b \<Longrightarrow> live h' b" by blast+
qed

lemma dce_loop_live:
  assumes "wf_heap h r" "ordered block h r" "set as \<subseteq> set block" "D \<subseteq> set block"
    and "\<And>a b. a \<in> set as \<Longrightarrow> b \<in> D \<Longrightarrow> r a < r b" "sorted_wrt (\<lambda>a b. r b < r a) as"
    and "\<And>b. b \<in> D \<Longrightarrow> live h b" "dce_loop h as = Some h'" "b \<in> D \<union> set as"
  shows "live h' b"
  using assms
proof (induction as arbitrary: h D)
  case (Cons a as)
  have ab: "a \<in> set block" using Cons.prems(3) by simp
  obtain h1 where h1: "dce_step h a = Some h1" "wf_heap h1 r" "ordered block h1 r"
    using dce_step_correct [OF Cons.prems(1,2) ab] by blast
  have loop: "dce_loop h1 as = Some h'" using Cons.prems(8) h1(1) by simp
  show ?case
  proof (rule Cons.IH [OF h1(2,3) _ _ _ _ _ loop, where D = "insert a D"])
    show "set as \<subseteq> set block" "insert a D \<subseteq> set block" using Cons.prems(3,4) by auto
    show "r c < r d" if "c \<in> set as" "d \<in> insert a D" for c d
      using that Cons.prems(5) [of c d] Cons.prems(6) by auto
    show "sorted_wrt (\<lambda>a b. r b < r a) as" using Cons.prems(6) by simp
    show "live h1 d" if "d \<in> insert a D" for d
    proof (cases "d = a")
      case True
      then show ?thesis using dce_step_live(1) [OF Cons.prems(1,2) ab h1(1)] by simp
    next
      case False
      then have d: "d \<in> D" using that by simp
      show ?thesis
        by (rule dce_step_live(2) [OF Cons.prems(1,2) ab h1(1)])
          (use d Cons.prems(4,5,7) in auto)
    qed
    show "b \<in> insert a D \<union> set as" using Cons.prems(9) by auto
  qed
qed auto

text \<open>
  C1. Dead code elimination preserves the behaviour of a well-formed block: it
  terminates without failing an assertion, leaves a well-formed block, and on every
  machine the transformed block performs the same side effects, in the same order and
  with the same operands, as the original.
\<close>

theorem DeadCodeElimination_correct:
  assumes "wf_heap h r" "ordered block h r"
  shows "\<exists>h'. DeadCodeElimination h block = Some h' \<and> wf_heap h' r \<and> ordered block h' r
    \<and> (\<forall>orc \<rho> s. snd (run (trace_exec orc) h' block (\<rho>, s)) = snd (run (trace_exec orc) h block (\<rho>, s)))"
  using dce_loop_correct [OF assms, of "rev block"] by (simp add: DeadCodeElimination_def)

text \<open>
  C2. Dead code elimination is complete in one pass: because it visits the instructions
  from the last to the first, every instruction it leaves in the block is used or has a
  side effect.
\<close>

theorem DeadCodeElimination_complete:
  assumes "wf_heap h r" "ordered block h r" "DeadCodeElimination h block = Some h'" "b \<in> set block"
  shows "opc (h' ! b) = ''Void'' \<or> HasUses h' b \<or> MayHaveSideEffects (opc (h' ! b))"
proof -
  have "live h' b"
  proof (rule dce_loop_live [OF assms(1,2), of "rev block" "{}"])
    show "sorted_wrt (\<lambda>a b. r b < r a) (rev block)" using assms(2) by (simp add: ordered_def sorted_wrt_rev)
    show "dce_loop h (rev block) = Some h'" using assms(3) by (simp add: DeadCodeElimination_def)
  qed (use assms(4) in auto)
  then show ?thesis by (simp add: live_def)
qed

text \<open>A block that computes a value nobody needs, and stops.\<close>

definition example_block :: heap where
  "example_block =
    [(new_inst ''LeastSignificantWord'')\<lparr>args := [VU64 5, VEmpty, VEmpty, VEmpty], use_count := 1\<rparr>,
     (new_inst ''ZeroExtendWordToLong'')\<lparr>args := [VInst 0, VEmpty, VEmpty, VEmpty]\<rparr>,
     new_inst ''Breakpoint'']"

lemma all_less_4: "(\<forall>i<4. P (i::nat)) \<longleftrightarrow> P 0 \<and> P (Suc 0) \<and> P 2 \<and> P 3"
  by (simp add: numeral_eq_Suc All_less_Suc) blast

lemma opcode_meta_Breakpoint: "opcode_meta ''Breakpoint'' = Some (Type_Void, [])"
  by (simp add: opcode_meta_def opcode_info_def ops_core_def)

lemma example_block_wf: "wf_heap example_block id"
proof -
  have all: "(\<forall>x<length example_block. P x) \<longleftrightarrow> P 0 \<and> P (Suc 0) \<and> P (Suc (Suc 0))" for P
    by (auto simp: example_block_def less_Suc_eq)
  have "ranked example_block id"
    unfolding ranked_alt all by (simp add: example_block_def new_inst_def max_arg_count_def)
  moreover have "counted example_block"
    unfolding counted_def all
    by (simp add: example_block_def new_inst_def max_arg_count_def slots_def nonimm_def chase_def IsIdentity_def)
  moreover have "typed example_block"
    unfolding typed_def all
    by (simp add: args_typed_def example_block_def new_inst_def max_arg_count_def opcode_meta_Breakpoint arg_ok_def
        GetType_def chase_def chase_fuel.simps IsIdentity_def AreTypesCompatible_def GetTypeOf_def all_less_4)
  moreover have np: "\<forall>x<length example_block. \<not> IsAPseudoOperation (opc (example_block ! x)) \<and> next_pseudoop (example_block ! x) = None"
    unfolding all by (simp add: example_block_def new_inst_def IsAPseudoOperation_def)
  then have "\<not> observes example_block b c" for b c by (auto simp: observes_def)
  then have "chained example_block" using np unfolding chained_def chain_ok_def by auto
  ultimately show ?thesis by (simp add: wf_heap_def example_block_def)
qed

lemma example_block_ordered: "ordered [0, 1, 2] example_block id"
  by (auto simp: ordered_def closed_under_args_def example_block_def new_inst_def max_arg_count_def)

theorem DeadCodeElimination_correct_witness:
  "\<exists>h'. DeadCodeElimination example_block [0, 1, 2] = Some h' \<and> wf_heap h' id \<and> (\<forall>orc \<rho> s.
     snd (run (trace_exec orc) h' [0, 1, 2] (\<rho>, s)) = snd (run (trace_exec orc) example_block [0, 1, 2] (\<rho>, s)))"
  using DeadCodeElimination_correct [OF example_block_wf example_block_ordered] by blast

theorem DeadCodeElimination_complete_witness:
  "\<exists>h'. DeadCodeElimination example_block [0, 1, 2] = Some h'
     \<and> (opc (h' ! 0) = ''Void'' \<or> HasUses h' 0 \<or> MayHaveSideEffects (opc (h' ! 0)))"
proof -
  obtain h' where h': "DeadCodeElimination example_block [0, 1, 2] = Some h'"
    using dce_loop_correct [OF example_block_wf example_block_ordered, of "rev [0, 1, 2]"]
    unfolding DeadCodeElimination_def by auto
  then show ?thesis
    using DeadCodeElimination_complete [OF example_block_wf example_block_ordered h', of 0] by simp
qed

section \<open>Verification\<close>

lemma wf_arg:
  assumes "wf_heap h r" "a < length h" "NumArgs h a = Some n" "i < n"
  shows "GetArg h a i = Some (args (h ! a) ! i)"
    "\<exists>t1 t2. GetType h (args (h ! a) ! i) = Some t1 \<and> GetArgTypeOf (opc (h ! a)) i = Some t2 \<and> AreTypesCompatible t1 t2"
proof -
  obtain t ts where m: "opcode_meta (opc (h ! a)) = Some (t, ts)" and n: "n = length ts"
    using assms(3) by (auto simp: NumArgs_def GetNumArgsOf_def)
  have "args_typed h a" using assms(1,2) unfolding wf_heap_def typed_def by blast
  then have "arg_ok h (args (h ! a) ! i) (ts ! i)" using m n assms(4) by (simp add: args_typed_def)
  then obtain t1 where t1: "GetType h (args (h ! a) ! i) = Some t1" "AreTypesCompatible t1 (ts ! i)"
    by (auto simp: arg_ok_def split: option.splits)
  have ty: "GetArgTypeOf (opc (h ! a)) i = Some (ts ! i)" using m n assms(4) by (simp add: GetArgTypeOf_def)
  have "ts ! i \<noteq> Type_Void" using opcode_meta_ok(3) [OF m] assms(4) n by (metis nth_mem)
  moreover have "t1 = Type_Void" if "IsEmpty (args (h ! a) ! i)"
    using that t1(1) by (cases "args (h ! a) ! i")
      (simp_all add: IsEmpty_def GetType_def chase_def chase_fuel.simps IsIdentity_def)
  ultimately have "IsEmpty (args (h ! a) ! i) \<longrightarrow> ts ! i = Type_Opaque"
    using t1(2) by (auto simp: AreTypesCompatible_def)
  then show "GetArg h a i = Some (args (h ! a) ! i)" using assms(3,4) ty by (auto simp: GetArg_def)
  show "\<exists>t1 t2. GetType h (args (h ! a) ! i) = Some t1 \<and> GetArgTypeOf (opc (h ! a)) i = Some t2 \<and> AreTypesCompatible t1 t2"
    using t1 ty by blast
qed

lemma verify_arg_types_wf:
  assumes "wf_heap h r" "a < length h" "NumArgs h a = Some n" "set is \<subseteq> {..<n}"
  shows "verify_arg_types h a is = Some ()"
  using assms(4)
proof (induction "is")
  case (Cons i "is")
  then show ?case using wf_arg [OF assms(1-3), of i] by auto
qed simp

lemma NumArgs_wf: "wf_heap h r \<Longrightarrow> a < length h \<Longrightarrow> \<exists>n. NumArgs h a = Some n"
  unfolding wf_heap_def typed_def args_typed_def NumArgs_def GetNumArgsOf_def by (fastforce split: option.splits)

lemma verify_types_wf:
  assumes "wf_heap h r"
  shows "set as \<subseteq> {..<length h} \<Longrightarrow> verify_types h as = Some ()"
proof (induction as)
  case (Cons a as)
  have a: "a < length h" using Cons.prems by simp
  obtain n where n: "NumArgs h a = Some n" using NumArgs_wf [OF assms a] by blast
  have "verify_arg_types h a [0..<n] = Some ()" by (rule verify_arg_types_wf [OF assms a n]) auto
  with n Cons show ?case by simp
qed simp

definition uses_in :: "heap \<Rightarrow> nat \<Rightarrow> nat \<Rightarrow> nat" where
  "uses_in h a b = (if nonimm h (VInst b) then count_list (args (h ! a)) (VInst b) else 0)"

lemma count_list_indices: "count_list xs y = length (filter (\<lambda>i. xs ! i = y) [0..<length xs])"
proof (induction xs rule: rev_induct)
  case (snoc x xs)
  have "filter (\<lambda>i. (xs @ [x]) ! i = y) [0..<length xs] = filter (\<lambda>i. xs ! i = y) [0..<length xs]"
    by (rule filter_cong) (simp_all add: nth_append)
  with snoc show ?case by simp
qed simp

lemma NumArgs_le: "NumArgs h a = Some n \<Longrightarrow> n \<le> 4"
  using opcode_meta_ok(1) by (fastforce simp: NumArgs_def GetNumArgsOf_def)

lemma count_arg_uses_wf:
  assumes "wf_heap h r" "a < length h" "NumArgs h a = Some n"
  shows "set is \<subseteq> {..<n} \<Longrightarrow> count_arg_uses h a is u =
    Some (\<lambda>b. u b + length (filter (\<lambda>i. args (h ! a) ! i = VInst b \<and> nonimm h (VInst b)) is))"
proof (induction "is" arbitrary: u)
  case (Cons i "is")
  let ?v = "args (h ! a) ! i"
  have rk: "ranked h r" using assms(1) by (simp add: wf_heap_def)
  have g: "GetArg h a i = Some ?v" using wf_arg [OF assms, of i] Cons.prems by simp
  have "n \<le> 4" by (rule NumArgs_le [OF assms(3)])
  then have val: "valid_value h ?v"
    using below_valid [OF ranked_arg [OF rk assms(2), of i]] Cons.prems by simp
  have imm: "IsImmediate h ?v = Some (\<not> nonimm h ?v)" by (rule IsImmediate_eq [OF rk val])
  show ?case
  proof (cases "nonimm h ?v")
    case True
    then obtain c where c: "?v = VInst c"
      by (cases ?v) (auto simp: nonimm_def chase_def chase_fuel.simps IsIdentity_def split: option.splits)
    show ?thesis
      using Cons g imm True c by (auto simp: GetInst_def fun_eq_iff)
  next
    case False
    then show ?thesis using Cons g imm by (auto simp: fun_eq_iff)
  qed
qed simp

lemma count_arg_uses_all:
  assumes "wf_heap h r" "a < length h" "NumArgs h a = Some n"
  shows "count_arg_uses h a [0..<n] u = Some (\<lambda>b. u b + uses_in h a b)"
proof -
  let ?xs = "args (h ! a)"
  have len: "length ?xs = 4" using assms(1,2) ranked_length unfolding wf_heap_def by blast
  obtain t ts where m: "opcode_meta (opc (h ! a)) = Some (t, ts)" and n: "n = length ts"
    using assms(3) by (auto simp: NumArgs_def GetNumArgsOf_def)
  have "args_typed h a" using assms(1,2) unfolding wf_heap_def typed_def by blast
  then have rest: "?xs ! i = VEmpty" if "n \<le> i" "i < 4" for i
    using m n that by (simp add: args_typed_def max_arg_count_def)
  have "[0..<4] = [0..<n] @ [n..<4]"
    using upt_add_eq_append [of 0 n "4 - n"] NumArgs_le [OF assms(3)] by simp
  moreover have "filter (\<lambda>i. ?xs ! i = VInst b) [n..<4] = []" for b
    using rest by (auto simp: filter_empty_conv)
  ultimately have "count_list ?xs (VInst b) = length (filter (\<lambda>i. ?xs ! i = VInst b) [0..<n])" for b
    by (simp add: count_list_indices len)
  then have "length (filter (\<lambda>i. ?xs ! i = VInst b \<and> nonimm h (VInst b)) [0..<n]) = uses_in h a b" for b
    by (simp add: uses_in_def)
  then show ?thesis
    using count_arg_uses_wf [OF assms, of "[0..<n]" u] by (simp add: atLeast0LessThan)
qed

lemma count_uses_wf:
  assumes "wf_heap h r"
  shows "set as \<subseteq> {..<length h} \<Longrightarrow> count_uses h as u = Some (\<lambda>b. u b + (\<Sum>a\<leftarrow>as. uses_in h a b))"
proof (induction as arbitrary: u)
  case (Cons a as)
  have a: "a < length h" using Cons.prems by simp
  obtain n where n: "NumArgs h a = Some n" using NumArgs_wf [OF assms a] by blast
  show ?case using Cons n by (simp add: count_arg_uses_all [OF assms a n] add.assoc)
qed simp

lemma uses_in_slots:
  assumes "distinct block" "set block \<subseteq> {..<length h}" "nonimm h (VInst b)"
    and "\<And>a. a < length h \<Longrightarrow> a \<notin> set block \<Longrightarrow> count_list (args (h ! a)) (VInst b) = 0"
  shows "(\<Sum>a\<leftarrow>block. uses_in h a b) = slots h b"
proof -
  have "slots h b = (\<Sum>a\<leftarrow>[0..<length h]. count_list (args (h ! a)) (VInst b))"
    unfolding slots_def by (subst map_nth [symmetric, of h]) (simp only: map_map o_def)
  also have "\<dots> = (\<Sum>a\<in>{0..<length h}. count_list (args (h ! a)) (VInst b))"
    by (simp add: interv_sum_list_conv_sum_set_nat)
  also have "\<dots> = (\<Sum>a\<in>set block. count_list (args (h ! a)) (VInst b))"
    using assms(2,4) by (intro sum.mono_neutral_right) auto
  finally show ?thesis
    using assms(1,3) by (simp add: sum_list_distinct_conv_sum_set uses_in_def)
qed

text \<open>C15. The verification pass accepts every well-formed block: when the use counts, the
  argument types and the ranks of the pool satisfy the invariant, and the instructions outside
  the block hold no arguments, then every argument is found compatible with the opcode table,
  the recount of the uses agrees with the stored counters, and no assertion fails.\<close>

theorem VerificationPass_accepts:
  assumes "wf_heap h r" "distinct block" "set block \<subseteq> {..<length h}"
    and "\<forall>a<length h. a \<notin> set block \<longrightarrow> set (args (h ! a)) \<subseteq> {VEmpty}"
  shows "VerificationPass h block = Some ()"
proof -
  let ?u = "\<lambda>b. \<Sum>a\<leftarrow>block. uses_in h a b"
  have "unat (use_count (h ! b)) = ?u b" if b: "b < length h" "?u b \<noteq> 0" for b
  proof -
    have ni: "nonimm h (VInst b)" using b(2) by (auto simp: uses_in_def split: if_splits)
    have none: "count_list (args (h ! a)) (VInst b) = 0" if "a < length h" "a \<notin> set block" for a
      using assms(4) that by (fastforce simp: count_list_0_iff)
    have s: "?u b = slots h b" by (rule uses_in_slots [OF assms(2,3) ni none])
    have "if opc (h ! b) = ''Void'' then slots h b = 0
        else if nonimm h (VInst b) then use_count (h ! b) = of_nat (slots h b)
        else use_count (h ! b) = 0 \<longrightarrow> slots h b = 0"
      using assms(1) b(1) unfolding wf_heap_def counted_def by blast
    then have "use_count (h ! b) = of_nat (slots h b)" using ni s b(2) by (auto split: if_splits)
    moreover have "slots h b < 2 ^ 32" using assms(1) slots_le [of h r b] by (simp add: wf_heap_def)
    ultimately show ?thesis using s by (simp add: unat_of_nat take_bit_nat_eq_self)
  qed
  then have "list_all (\<lambda>b. ?u b = 0 \<or> unat (use_count (h ! b)) = ?u b) [0..<length h]"
    unfolding list_all_iff by (metis atLeastLessThan_iff set_upt)
  then show ?thesis
    using verify_types_wf [OF assms(1,3)] count_uses_wf [OF assms(1,3), of "\<lambda>b. 0"]
    by (simp add: VerificationPass_def)
qed

theorem VerificationPass_accepts_witness: "VerificationPass example_block [0, 1, 2] = Some ()"
  by (rule VerificationPass_accepts [OF example_block_wf])
    (auto simp: example_block_def less_Suc_eq)

end
