(* ===== verification/Constant_Propagation.thy ===== *)
theory Constant_Propagation
  imports Opt_Passes
begin

text \<open>
  Constant propagation (\<^verbatim>\<open>ir/opt/constant_propagation_pass.cpp\<close>): every folding function of the
  pass on the instruction pool, the dispatch on the opcode, the refinement that a fold has to meet,
  and the rows that act only when every operand is an immediate.
\<close>

section \<open>The pass\<close>

text \<open>The file's overload of \<^const>\<open>ReplaceUsesWith\<close>, and its constructor of immediates.\<close>

definition ReplaceUsesWith_imm :: "heap \<Rightarrow> nat \<Rightarrow> bool \<Rightarrow> u64 \<Rightarrow> heap option" where
  "ReplaceUsesWith_imm h inst is_32_bit value =
     (if is_32_bit then ReplaceUsesWith h inst (VU32 (ucast value)) else ReplaceUsesWith h inst (VU64 value))"

definition Value_imm :: "bool \<Rightarrow> u64 \<Rightarrow> ir_value" where
  "Value_imm is_32_bit value = (if is_32_bit then VU32 (ucast value) else VU64 value)"

text \<open>The operand of a commutative instruction is an instruction of the same kind with a
  constant on its right: the test, and the two writes that merge the constants.\<close>

definition is_nested :: "heap \<Rightarrow> nat \<Rightarrow> nat \<Rightarrow> bool option" where
  "is_nested h inst inner =
     (if opc (h ! inner) = opc (h ! inst) then do { v \<leftarrow> GetArg h inner 1; IsImmediate h v } else Some False)"

definition merge_nested :: "heap \<Rightarrow> nat \<Rightarrow> nat \<Rightarrow> bool \<Rightarrow> (u64 \<Rightarrow> u64 \<Rightarrow> u64) \<Rightarrow> ir_value \<Rightarrow> heap option" where
  "merge_nested h inst inner is_32_bit imm_fn imm = do {
     x \<leftarrow> GetImmediateAsU64 h imm;
     v \<leftarrow> GetArg h inner 1;
     y \<leftarrow> GetImmediateAsU64 h v;
     u \<leftarrow> GetArg h inner 0;
     h1 \<leftarrow> SetArg h inst 0 u;
     SetArg h1 inst 1 (Value_imm is_32_bit (imm_fn x y)) }"

definition FoldCommutative :: "heap \<Rightarrow> nat \<Rightarrow> bool \<Rightarrow> (u64 \<Rightarrow> u64 \<Rightarrow> u64) \<Rightarrow> (heap \<times> bool) option" where
  "FoldCommutative h inst is_32_bit imm_fn = do {
     lhs \<leftarrow> GetArg h inst 0;
     rhs \<leftarrow> GetArg h inst 1;
     is_lhs_immediate \<leftarrow> IsImmediate h lhs;
     is_rhs_immediate \<leftarrow> IsImmediate h rhs;
     if is_lhs_immediate \<and> is_rhs_immediate
     then do {
       x \<leftarrow> GetImmediateAsU64 h lhs;
       y \<leftarrow> GetImmediateAsU64 h rhs;
       h1 \<leftarrow> ReplaceUsesWith_imm h inst is_32_bit (imm_fn x y);
       Some (h1, False) }
     else if is_lhs_immediate
     then do {
       rhs_inst \<leftarrow> GetInstRecursive h rhs;
       nested \<leftarrow> is_nested h inst rhs_inst;
       h1 \<leftarrow> (if nested then merge_nested h inst rhs_inst is_32_bit imm_fn lhs
              else do { h1 \<leftarrow> SetArg h inst 0 rhs; SetArg h1 inst 1 lhs });
       Some (h1, True) }
     else if is_rhs_immediate
     then do {
       lhs_inst \<leftarrow> GetInstRecursive h lhs;
       nested \<leftarrow> is_nested h inst lhs_inst;
       h1 \<leftarrow> (if nested then merge_nested h inst lhs_inst is_32_bit imm_fn rhs else Some h);
       Some (h1, True) }
     else Some (h, True) }"

text \<open>The part of \<open>FoldAdd\<close> behind its normalisation, and the whole function, which calls
  itself once the constant operand is on the right.\<close>

definition is_nested_add :: "heap \<Rightarrow> nat \<Rightarrow> nat \<Rightarrow> bool option" where
  "is_nested_add h inst inner = do {
     nested \<leftarrow> is_nested h inst inner;
     if nested then do { c \<leftarrow> GetArg h inner 2; IsImmediate h c } else Some False }"

definition fold_add_immediates :: "heap \<Rightarrow> nat \<Rightarrow> bool \<Rightarrow> heap option" where
  "fold_add_immediates h inst is_32_bit = do {
     all \<leftarrow> AreAllArgsImmediates h inst;
     if all then do {
       lhs \<leftarrow> GetArg h inst 0; rhs \<leftarrow> GetArg h inst 1; carry \<leftarrow> GetArg h inst 2;
       x \<leftarrow> GetImmediateAsU64 h lhs; y \<leftarrow> GetImmediateAsU64 h rhs; c \<leftarrow> GetU1 h carry;
       ReplaceUsesWith_imm h inst is_32_bit (x + y + of_bool c) }
     else Some h }"

definition fold_add_constant :: "heap \<Rightarrow> nat \<Rightarrow> bool \<Rightarrow> heap option" where
  "fold_add_constant h inst is_32_bit = do {
     lhs \<leftarrow> GetArg h inst 0; rhs \<leftarrow> GetArg h inst 1; carry \<leftarrow> GetArg h inst 2;
     is_lhs_immediate \<leftarrow> IsImmediate h lhs;
     is_rhs_immediate \<leftarrow> IsImmediate h rhs;
     if \<not> is_lhs_immediate \<and> is_rhs_immediate
     then do {
       lhs_inst \<leftarrow> GetInstRecursive h lhs;
       nested \<leftarrow> is_nested_add h inst lhs_inst;
       if nested
       then do {
         x \<leftarrow> GetImmediateAsU64 h rhs;
         v \<leftarrow> GetArg h lhs_inst 1; y \<leftarrow> GetImmediateAsU64 h v;
         w \<leftarrow> GetArg h lhs_inst 2; c \<leftarrow> GetU1 h w;
         u \<leftarrow> GetArg h lhs_inst 0;
         let combined = x + y + of_bool c;
         if combined = 0 then ReplaceUsesWith h inst u
         else do { h1 \<leftarrow> SetArg h inst 0 u; SetArg h1 inst 1 (Value_imm is_32_bit combined) } }
       else do {
         rz \<leftarrow> IsZero h rhs;
         cz \<leftarrow> (if rz then IsZero h carry else Some False);
         if cz then ReplaceUsesWith h inst lhs else fold_add_immediates h inst is_32_bit } }
     else fold_add_immediates h inst is_32_bit }"

partial_function (option) FoldAdd :: "heap \<Rightarrow> nat \<Rightarrow> bool \<Rightarrow> heap option" where
  "FoldAdd h inst is_32_bit = do {
     lhs \<leftarrow> GetArg h inst 0; rhs \<leftarrow> GetArg h inst 1;
     is_lhs_immediate \<leftarrow> IsImmediate h lhs;
     is_rhs_immediate \<leftarrow> IsImmediate h rhs;
     if is_lhs_immediate \<and> \<not> is_rhs_immediate
     then do { h1 \<leftarrow> SetArg h inst 0 rhs; h2 \<leftarrow> SetArg h1 inst 1 lhs; FoldAdd h2 inst is_32_bit }
     else if HasAssociatedPseudoOperation h inst then Some h
     else fold_add_constant h inst is_32_bit }"

definition FoldAND :: "heap \<Rightarrow> nat \<Rightarrow> bool \<Rightarrow> heap option" where
  "FoldAND h inst is_32_bit = do {
     (h1, continue) \<leftarrow> FoldCommutative h inst is_32_bit (AND);
     if continue
     then do {
       rhs \<leftarrow> GetArg h1 inst 1;
       zero \<leftarrow> IsZero h1 rhs;
       if zero then ReplaceUsesWith_imm h1 inst is_32_bit 0
       else do {
         ones \<leftarrow> HasAllBitsSet h1 rhs;
         if ones then do { lhs \<leftarrow> GetArg h1 inst 0; ReplaceUsesWith h1 inst lhs } else Some h1 } }
     else Some h1 }"

definition FoldByteReverse :: "heap \<Rightarrow> nat \<Rightarrow> opcode \<Rightarrow> heap option" where
  "FoldByteReverse h inst op = do {
     operand \<leftarrow> GetArg h inst 0;
     imm \<leftarrow> IsImmediate h operand;
     if \<not> imm then Some h
     else do {
       x \<leftarrow> GetImmediateAsU64 h operand;
       if op = ''ByteReverseWord'' then ReplaceUsesWith h inst (VU32 (swap_bytes_32 (ucast x)))
       else if op = ''ByteReverseHalf'' then ReplaceUsesWith h inst (VU16 (swap_bytes_16 (ucast x)))
       else ReplaceUsesWith h inst (VU64 (swap_bytes_64 x)) } }"

text \<open>Division on the host is undefined for a zero divisor, and where the signed quotient
  does not fit.\<close>

definition host_sdiv :: "u64 \<Rightarrow> u64 \<Rightarrow> u64 option" where
  "host_sdiv x y = do { assert_opt (y \<noteq> 0 \<and> \<not> (x = 0x8000000000000000 \<and> y = - 1)); Some (word_of_int (tdiv (sint x) (sint y))) }"

definition host_udiv :: "u64 \<Rightarrow> u64 \<Rightarrow> u64 option" where
  "host_udiv x y = do { assert_opt (y \<noteq> 0); Some (x div y) }"

definition FoldDivide :: "heap \<Rightarrow> nat \<Rightarrow> bool \<Rightarrow> bool \<Rightarrow> heap option" where
  "FoldDivide h inst is_32_bit is_signed = do {
     rhs \<leftarrow> GetArg h inst 1;
     zero \<leftarrow> IsZero h rhs;
     if zero then ReplaceUsesWith_imm h inst is_32_bit 0
     else do {
       lhs \<leftarrow> GetArg h inst 0;
       is_lhs_immediate \<leftarrow> IsImmediate h lhs;
       is_rhs_immediate \<leftarrow> IsImmediate h rhs;
       if is_lhs_immediate \<and> is_rhs_immediate
       then if is_signed
         then do {
           x \<leftarrow> GetImmediateAsS64 h lhs; y \<leftarrow> GetImmediateAsS64 h rhs;
           result \<leftarrow> host_sdiv x y;
           ReplaceUsesWith_imm h inst is_32_bit result }
         else do {
           x \<leftarrow> GetImmediateAsU64 h lhs; y \<leftarrow> GetImmediateAsU64 h rhs;
           result \<leftarrow> host_udiv x y;
           ReplaceUsesWith_imm h inst is_32_bit result }
       else do {
         one \<leftarrow> IsUnsignedImmediate h rhs 1;
         if one then ReplaceUsesWith h inst lhs else Some h } } }"

definition FoldEOR :: "heap \<Rightarrow> nat \<Rightarrow> bool \<Rightarrow> heap option" where
  "FoldEOR h inst is_32_bit = do {
     (h1, continue) \<leftarrow> FoldCommutative h inst is_32_bit (XOR);
     if continue
     then do {
       rhs \<leftarrow> GetArg h1 inst 1;
       zero \<leftarrow> IsZero h1 rhs;
       if zero then do { lhs \<leftarrow> GetArg h1 inst 0; ReplaceUsesWith h1 inst lhs } else Some h1 }
     else Some h1 }"

text \<open>The shape of the folding functions that only act on constant operands.\<close>

definition when_all_immediate :: "heap \<Rightarrow> nat \<Rightarrow> (heap \<Rightarrow> heap option) \<Rightarrow> heap option" where
  "when_all_immediate h inst f = do { all \<leftarrow> AreAllArgsImmediates h inst; if \<not> all then Some h else f h }"

definition FoldLeastSignificantByte :: "heap \<Rightarrow> nat \<Rightarrow> heap option" where
  "FoldLeastSignificantByte h inst = when_all_immediate h inst (\<lambda>h. do {
     operand \<leftarrow> GetArg h inst 0; x \<leftarrow> GetImmediateAsU64 h operand;
     ReplaceUsesWith h inst (VU8 (ucast x)) })"

definition FoldLeastSignificantHalf :: "heap \<Rightarrow> nat \<Rightarrow> heap option" where
  "FoldLeastSignificantHalf h inst = when_all_immediate h inst (\<lambda>h. do {
     operand \<leftarrow> GetArg h inst 0; x \<leftarrow> GetImmediateAsU64 h operand;
     ReplaceUsesWith h inst (VU16 (ucast x)) })"

definition FoldLeastSignificantWord :: "heap \<Rightarrow> nat \<Rightarrow> heap option" where
  "FoldLeastSignificantWord h inst = when_all_immediate h inst (\<lambda>h. do {
     operand \<leftarrow> GetArg h inst 0; x \<leftarrow> GetImmediateAsU64 h operand;
     ReplaceUsesWith h inst (VU32 (ucast x)) })"

definition FoldMostSignificantBit :: "heap \<Rightarrow> nat \<Rightarrow> heap option" where
  "FoldMostSignificantBit h inst = when_all_immediate h inst (\<lambda>h. do {
     operand \<leftarrow> GetArg h inst 0; x \<leftarrow> GetImmediateAsU64 h operand;
     ReplaceUsesWith h inst (VU1 (drop_bit 31 x \<noteq> 0)) })"

definition FoldMostSignificantWord :: "heap \<Rightarrow> nat \<Rightarrow> heap option" where
  "FoldMostSignificantWord h inst = do {
     carry_inst \<leftarrow> GetAssociatedPseudoOperation h inst ''GetCarryFromOp'';
     all \<leftarrow> AreAllArgsImmediates h inst;
     if \<not> all then Some h
     else do {
       operand \<leftarrow> GetArg h inst 0;
       x \<leftarrow> GetImmediateAsU64 h operand;
       h1 \<leftarrow> (case carry_inst of None \<Rightarrow> Some h | Some c \<Rightarrow> ReplaceUsesWith h c (VU1 (bit x 31)));
       ReplaceUsesWith h1 inst (VU32 (ucast (drop_bit 32 x))) } }"

definition FoldMultiply :: "heap \<Rightarrow> nat \<Rightarrow> bool \<Rightarrow> heap option" where
  "FoldMultiply h inst is_32_bit = do {
     (h1, continue) \<leftarrow> FoldCommutative h inst is_32_bit (*);
     if continue
     then do {
       rhs \<leftarrow> GetArg h1 inst 1;
       zero \<leftarrow> IsZero h1 rhs;
       if zero then ReplaceUsesWith_imm h1 inst is_32_bit 0
       else do {
         one \<leftarrow> IsUnsignedImmediate h1 rhs 1;
         if one then do { lhs \<leftarrow> GetArg h1 inst 0; ReplaceUsesWith h1 inst lhs } else Some h1 } }
     else Some h1 }"

definition FoldNOT :: "heap \<Rightarrow> nat \<Rightarrow> bool \<Rightarrow> heap option" where
  "FoldNOT h inst is_32_bit = do {
     operand \<leftarrow> GetArg h inst 0;
     imm \<leftarrow> IsImmediate h operand;
     if \<not> imm then Some h
     else do { x \<leftarrow> GetImmediateAsU64 h operand; ReplaceUsesWith_imm h inst is_32_bit (NOT x) } }"

definition FoldOR :: "heap \<Rightarrow> nat \<Rightarrow> bool \<Rightarrow> heap option" where
  "FoldOR h inst is_32_bit = do {
     (h1, continue) \<leftarrow> FoldCommutative h inst is_32_bit (OR);
     if continue
     then do {
       rhs \<leftarrow> GetArg h1 inst 1;
       zero \<leftarrow> IsZero h1 rhs;
       if zero then do { lhs \<leftarrow> GetArg h1 inst 0; ReplaceUsesWith h1 inst lhs } else Some h1 }
     else Some h1 }"

definition FoldShifts :: "heap \<Rightarrow> nat \<Rightarrow> (heap \<times> bool) option" where
  "FoldShifts h inst = do {
     carry_inst \<leftarrow> GetAssociatedPseudoOperation h inst ''GetCarryFromOp'';
     n \<leftarrow> NumArgs h inst;
     h1 \<leftarrow> (if n = 3 \<and> carry_inst = None then SetArg h inst 2 (VU1 False) else Some h);
     shift_amount \<leftarrow> GetArg h1 inst 1;
     zero \<leftarrow> IsZero h1 shift_amount;
     if zero
     then do {
       h2 \<leftarrow> (case carry_inst of None \<Rightarrow> Some h1
              | Some c \<Rightarrow> do { v \<leftarrow> GetArg h1 inst 2; ReplaceUsesWith h1 c v });
       operand \<leftarrow> GetArg h2 inst 0;
       h3 \<leftarrow> ReplaceUsesWith h2 inst operand;
       Some (h3, False) }
     else do {
       imm \<leftarrow> IsImmediate h1 shift_amount;
       h2 \<leftarrow> (if n = 3 \<and> imm then SetArg h1 inst 2 (VU1 False) else Some h1);
       all \<leftarrow> AreAllArgsImmediates h2 inst;
       Some (h2, all \<and> carry_inst = None) } }"

definition FoldSignExtendXToWord :: "heap \<Rightarrow> nat \<Rightarrow> heap option" where
  "FoldSignExtendXToWord h inst = when_all_immediate h inst (\<lambda>h. do {
     operand \<leftarrow> GetArg h inst 0; value \<leftarrow> GetImmediateAsS64 h operand;
     ReplaceUsesWith h inst (VU32 (ucast value)) })"

definition FoldSignExtendXToLong :: "heap \<Rightarrow> nat \<Rightarrow> heap option" where
  "FoldSignExtendXToLong h inst = when_all_immediate h inst (\<lambda>h. do {
     operand \<leftarrow> GetArg h inst 0; value \<leftarrow> GetImmediateAsS64 h operand;
     ReplaceUsesWith h inst (VU64 value) })"

definition FoldSub :: "heap \<Rightarrow> nat \<Rightarrow> bool \<Rightarrow> heap option" where
  "FoldSub h inst is_32_bit = do {
     all \<leftarrow> AreAllArgsImmediates h inst;
     if \<not> all \<or> HasAssociatedPseudoOperation h inst then Some h
     else do {
       lhs \<leftarrow> GetArg h inst 0; rhs \<leftarrow> GetArg h inst 1; carry \<leftarrow> GetArg h inst 2;
       x \<leftarrow> GetImmediateAsU64 h lhs; y \<leftarrow> GetImmediateAsU64 h rhs; c \<leftarrow> GetU1 h carry;
       ReplaceUsesWith_imm h inst is_32_bit (x + NOT y + of_bool c) } }"

definition FoldZeroExtendXToWord :: "heap \<Rightarrow> nat \<Rightarrow> heap option" where
  "FoldZeroExtendXToWord h inst = when_all_immediate h inst (\<lambda>h. do {
     operand \<leftarrow> GetArg h inst 0; value \<leftarrow> GetImmediateAsU64 h operand;
     ReplaceUsesWith h inst (VU32 (ucast value)) })"

definition FoldZeroExtendXToLong :: "heap \<Rightarrow> nat \<Rightarrow> heap option" where
  "FoldZeroExtendXToLong h inst = when_all_immediate h inst (\<lambda>h. do {
     operand \<leftarrow> GetArg h inst 0; value \<leftarrow> GetImmediateAsU64 h operand;
     ReplaceUsesWith h inst (VU64 value) })"

subsection \<open>The cases of the dispatch that are written in place\<close>

definition fold_IsZero32 :: "heap \<Rightarrow> nat \<Rightarrow> heap option" where
  "fold_IsZero32 h inst = when_all_immediate h inst (\<lambda>h. do {
     v \<leftarrow> GetArg h inst 0; x \<leftarrow> GetU32 h v; ReplaceUsesWith h inst (VU1 (x = 0)) })"

definition fold_IsZero64 :: "heap \<Rightarrow> nat \<Rightarrow> heap option" where
  "fold_IsZero64 h inst = when_all_immediate h inst (\<lambda>h. do {
     v \<leftarrow> GetArg h inst 0; x \<leftarrow> GetU64 h v; ReplaceUsesWith h inst (VU1 (x = 0)) })"

definition fold_shift32 :: "(u32 \<Rightarrow> u8 \<Rightarrow> u32) \<Rightarrow> heap \<Rightarrow> nat \<Rightarrow> heap option" where
  "fold_shift32 f h inst = do {
     (h1, fold) \<leftarrow> FoldShifts h inst;
     if fold then do {
       v \<leftarrow> GetArg h1 inst 0; x \<leftarrow> GetU32 h1 v; w \<leftarrow> GetArg h1 inst 1; y \<leftarrow> GetU8 h1 w;
       ReplaceUsesWith_imm h1 inst True (ucast (f x y)) }
     else Some h1 }"

definition fold_shift64 :: "(u64 \<Rightarrow> u8 \<Rightarrow> u64) \<Rightarrow> heap \<Rightarrow> nat \<Rightarrow> heap option" where
  "fold_shift64 f h inst = do {
     (h1, fold) \<leftarrow> FoldShifts h inst;
     if fold then do {
       v \<leftarrow> GetArg h1 inst 0; x \<leftarrow> GetU64 h1 v; w \<leftarrow> GetArg h1 inst 1; y \<leftarrow> GetU8 h1 w;
       ReplaceUsesWith_imm h1 inst False (f x y) }
     else Some h1 }"

definition fold_masked32 :: "(u32 \<Rightarrow> u32 \<Rightarrow> u64) \<Rightarrow> heap \<Rightarrow> nat \<Rightarrow> heap option" where
  "fold_masked32 f h inst = when_all_immediate h inst (\<lambda>h. do {
     v \<leftarrow> GetArg h inst 0; x \<leftarrow> GetU32 h v; w \<leftarrow> GetArg h inst 1; y \<leftarrow> GetU32 h w;
     ReplaceUsesWith_imm h inst True (f x y) })"

definition fold_masked64 :: "(u64 \<Rightarrow> u64 \<Rightarrow> u64) \<Rightarrow> heap \<Rightarrow> nat \<Rightarrow> heap option" where
  "fold_masked64 f h inst = when_all_immediate h inst (\<lambda>h. do {
     v \<leftarrow> GetArg h inst 0; x \<leftarrow> GetU64 h v; w \<leftarrow> GetArg h inst 1; y \<leftarrow> GetU64 h w;
     ReplaceUsesWith_imm h inst False (f x y) })"

text \<open>The switch on the opcode, one row per case label.\<close>

definition fold_table :: "(opcode \<times> (heap \<Rightarrow> nat \<Rightarrow> heap option)) list" where
  "fold_table = [
    (''LeastSignificantWord'', FoldLeastSignificantWord),
    (''MostSignificantWord'', FoldMostSignificantWord),
    (''LeastSignificantHalf'', FoldLeastSignificantHalf),
    (''LeastSignificantByte'', FoldLeastSignificantByte),
    (''MostSignificantBit'', FoldMostSignificantBit),
    (''IsZero32'', fold_IsZero32),
    (''IsZero64'', fold_IsZero64),
    (''LogicalShiftLeft32'', fold_shift32 (\<lambda>x y. LogicalShiftLeft x (uint y))),
    (''LogicalShiftLeft64'', fold_shift64 (\<lambda>x y. LogicalShiftLeft x (uint y))),
    (''LogicalShiftRight32'', fold_shift32 (\<lambda>x y. LogicalShiftRight x (uint y))),
    (''LogicalShiftRight64'', fold_shift64 (\<lambda>x y. LogicalShiftRight x (uint y))),
    (''ArithmeticShiftRight32'', fold_shift32 (\<lambda>x y. ArithmeticShiftRight x (uint y))),
    (''ArithmeticShiftRight64'', fold_shift64 (\<lambda>x y. ArithmeticShiftRight x (uint y))),
    (''RotateRight32'', fold_shift32 (\<lambda>x y. rotate_right x (unat y))),
    (''RotateRight64'', fold_shift64 (\<lambda>x y. rotate_right x (unat y))),
    (''LogicalShiftLeftMasked32'', fold_masked32 (\<lambda>x y. ucast (push_bit (unat (y AND 0x1f)) x))),
    (''LogicalShiftLeftMasked64'', fold_masked64 (\<lambda>x y. push_bit (unat (y AND 0x3f)) x)),
    (''LogicalShiftRightMasked32'', fold_masked32 (\<lambda>x y. ucast (drop_bit (unat (y AND 0x1f)) x))),
    (''LogicalShiftRightMasked64'', fold_masked64 (\<lambda>x y. drop_bit (unat (y AND 0x3f)) x)),
    (''ArithmeticShiftRightMasked32'', fold_masked32 (\<lambda>x y. scast (signed_drop_bit (unat (y AND 0x1f)) x))),
    (''ArithmeticShiftRightMasked64'', fold_masked64 (\<lambda>x y. signed_drop_bit (unat (y AND 0x3f)) x)),
    (''RotateRightMasked32'', fold_masked32 (\<lambda>x y. ucast (rotate_right x (unat y)))),
    (''RotateRightMasked64'', fold_masked64 (\<lambda>x y. rotate_right x (unat y))),
    (''Add32'', \<lambda>h inst. FoldAdd h inst True),
    (''Add64'', \<lambda>h inst. FoldAdd h inst False),
    (''Sub32'', \<lambda>h inst. FoldSub h inst True),
    (''Sub64'', \<lambda>h inst. FoldSub h inst False),
    (''Mul32'', \<lambda>h inst. FoldMultiply h inst True),
    (''Mul64'', \<lambda>h inst. FoldMultiply h inst False),
    (''SignedDiv32'', \<lambda>h inst. FoldDivide h inst True True),
    (''SignedDiv64'', \<lambda>h inst. FoldDivide h inst False True),
    (''UnsignedDiv32'', \<lambda>h inst. FoldDivide h inst True False),
    (''UnsignedDiv64'', \<lambda>h inst. FoldDivide h inst False False),
    (''And32'', \<lambda>h inst. FoldAND h inst True),
    (''And64'', \<lambda>h inst. FoldAND h inst False),
    (''Eor32'', \<lambda>h inst. FoldEOR h inst True),
    (''Eor64'', \<lambda>h inst. FoldEOR h inst False),
    (''Or32'', \<lambda>h inst. FoldOR h inst True),
    (''Or64'', \<lambda>h inst. FoldOR h inst False),
    (''Not32'', \<lambda>h inst. FoldNOT h inst True),
    (''Not64'', \<lambda>h inst. FoldNOT h inst False),
    (''SignExtendByteToWord'', FoldSignExtendXToWord),
    (''SignExtendHalfToWord'', FoldSignExtendXToWord),
    (''SignExtendByteToLong'', FoldSignExtendXToLong),
    (''SignExtendHalfToLong'', FoldSignExtendXToLong),
    (''SignExtendWordToLong'', FoldSignExtendXToLong),
    (''ZeroExtendByteToWord'', FoldZeroExtendXToWord),
    (''ZeroExtendHalfToWord'', FoldZeroExtendXToWord),
    (''ZeroExtendByteToLong'', FoldZeroExtendXToLong),
    (''ZeroExtendHalfToLong'', FoldZeroExtendXToLong),
    (''ZeroExtendWordToLong'', FoldZeroExtendXToLong),
    (''ByteReverseWord'', \<lambda>h inst. FoldByteReverse h inst ''ByteReverseWord''),
    (''ByteReverseHalf'', \<lambda>h inst. FoldByteReverse h inst ''ByteReverseHalf''),
    (''ByteReverseDual'', \<lambda>h inst. FoldByteReverse h inst ''ByteReverseDual'')]"

definition fold_inst :: "heap \<Rightarrow> nat \<Rightarrow> heap option" where
  "fold_inst h inst = (case assoc fold_table (opc (h ! inst)) of None \<Rightarrow> Some h | Some f \<Rightarrow> f h inst)"

fun fold_loop :: "heap \<Rightarrow> nat list \<Rightarrow> heap option" where
  "fold_loop h [] = Some h"
| "fold_loop h (a # as) = do { h1 \<leftarrow> fold_inst h a; fold_loop h1 as }"

definition ConstantPropagation :: "heap \<Rightarrow> nat list \<Rightarrow> heap option" where
  "ConstantPropagation h block = fold_loop h block"

section \<open>Rewriting one instruction\<close>

text \<open>The pool after a rewriting step is well formed and its block does what it did before.\<close>

definition refines :: "nat list \<Rightarrow> (nat \<Rightarrow> nat) \<Rightarrow> heap \<Rightarrow> heap \<Rightarrow> bool" where
  "refines block r h h' \<longleftrightarrow> wf_heap h' r \<and> ordered block h' r
     \<and> (\<forall>orc \<rho> s. snd (run (trace_exec orc) h' block (\<rho>, s)) = snd (run (trace_exec orc) h block (\<rho>, s)))"

text \<open>The same for one machine.\<close>

definition refines_on :: "(opcode \<Rightarrow> sval list \<Rightarrow> trace \<Rightarrow> result) \<Rightarrow> nat list \<Rightarrow> (nat \<Rightarrow> nat) \<Rightarrow> heap \<Rightarrow> heap \<Rightarrow> bool" where
  "refines_on orc block r h h' \<longleftrightarrow> wf_heap h' r \<and> ordered block h' r
     \<and> (\<forall>\<rho> s. snd (run (trace_exec orc) h' block (\<rho>, s)) = snd (run (trace_exec orc) h block (\<rho>, s)))"

definition inst_in :: "nat list \<Rightarrow> (nat \<Rightarrow> nat) \<Rightarrow> heap \<Rightarrow> nat \<Rightarrow> bool" where
  "inst_in block r h a \<longleftrightarrow> wf_heap h r \<and> ordered block h r \<and> a \<in> set block"

lemma refines_refl: "inst_in block r h a \<Longrightarrow> refines block r h h"
  by (simp add: refines_def inst_in_def)

lemma refines_trans: "refines block r h h1 \<Longrightarrow> refines block r h1 h2 \<Longrightarrow> refines block r h h2"
  by (simp add: refines_def)

lemma inst_in_refines: "inst_in block r h a \<Longrightarrow> refines block r h h' \<Longrightarrow> inst_in block r h' a"
  by (simp add: refines_def inst_in_def)

lemma inst_inD:
  assumes "inst_in block r h a"
  shows "wf_heap h r" "ordered block h r" "a \<in> set block" "a < length h" "ranked h r" "length (args (h ! a)) = 4"
  using assms ranked_length [of h r a] by (auto simp: inst_in_def ordered_def wf_heap_def)

lemma reads_mono:
  assumes "ranked h' r" "length h' = length h" "reads h' a p" "a < length h"
    and "\<And>b. b < length h \<Longrightarrow> b \<noteq> a \<Longrightarrow> opc (h' ! b) = opc (h ! b) \<and> args (h' ! b) = args (h ! b)"
  shows "reads h a p"
proof -
  obtain b where b: "b < length h" "opc (h' ! b) = p" "args (h' ! b) ! 0 = VInst a" "reads_parent p"
    using assms(2,3) by (auto simp: reads_def)
  have "b \<noteq> a" using ranked_arg [OF assms(1), of a 0] b assms(2,4) by auto
  with b assms(5) [of b] show ?thesis by (auto simp: reads_def)
qed

lemma refines_on_at:
  assumes inst: "inst_in block r h a" and wf': "wf_heap h' r" and len: "length h' = length h"
    and same: "\<And>b. b < length h \<Longrightarrow> b \<noteq> a \<Longrightarrow> opc (h' ! b) = opc (h ! b) \<and> args (h' ! b) = args (h ! b)"
    and clos: "\<And>c. VInst c \<in> set (args (h' ! a)) \<Longrightarrow> c \<in> set block"
    and eff: "\<And>D \<rho>. env_before h a D \<rho> \<Longrightarrow> same_step (trace_exec orc) h h' \<rho> a"
  shows "refines_on orc block r h h'"
proof -
  note i = inst_inD [OF inst]
  have inb: "b < length h" if "b \<in> set block" for b using i(2) that unfolding ordered_def by blast
  have ord: "ordered block h' r"
    using i(2) same clos len inb unfolding ordered_def closed_under_args_def by metis
  have "snd (run (trace_exec orc) h block (\<rho>, s)) = snd (run (trace_exec orc) h' (filter (\<lambda>b. b \<notin> {}) block) (\<rho>, s))" for \<rho> s
  proof (rule trace.run_sim_step [OF i(1), where pre = "[]" and X = "{}"])
    show "ordered ([] @ block) h r" using i(2) by simp
    show "length h' = length h" by (rule len)
    show "length (args (h' ! b)) = 4" if "b < length h" for b
      using wf' len that ranked_length [of h' r b] by (simp add: wf_heap_def)
    show "same_step (trace_exec orc) h h' \<rho>' b" if "b \<in> set block" "b \<notin> {}" "env_before h b D \<rho>'" for b D \<rho>'
      using eff [of D \<rho>'] that same [OF inb [OF that(1)]] by (cases "b = a") (auto intro: same_effect_step same_effect_refl)
  qed (simp_all add: env_rel_def)
  then show ?thesis using ord wf' by (simp add: refines_on_def)
qed

lemma refines_at:
  assumes "inst_in block r h a" "wf_heap h' r" "length h' = length h"
    and same: "\<And>b. b < length h \<Longrightarrow> b \<noteq> a \<Longrightarrow> opc (h' ! b) = opc (h ! b) \<and> args (h' ! b) = args (h ! b)"
    and clos: "\<And>c. VInst c \<in> set (args (h' ! a)) \<Longrightarrow> c \<in> set block"
    and eff: "\<And>D \<rho>. env_before h a D \<rho> \<Longrightarrow> same_effect h h' \<rho> a"
  shows "refines block r h h'"
proof -
  have "refines_on orc block r h h'" for orc
    by (rule refines_on_at [OF assms(1-3) same clos]) (auto intro: same_effect_step eff)
  then show ?thesis by (simp add: refines_def refines_on_def)
qed

section \<open>Operands\<close>

lemma chase_slot:
  assumes "ranked h r" "env_before h a D \<rho>" "chase h v = Some w" "valid_value h v" "\<And>c. v = VInst c \<Longrightarrow> c \<in> D"
  shows "slot_value \<rho> v = slot_value \<rho> w \<and> (\<forall>c. w = VInst c \<longrightarrow> c \<in> D)"
  using assms(1) valid_below [OF assms(1,4)] assms(3,5)
proof (induction rule: below_induct)
  case (other v)
  then show ?case by auto
next
  case (identity b)
  let ?u = "args (h ! b) ! 0"
  have bD: "b \<in> D" using identity.prems(2) by simp
  have mem: "?u \<in> set (args (h ! b))" using ranked_length [OF assms(1) identity.hyps(1)] by simp
  have "settled h \<rho> b" and cl: "\<And>c. ?u = VInst c \<Longrightarrow> c \<in> D"
    using assms(2) bD mem unfolding env_before_def closed_under_args_def by auto
  then have "slot_value \<rho> (VInst b) = slot_value \<rho> ?u"
    using identity.hyps(2) by (simp add: settled_def det_result_def Let_def)
  moreover have "chase h ?u = Some w"
    using identity.prems(1) chase_identity [OF assms(1) identity.hyps] by simp
  ultimately show ?case using identity.IH cl by simp
qed

lemma wf_valid_arg:
  assumes "wf_heap h r" "a < length h" "i < 4"
  shows "valid_value h (args (h ! a) ! i)" "below h r (r a) (args (h ! a) ! i)" "args (h ! a) ! i \<in> set (args (h ! a))"
    "storable h (args (h ! a) ! i)"
proof -
  have rk: "ranked h r" "counted h" using assms(1) by (auto simp: wf_heap_def)
  show m: "args (h ! a) ! i \<in> set (args (h ! a))" using ranked_length [OF rk(1) assms(2)] assms(3) by simp
  show b: "below h r (r a) (args (h ! a) ! i)" using ranked_arg [OF rk(1) assms(2,3)] .
  then show "valid_value h (args (h ! a) ! i)" by (rule below_valid)
  show "storable h (args (h ! a) ! i)" by (rule storable_arg [OF rk(2,1) assms(2) m])
qed

lemma arg_value:
  assumes "wf_heap h r" "a < length h" "i < 4" "env_before h a D \<rho>" "chase h (args (h ! a) ! i) = Some w"
  shows "slot_value \<rho> (args (h ! a) ! i) = slot_value \<rho> w" "w = VInst c \<Longrightarrow> c \<in> D"
proof -
  have rk: "ranked h r" using assms(1) by (simp add: wf_heap_def)
  have "c \<in> D" if "args (h ! a) ! i = VInst c" for c
    using that assms(4) wf_valid_arg(3) [OF assms(1-3)] by (auto simp: env_before_def)
  then show "slot_value \<rho> (args (h ! a) ! i) = slot_value \<rho> w" "w = VInst c \<Longrightarrow> c \<in> D"
    using chase_slot [OF rk assms(4,5) wf_valid_arg(1) [OF assms(1-3)]] by blast+
qed

lemma wf_args_typed:
  assumes "wf_heap h r" "a < length h" "opcode_meta (opc (h ! a)) = Some (t, ts)" "i < length ts"
  shows "i < 4" "GetArg h a i = Some (args (h ! a) ! i)" "arg_ok h (args (h ! a) ! i) (ts ! i)"
    "IsImmediate h (args (h ! a) ! i) = Some (\<not> nonimm h (args (h ! a) ! i))"
proof -
  have n: "NumArgs h a = Some (length ts)" using assms(3) by (simp add: NumArgs_def GetNumArgsOf_def)
  show i: "i < 4" using opcode_meta_ok(1) [OF assms(3)] assms(4) by simp
  show "GetArg h a i = Some (args (h ! a) ! i)" using wf_arg(1) [OF assms(1,2) n assms(4)] .
  have "args_typed h a" using assms(1,2) by (simp add: wf_heap_def typed_def)
  then show "arg_ok h (args (h ! a) ! i) (ts ! i)" using assms(3,4) by (simp add: args_typed_def)
  show "IsImmediate h (args (h ! a) ! i) = Some (\<not> nonimm h (args (h ! a) ! i))"
    using IsImmediate_eq [of h r] assms(1) wf_valid_arg(1) [OF assms(1,2) i] by (simp add: wf_heap_def)
qed

text \<open>An operand that is an immediate has the constructor its type asks for.\<close>

definition imm_of :: "ir_type \<Rightarrow> ir_value \<Rightarrow> bool" where
  "imm_of t w \<longleftrightarrow> value_type w = t \<and> (\<forall>x. w \<noteq> VInst x)"

lemma imm_of_iff [simp]:
  "imm_of Type_U1 w \<longleftrightarrow> (\<exists>b. w = VU1 b)" "imm_of Type_U8 w \<longleftrightarrow> (\<exists>x. w = VU8 x)" "imm_of Type_U16 w \<longleftrightarrow> (\<exists>x. w = VU16 x)"
  "imm_of Type_U32 w \<longleftrightarrow> (\<exists>x. w = VU32 x)" "imm_of Type_U64 w \<longleftrightarrow> (\<exists>x. w = VU64 x)"
  by (cases w; simp add: imm_of_def)+

lemma imm_arg:
  assumes "wf_heap h r" "a < length h" "opcode_meta (opc (h ! a)) = Some (t, ts)" "i < length ts"
    and "\<not> nonimm h (args (h ! a) ! i)" "ts ! i \<noteq> Type_Opaque"
  obtains w where "chase h (args (h ! a) ! i) = Some w" "imm_of (ts ! i) w"
proof -
  note w = wf_args_typed [OF assms(1-4)]
  have rk: "ranked h r" using assms(1) by (simp add: wf_heap_def)
  obtain w where c: "chase h (args (h ! a) ! i) = Some w"
    using chase_total [OF rk wf_valid_arg(1) [OF assms(1,2) w(1)]] by blast
  have n: "\<forall>x. w \<noteq> VInst x" using assms(5) c by (auto simp: nonimm_alt)
  then have "GetType h (args (h ! a) ! i) = Some (value_type w)"
    using c by (cases w) (auto simp: GetType_def)
  then have "AreTypesCompatible (value_type w) (ts ! i)" using w(3) by (simp add: arg_ok_def)
  moreover have "value_type w \<noteq> Type_Opaque" using n by simp
  ultimately have "imm_of (ts ! i) w" using n assms(6) by (auto simp: imm_of_def AreTypesCompatible_def)
  with c that show ?thesis by blast
qed

lemma imm_reads [simp]:
  "chase h v = Some (VU32 x) \<Longrightarrow> GetU32 h v = Some x"
  "chase h v = Some (VU64 y) \<Longrightarrow> GetU64 h v = Some y"
  "chase h v = Some (VU8 z) \<Longrightarrow> GetU8 h v = Some z"
  "chase h v = Some (VU1 b) \<Longrightarrow> GetU1 h v = Some b"
  "chase h v = Some (VU32 x) \<Longrightarrow> GetImmediateAsU64 h v = Some (ucast x)"
  "chase h v = Some (VU64 y) \<Longrightarrow> GetImmediateAsU64 h v = Some y"
  "chase h v = Some (VU16 k) \<Longrightarrow> GetImmediateAsU64 h v = Some (ucast k)"
  "chase h v = Some (VU8 z) \<Longrightarrow> GetImmediateAsU64 h v = Some (ucast z)"
  "chase h v = Some (VU1 b) \<Longrightarrow> GetImmediateAsU64 h v = Some (of_bool b)"
  "chase h v = Some (VU32 x) \<Longrightarrow> GetImmediateAsS64 h v = Some (sign_extend 32 (ucast x))"
  "chase h v = Some (VU64 y) \<Longrightarrow> GetImmediateAsS64 h v = Some y"
  "chase h v = Some (VU16 k) \<Longrightarrow> GetImmediateAsS64 h v = Some (sign_extend 16 (ucast k))"
  "chase h v = Some (VU8 z) \<Longrightarrow> GetImmediateAsS64 h v = Some (sign_extend 8 (ucast z))"
  by (simp_all add: GetU32_def GetU64_def GetU8_def GetU1_def GetImmediateAsU64_def GetImmediateAsS64_def IsImmediate_def)

lemma AreAllArgsImmediates_eq:
  assumes "wf_heap h r" "a < length h" "opcode_meta (opc (h ! a)) = Some (t, ts)"
  shows "AreAllArgsImmediates h a = Some (\<forall>i<length ts. \<not> nonimm h (args (h ! a) ! i))"
proof -
  have all: "all_immediate h vs = Some (\<forall>v\<in>set vs. \<not> nonimm h v)" if "\<And>v. v \<in> set vs \<Longrightarrow> valid_value h v" for vs
    using that IsImmediate_eq [of h r] assms(1) by (induction vs) (auto simp: wf_heap_def)
  have "length ts \<le> 4" using opcode_meta_ok(1) [OF assms(3)] by simp
  moreover have len: "length (args (h ! a)) = 4" using assms(1,2) ranked_length by (auto simp: wf_heap_def)
  ultimately have tk: "set (take (length ts) (args (h ! a))) = (\<lambda>i. args (h ! a) ! i) ` {..<length ts}"
    by (force simp: set_conv_nth image_iff)
  have "valid_value h v" if "v \<in> set (args (h ! a))" for v
    using that wf_valid_arg(1) [OF assms(1,2)] len by (auto simp: in_set_conv_nth)
  then have "all_immediate h (take (length ts) (args (h ! a))) = Some (\<forall>v\<in>set (take (length ts) (args (h ! a))). \<not> nonimm h v)"
    by (intro all) (auto dest: in_set_takeD)
  then show ?thesis using assms(3) unfolding tk by (auto simp: AreAllArgsImmediates_def NumArgs_def GetNumArgsOf_def)
qed

lemma arg_values_nth:
  assumes "wf_heap h r" "a < length h" "opcode_meta (opc (h ! a)) = Some (t, ts)" "i < length ts"
  shows "arg_values h \<rho> a ! i = slot_value \<rho> (args (h ! a) ! i)"
proof -
  have "length (args (h ! a)) = 4" using assms(1,2) ranked_length by (auto simp: wf_heap_def)
  then show ?thesis using assms(3,4) opcode_meta_ok(1) [OF assms(3)] by (simp add: arg_values_def arity_def)
qed

section \<open>Replacing an instruction by the value it computes\<close>

lemma calc_opcode:
  assumes "pure_sem p = Some f"
  shows "p \<noteq> ''Identity''" "p \<noteq> ''Void''" "\<not> reads_parent p"
proof -
  have "list_all (\<lambda>row. fst row \<noteq> ''Identity'' \<and> fst row \<noteq> ''Void'' \<and> \<not> reads_parent (fst row)) pure_table"
    by (simp add: pure_table_def reads_parent_def)
  then show "p \<noteq> ''Identity''" "p \<noteq> ''Void''" "\<not> reads_parent p"
    using assoc_in [of pure_table p f] assms by (auto simp: pure_sem_def list_all_iff)
qed

lemma det_calc: "pure_sem (opc (h ! a)) = Some f \<Longrightarrow> det_result h \<rho> a = Some (f (arg_values h \<rho> a))"
  using calc_opcode [of "opc (h ! a)" f] by (simp add: det_result_def Let_def)

lemma below_in_block:
  assumes "inst_in block r h a" "b \<in> set block" "VInst c \<in> set (args (h ! b))"
  shows "c \<in> set block"
  using assms by (auto simp: inst_in_def ordered_def closed_under_args_def)

lemma fold_det:
  assumes "inst_in block r h a" "opc (h ! a) \<noteq> ''Identity''" "opc (h ! a) \<noteq> ''Void''"
    and "below h r (r a) v" "storable h v" "GetType h v = GetTypeOf (opc (h ! a))" "\<And>c. v = VInst c \<Longrightarrow> c \<in> set block"
    and np: "IsAPseudoOperation (opc (h ! a)) \<Longrightarrow> nonimm h v \<Longrightarrow> nonimm h (args (h ! a) ! 0)"
    and val: "\<And>D \<rho>. env_before h a D \<rho> \<Longrightarrow> \<exists>x. det_result h \<rho> a = Some x \<and> rv x = slot_value \<rho> v
      \<and> (\<forall>q. reads h a q \<longrightarrow> pseudo x q = pseudo (plain_result (rv x)) q)"
  shows "\<exists>h'. ReplaceUsesWith h a v = Some h' \<and> refines block r h h' \<and> replaced h a v h'"
proof -
  note i = inst_inD [OF assms(1)]
  have "GetType h (VInst a) = GetTypeOf (opc (h ! a))" using assms(2) by (simp add: GetType_def)
  then obtain h' where h': "ReplaceUsesWith h a v = Some h'" "replaced h a v h'" "wf_heap h' r"
    using ReplaceUsesWith_wf [OF i(1,4) assms(4,2,3,5)] assms(6) np by metis
  have len: "length h' = length h" and at: "opc (h' ! a) = ''Identity''" "args (h' ! a) = [v, VEmpty, VEmpty, VEmpty]"
    and same: "\<And>b. b < length h \<Longrightarrow> b \<noteq> a \<Longrightarrow> opc (h' ! b) = opc (h ! b) \<and> args (h' ! b) = args (h ! b)"
    using h'(2) i(4) by (auto simp: replaced_def)
  have rk': "ranked h' r" using h'(3) by (simp add: wf_heap_def)
  have "refines block r h h'"
  proof (rule refines_at [OF assms(1) h'(3) len same])
    show "c \<in> set block" if "VInst c \<in> set (args (h' ! a))" for c
      using that assms(7) by (auto simp: at)
    show "same_effect h h' \<rho> a" if "env_before h a D \<rho>" for D \<rho>
    proof -
      have "det_result h' \<rho> a = Some (plain_result (slot_value \<rho> v))" using at by (simp add: det_result_def Let_def)
      then show ?thesis
        using val [OF that] reads_mono [OF rk' len _ i(4) same] by (auto simp: same_effect_def)
    qed
  qed auto
  with h'(1,2) show ?thesis by blast
qed

lemma fold_value:
  assumes "inst_in block r h a" "pure_sem (opc (h ! a)) = Some f"
    and "below h r (r a) v" "storable h v" "GetType h v = GetTypeOf (opc (h ! a))" "\<And>c. v = VInst c \<Longrightarrow> c \<in> set block"
    and np: "nonimm h v \<Longrightarrow> \<not> IsAPseudoOperation (opc (h ! a))"
    and val: "\<And>D \<rho>. env_before h a D \<rho> \<Longrightarrow> rv (f (arg_values h \<rho> a)) = slot_value \<rho> v"
    and flags: "\<And>vs p. reads h a p \<Longrightarrow> pseudo (f vs) p = pseudo (plain_result (rv (f vs))) p"
  shows "\<exists>h'. ReplaceUsesWith h a v = Some h' \<and> refines block r h h'"
  using fold_det [OF assms(1) calc_opcode(1,2) [OF assms(2)] assms(3-6)] np val flags det_calc [of h a, OF assms(2)] by auto

lemma fold_imm:
  assumes "inst_in block r h a" "pure_sem (opc (h ! a)) = Some f" "imm_of t v" "GetTypeOf (opc (h ! a)) = Some t"
    and val: "\<And>D \<rho>. env_before h a D \<rho> \<Longrightarrow> rv (f (arg_values h \<rho> a)) = imm_sval v"
    and flags: "\<And>vs p. reads h a p \<Longrightarrow> pseudo (f vs) p = pseudo (plain_result (rv (f vs))) p"
  shows "\<exists>h'. ReplaceUsesWith h a v = Some h' \<and> refines block r h h'"
proof (rule fold_value [OF assms(1,2) _ _ _ _ _ _ flags])
  have n: "\<forall>x. v \<noteq> VInst x" "value_type v = t" using assms(3) by (auto simp: imm_of_def)
  then show "below h r (r a) v" "storable h v" "GetType h v = GetTypeOf (opc (h ! a))"
    using assms(4) by (cases v; simp add: below_def GetType_def)+
  show "c \<in> set block" if "v = VInst c" for c using n that by simp
  show "\<not> IsAPseudoOperation (opc (h ! a))" if "nonimm h v" using n nonimm_VInst [OF that] by blast
  show "rv (f (arg_values h \<rho> a)) = slot_value \<rho> v" if "env_before h a D \<rho>" for D \<rho>
    using val [OF that] n by simp
qed

lemma imm_is_immediate [simp]:
  "chase h v = Some (VU32 x) \<Longrightarrow> IsImmediate h v = Some True"
  "chase h v = Some (VU64 y) \<Longrightarrow> IsImmediate h v = Some True"
  "chase h v = Some (VU16 k) \<Longrightarrow> IsImmediate h v = Some True"
  "chase h v = Some (VU8 z) \<Longrightarrow> IsImmediate h v = Some True"
  "chase h v = Some (VU1 b) \<Longrightarrow> IsImmediate h v = Some True"
  by (simp_all add: IsImmediate_def)

section \<open>Instructions that fold constant operands only\<close>

text \<open>The contract of one row of the switch, under a condition on the instruction.\<close>

definition fold_ok :: "(heap \<Rightarrow> nat \<Rightarrow> bool) \<Rightarrow> opcode \<Rightarrow> (heap \<Rightarrow> nat \<Rightarrow> heap option) \<Rightarrow> bool" where
  "fold_ok C p F \<longleftrightarrow> (\<forall>block r h a. inst_in block r h a \<longrightarrow> opc (h ! a) = p \<longrightarrow> C h a
     \<longrightarrow> (\<exists>h'. F h a = Some h' \<and> refines block r h h'))"

lemma imm_fold_ok:
  assumes meta: "opcode_meta p = Some (t, ts)" "Type_Opaque \<notin> set ts" and sem: "pure_sem p = Some f"
    and off: "\<And>h a. opc (h ! a) = p \<Longrightarrow> \<not> G h a \<Longrightarrow> AreAllArgsImmediates h a = Some True \<Longrightarrow> F h a = Some h"
    and no: "\<And>h a. opc (h ! a) = p \<Longrightarrow> AreAllArgsImmediates h a = Some False
        \<Longrightarrow> \<forall>i<length ts. GetArg h a i = Some (args (h ! a) ! i)
        \<Longrightarrow> \<exists>i<length ts. IsImmediate h (args (h ! a) ! i) = Some False \<Longrightarrow> F h a = Some h"
    and yes: "\<And>h a w. opc (h ! a) = p \<Longrightarrow> G h a \<Longrightarrow> AreAllArgsImmediates h a = Some True
        \<Longrightarrow> \<forall>i<length ts. GetArg h a i = Some (args (h ! a) ! i)
        \<Longrightarrow> \<forall>i<length ts. chase h (args (h ! a) ! i) = Some (w i) \<Longrightarrow> \<forall>i<length ts. imm_of (ts ! i) (w i)
        \<Longrightarrow> F h a = ReplaceUsesWith h a (g w)"
    and ty: "\<And>w. \<forall>i<length ts. imm_of (ts ! i) (w i) \<Longrightarrow> imm_of t (g w)"
    and val: "\<And>w vs. \<forall>i<length ts. imm_of (ts ! i) (w i) \<Longrightarrow> \<forall>i<length ts. vs ! i = imm_sval (w i)
        \<Longrightarrow> rv (f vs) = imm_sval (g w)"
    and flags: "\<And>block r h a vs q. inst_in block r h a \<Longrightarrow> opc (h ! a) = p \<Longrightarrow> C h a \<Longrightarrow> G h a \<Longrightarrow> reads h a q
        \<Longrightarrow> pseudo (f vs) q = pseudo (plain_result (rv (f vs))) q"
  shows "fold_ok C p F"
  unfolding fold_ok_def
proof (intro allI impI)
  fix block r h a assume inst: "inst_in block r h a" and p: "opc (h ! a) = p" and C: "C h a"
  note i = inst_inD [OF inst]
  have m: "opcode_meta (opc (h ! a)) = Some (t, ts)" using meta p by simp
  note all = AreAllArgsImmediates_eq [OF i(1,4) m] and wt = wf_args_typed [OF i(1,4) m]
  show "\<exists>h'. F h a = Some h' \<and> refines block r h h'"
  proof (cases "(\<forall>i<length ts. \<not> nonimm h (args (h ! a) ! i)) \<and> G h a")
    case False
    have "F h a = Some h"
    proof (cases "\<forall>i<length ts. \<not> nonimm h (args (h ! a) ! i)")
      case True
      with False show ?thesis using off [OF p] all by simp
    next
      case nonconst: False
      then have "\<exists>i<length ts. IsImmediate h (args (h ! a) ! i) = Some False" using wt(4) by auto
      then show ?thesis using no [OF p] all nonconst wt(2) by simp
    qed
    with inst show ?thesis using refines_refl by blast
  next
    case True
    have "\<exists>w. chase h (args (h ! a) ! j) = Some w \<and> imm_of (ts ! j) w" if "j < length ts" for j
      using imm_arg [OF i(1,4) m that] True that meta(2) by (metis nth_mem)
    then obtain w where w: "\<And>j. j < length ts \<Longrightarrow> chase h (args (h ! a) ! j) = Some (w j)"
      "\<And>j. j < length ts \<Longrightarrow> imm_of (ts ! j) (w j)"
      by metis
    have "F h a = ReplaceUsesWith h a (g w)"
      using all True by (intro yes [OF p]) (auto intro: wt w)
    moreover have "\<exists>h'. ReplaceUsesWith h a (g w) = Some h' \<and> refines block r h h'"
    proof (rule fold_imm [OF inst _ ty])
      show "pure_sem (opc (h ! a)) = Some f" "GetTypeOf (opc (h ! a)) = Some t"
        using sem p meta by (simp_all add: GetTypeOf_def)
      show "pseudo (f vs) q = pseudo (plain_result (rv (f vs))) q" if "reads h a q" for vs q
        using flags [OF inst p C _ that] True by simp
      show "rv (f (arg_values h \<rho> a)) = imm_sval (g w)" if "env_before h a D \<rho>" for D \<rho>
      proof (rule val)
        show "\<forall>j<length ts. imm_of (ts ! j) (w j)" using w(2) by blast
        show "\<forall>j<length ts. arg_values h \<rho> a ! j = imm_sval (w j)"
        proof (intro allI impI)
        fix j assume j: "j < length ts"
        have "slot_value \<rho> (args (h ! a) ! j) = slot_value \<rho> (w j)"
          by (rule arg_value(1) [OF i(1,4) wt(1) [OF j] that w(1) [OF j]])
        then show "arg_values h \<rho> a ! j = imm_sval (w j)"
          using arg_values_nth [OF i(1,4) m j] w(2) [OF j] by (simp add: imm_of_def)
        qed
      qed
    qed (use w in auto)
    ultimately show ?thesis by simp
  qed
qed

lemmas row_simps = pure_sem_def pure_table_def when_all_immediate_def imm_sval_def Let_def All_less_Suc ReplaceUsesWith_imm_def

text \<open>Where a row has no flags the result of the instruction and of its value are observed alike.\<close>

lemmas plain_row = imm_fold_ok [where G = "\<lambda>h a. True" and C = "\<lambda>h a. True"]

lemma ucast_down_bits:
  "ucast (NOT v :: u64) = (NOT (ucast v) :: u32)" "ucast (ucast (x :: u32) :: u64) = x"
  by (rule bit_word_eqI; simp add: bit_simps)+

lemma fold_words:
  "ucast (ucast (x :: u32) :: u64) = (ucast x :: u8)" "ucast (ucast x :: u64) = (ucast x :: u16)" "ucast (ucast x :: u64) = x"
  "ucast (ucast (k :: u16) :: u64) = k" "ucast (ucast k :: u64) = (ucast k :: u32)" "ucast (ucast (z :: u8) :: u64) = (ucast z :: u32)"
  "ucast (scast z :: u64) = (scast z :: u32)" "ucast (scast k :: u64) = (scast k :: u32)" "ucast (scast x :: u64) = x"
  by (rule bit_word_eqI; simp add: bit_simps; fail)+

lemma fold_sign_extend:
  "sign_extend 8 (ucast (z :: u8) :: u64) = scast z" "sign_extend 16 (ucast (k :: u16) :: u64) = scast k"
  "sign_extend 32 (ucast (x :: u32) :: u64) = scast x"
  by (rule bit_word_eqI, auto simp: bit_simps umbra_bits)+

lemma fold_sign_bit: "drop_bit 31 (ucast (x :: u32) :: u64) \<noteq> 0 \<longleftrightarrow> bit x 31"
proof -
  have "drop_bit 31 (ucast x :: u64) = of_bool (bit x 31)"
  proof (rule bit_word_eqI)
    fix n show "bit (drop_bit 31 (ucast x :: u64)) n = bit (of_bool (bit x 31) :: u64) n"
      using bit_imp_le_length [of x "31 + n"] by (cases "n = 0") (auto simp: bit_simps)
  qed
  then show ?thesis by simp
qed

lemma masked_amount: "unat (y AND 0x1f :: u32) = unat y mod 32" "unat (v AND 0x3f :: u64) = unat v mod 64"
proof -
  have eq: "y AND 0x1f = take_bit 5 y" "v AND 0x3f = take_bit 6 v" by (simp_all add: take_bit_eq_mask mask_eq_exp_minus_1)
  show "unat (y AND 0x1f) = unat y mod 32" unfolding eq unsigned_take_bit_eq by (simp add: take_bit_eq_mod)
  show "unat (v AND 0x3f) = unat v mod 64" unfolding eq unsigned_take_bit_eq by (simp add: take_bit_eq_mod)
qed

lemma asr_signed_drop_bit: "signed_drop_bit n (x :: 'a::len word) = asr x n"
proof -
  have "sint (signed_drop_bit n x) = sint x div 2 ^ n" by (simp add: sint_signed_drop_bit_eq drop_bit_eq_div)
  then have "word_of_int (sint (signed_drop_bit n x)) = asr x n" by (simp only: asr_def)
  then show ?thesis by simp
qed

lemma rotr_mod: "word_rotr (n mod 32) (x :: u32) = word_rotr n x" "word_rotr (n mod 64) (y :: u64) = word_rotr n y"
proof -
  have "rotate_right x (n mod 32) = rotate_right x n" "rotate_right y (n mod 64) = rotate_right y n"
    by (simp_all add: rotate_right_def)
  then show "word_rotr (n mod 32) x = word_rotr n x" "word_rotr (n mod 64) y = word_rotr n y"
    by (simp_all only: rotate_right_eq_rotr)
qed

lemma row_LeastSignificantWord: "fold_ok (\<lambda>h a. True) ''LeastSignificantWord'' FoldLeastSignificantWord"
  by (rule plain_row [where g = "\<lambda>w. case w 0 of VU64 x \<Rightarrow> VU32 (ucast x)"])
    (auto simp: row_simps FoldLeastSignificantWord_def)

lemma row_LeastSignificantHalf: "fold_ok (\<lambda>h a. True) ''LeastSignificantHalf'' FoldLeastSignificantHalf"
  by (rule plain_row [where g = "\<lambda>w. case w 0 of VU32 x \<Rightarrow> VU16 (ucast x)"])
    (auto simp: row_simps FoldLeastSignificantHalf_def fold_words)

lemma row_LeastSignificantByte: "fold_ok (\<lambda>h a. True) ''LeastSignificantByte'' FoldLeastSignificantByte"
  by (rule plain_row [where g = "\<lambda>w. case w 0 of VU32 x \<Rightarrow> VU8 (ucast x)"])
    (auto simp: row_simps FoldLeastSignificantByte_def fold_words)

lemma row_MostSignificantBit: "fold_ok (\<lambda>h a. True) ''MostSignificantBit'' FoldMostSignificantBit"
  by (rule plain_row [where g = "\<lambda>w. case w 0 of VU32 x \<Rightarrow> VU1 (bit x 31)"])
    (auto simp: row_simps FoldMostSignificantBit_def fold_sign_bit)

lemma row_IsZero32: "fold_ok (\<lambda>h a. True) ''IsZero32'' fold_IsZero32"
  by (rule plain_row [where g = "\<lambda>w. case w 0 of VU32 x \<Rightarrow> VU1 (x = 0)"])
    (auto simp: row_simps fold_IsZero32_def)

lemma row_IsZero64: "fold_ok (\<lambda>h a. True) ''IsZero64'' fold_IsZero64"
  by (rule plain_row [where g = "\<lambda>w. case w 0 of VU64 x \<Rightarrow> VU1 (x = 0)"])
    (auto simp: row_simps fold_IsZero64_def)

lemma row_SignExtendByteToWord: "fold_ok (\<lambda>h a. True) ''SignExtendByteToWord'' FoldSignExtendXToWord"
  by (rule plain_row [where g = "\<lambda>w. case w 0 of VU8 x \<Rightarrow> VU32 (scast x)"])
    (auto simp: row_simps FoldSignExtendXToWord_def fold_words fold_sign_extend)

lemma row_ZeroExtendByteToWord: "fold_ok (\<lambda>h a. True) ''ZeroExtendByteToWord'' FoldZeroExtendXToWord"
  by (rule plain_row [where g = "\<lambda>w. case w 0 of VU8 x \<Rightarrow> VU32 (ucast x)"])
    (auto simp: row_simps FoldZeroExtendXToWord_def fold_words)

lemma row_SignExtendHalfToWord: "fold_ok (\<lambda>h a. True) ''SignExtendHalfToWord'' FoldSignExtendXToWord"
  by (rule plain_row [where g = "\<lambda>w. case w 0 of VU16 x \<Rightarrow> VU32 (scast x)"])
    (auto simp: row_simps FoldSignExtendXToWord_def fold_words fold_sign_extend)

lemma row_ZeroExtendHalfToWord: "fold_ok (\<lambda>h a. True) ''ZeroExtendHalfToWord'' FoldZeroExtendXToWord"
  by (rule plain_row [where g = "\<lambda>w. case w 0 of VU16 x \<Rightarrow> VU32 (ucast x)"])
    (auto simp: row_simps FoldZeroExtendXToWord_def fold_words)

lemma row_SignExtendByteToLong: "fold_ok (\<lambda>h a. True) ''SignExtendByteToLong'' FoldSignExtendXToLong"
  by (rule plain_row [where g = "\<lambda>w. case w 0 of VU8 x \<Rightarrow> VU64 (scast x)"])
    (auto simp: row_simps FoldSignExtendXToLong_def fold_sign_extend)

lemma row_ZeroExtendByteToLong: "fold_ok (\<lambda>h a. True) ''ZeroExtendByteToLong'' FoldZeroExtendXToLong"
  by (rule plain_row [where g = "\<lambda>w. case w 0 of VU8 x \<Rightarrow> VU64 (ucast x)"])
    (auto simp: row_simps FoldZeroExtendXToLong_def fold_words)

lemma row_SignExtendHalfToLong: "fold_ok (\<lambda>h a. True) ''SignExtendHalfToLong'' FoldSignExtendXToLong"
  by (rule plain_row [where g = "\<lambda>w. case w 0 of VU16 x \<Rightarrow> VU64 (scast x)"])
    (auto simp: row_simps FoldSignExtendXToLong_def fold_sign_extend)

lemma row_ZeroExtendHalfToLong: "fold_ok (\<lambda>h a. True) ''ZeroExtendHalfToLong'' FoldZeroExtendXToLong"
  by (rule plain_row [where g = "\<lambda>w. case w 0 of VU16 x \<Rightarrow> VU64 (ucast x)"])
    (auto simp: row_simps FoldZeroExtendXToLong_def fold_words)

lemma row_SignExtendWordToLong: "fold_ok (\<lambda>h a. True) ''SignExtendWordToLong'' FoldSignExtendXToLong"
  by (rule plain_row [where g = "\<lambda>w. case w 0 of VU32 x \<Rightarrow> VU64 (scast x)"])
    (auto simp: row_simps FoldSignExtendXToLong_def fold_sign_extend)

lemma row_ZeroExtendWordToLong: "fold_ok (\<lambda>h a. True) ''ZeroExtendWordToLong'' FoldZeroExtendXToLong"
  by (rule plain_row [where g = "\<lambda>w. case w 0 of VU32 x \<Rightarrow> VU64 (ucast x)"])
    (auto simp: row_simps FoldZeroExtendXToLong_def fold_words)

lemma row_Not32: "fold_ok (\<lambda>h a. True) ''Not32'' (\<lambda>h inst. FoldNOT h inst True)"
  by (rule plain_row [where g = "\<lambda>w. case w 0 of VU32 x \<Rightarrow> VU32 (NOT x)"])
    (auto simp: row_simps FoldNOT_def ucast_down_bits)

lemma row_Not64: "fold_ok (\<lambda>h a. True) ''Not64'' (\<lambda>h inst. FoldNOT h inst False)"
  by (rule plain_row [where g = "\<lambda>w. case w 0 of VU64 x \<Rightarrow> VU64 (NOT x)"])
    (auto simp: row_simps FoldNOT_def ucast_down_bits)

lemma row_ByteReverseWord: "fold_ok (\<lambda>h a. True) ''ByteReverseWord'' (\<lambda>h inst. FoldByteReverse h inst ''ByteReverseWord'')"
  by (rule plain_row [where g = "\<lambda>w. case w 0 of VU32 x \<Rightarrow> VU32 (swap_bytes_32 x)"])
    (auto simp: row_simps FoldByteReverse_def fold_words)

lemma row_ByteReverseHalf: "fold_ok (\<lambda>h a. True) ''ByteReverseHalf'' (\<lambda>h inst. FoldByteReverse h inst ''ByteReverseHalf'')"
  by (rule plain_row [where g = "\<lambda>w. case w 0 of VU16 x \<Rightarrow> VU16 (swap_bytes_16 x)"])
    (auto simp: row_simps FoldByteReverse_def fold_words)

lemma row_ByteReverseDual: "fold_ok (\<lambda>h a. True) ''ByteReverseDual'' (\<lambda>h inst. FoldByteReverse h inst ''ByteReverseDual'')"
  by (rule plain_row [where g = "\<lambda>w. case w 0 of VU64 x \<Rightarrow> VU64 (swap_bytes_64 x)"])
    (auto simp: row_simps FoldByteReverse_def fold_words)

lemma row_LogicalShiftLeftMasked32: "fold_ok (\<lambda>h a. True) ''LogicalShiftLeftMasked32'' (fold_masked32 (\<lambda>x y. ucast (push_bit (unat (y AND 0x1f)) x)))"
  by (rule plain_row [where g = "\<lambda>w. case w 0 of VU32 x \<Rightarrow> (case w 1 of VU32 y \<Rightarrow> VU32 (push_bit (unat y mod 32) x))"])
    (auto simp: row_simps fold_masked32_def fold_words masked_amount)

lemma row_LogicalShiftRightMasked32: "fold_ok (\<lambda>h a. True) ''LogicalShiftRightMasked32'' (fold_masked32 (\<lambda>x y. ucast (drop_bit (unat (y AND 0x1f)) x)))"
  by (rule plain_row [where g = "\<lambda>w. case w 0 of VU32 x \<Rightarrow> (case w 1 of VU32 y \<Rightarrow> VU32 (drop_bit (unat y mod 32) x))"])
    (auto simp: row_simps fold_masked32_def fold_words masked_amount)

lemma row_ArithmeticShiftRightMasked32: "fold_ok (\<lambda>h a. True) ''ArithmeticShiftRightMasked32'' (fold_masked32 (\<lambda>x y. scast (signed_drop_bit (unat (y AND 0x1f)) x)))"
  by (rule plain_row [where g = "\<lambda>w. case w 0 of VU32 x \<Rightarrow> (case w 1 of VU32 y \<Rightarrow> VU32 (asr x (unat y mod 32)))"])
    (auto simp: row_simps fold_masked32_def fold_words masked_amount asr_signed_drop_bit)

lemma row_RotateRightMasked32: "fold_ok (\<lambda>h a. True) ''RotateRightMasked32'' (fold_masked32 (\<lambda>x y. ucast (rotate_right x (unat y))))"
  by (rule plain_row [where g = "\<lambda>w. case w 0 of VU32 x \<Rightarrow> (case w 1 of VU32 y \<Rightarrow> VU32 (word_rotr (unat y mod 32) x))"])
    (auto simp: row_simps fold_masked32_def fold_words rotate_right_eq_rotr rotr_mod)

lemma row_LogicalShiftLeftMasked64: "fold_ok (\<lambda>h a. True) ''LogicalShiftLeftMasked64'' (fold_masked64 (\<lambda>x y. push_bit (unat (y AND 0x3f)) x))"
  by (rule plain_row [where g = "\<lambda>w. case w 0 of VU64 x \<Rightarrow> (case w 1 of VU64 y \<Rightarrow> VU64 (push_bit (unat y mod 64) x))"])
    (auto simp: row_simps fold_masked64_def fold_words masked_amount)

lemma row_LogicalShiftRightMasked64: "fold_ok (\<lambda>h a. True) ''LogicalShiftRightMasked64'' (fold_masked64 (\<lambda>x y. drop_bit (unat (y AND 0x3f)) x))"
  by (rule plain_row [where g = "\<lambda>w. case w 0 of VU64 x \<Rightarrow> (case w 1 of VU64 y \<Rightarrow> VU64 (drop_bit (unat y mod 64) x))"])
    (auto simp: row_simps fold_masked64_def fold_words masked_amount)

lemma row_ArithmeticShiftRightMasked64: "fold_ok (\<lambda>h a. True) ''ArithmeticShiftRightMasked64'' (fold_masked64 (\<lambda>x y. signed_drop_bit (unat (y AND 0x3f)) x))"
  by (rule plain_row [where g = "\<lambda>w. case w 0 of VU64 x \<Rightarrow> (case w 1 of VU64 y \<Rightarrow> VU64 (asr x (unat y mod 64)))"])
    (auto simp: row_simps fold_masked64_def fold_words masked_amount asr_signed_drop_bit)

lemma row_RotateRightMasked64: "fold_ok (\<lambda>h a. True) ''RotateRightMasked64'' (fold_masked64 (\<lambda>x y. rotate_right x (unat y)))"
  by (rule plain_row [where g = "\<lambda>w. case w 0 of VU64 x \<Rightarrow> (case w 1 of VU64 y \<Rightarrow> VU64 (word_rotr (unat y mod 64) x))"])
    (auto simp: row_simps fold_masked64_def fold_words rotate_right_eq_rotr rotr_mod)

end
