(* ===== verification/Constant_Folding.thy ===== *)
theory Constant_Folding
  imports Constant_Propagation
begin

text \<open>
  The folds that rewrite operands: what one or two writes to the operands of an instruction
  keep of a block, the contracts of a fold on words and of a commutative fold as locales with
  their interpretations on the eight commutative opcodes, and the rows of the pass for
  \<open>FoldAND\<close>, \<open>FoldEOR\<close>, \<open>FoldOR\<close> and \<open>FoldMultiply\<close>.
\<close>

lemma ucast_add_down: "ucast (a + b :: u64) = (ucast a + ucast b :: u32)"
proof -
  have "(of_int (uint (a + b)) :: u32) = of_int (uint a) + of_int (uint b)"
    unfolding uint_word_ariths of_int_add [symmetric] word_of_int_eq_iff
    by (simp only: take_bit_eq_mod) (simp add: mod_mod_cancel)
  then show ?thesis by simp
qed

section \<open>Rewriting operands\<close>

lemma no_pseudo_reads:
  assumes "inst_in block r h a" "\<not> HasAssociatedPseudoOperation h a" "\<not> IsAPseudoOperation (opc (h ! a))"
    and "opc (h ! a) \<noteq> ''Identity''" "opc (h ! a) \<noteq> ''Void''"
  shows "\<not> reads h a q"
proof
  note i = inst_inD [OF assms(1)]
  assume "reads h a q"
  then obtain b where b: "b < length h" "opc (h ! b) = q" "args (h ! b) ! 0 = VInst a" "reads_parent q"
    by (auto simp: reads_def)
  have "IsAPseudoOperation q" using b(4) by (auto simp: reads_parent_def)
  then have "observes h a b" using b by (simp add: observes_def)
  moreover have "chain_ok h a" using i assms(3-5) by (simp add: wf_heap_def chained_def)
  moreover have "next_pseudoop (h ! a) = None" using assms(2,3) by (simp add: HasAssociatedPseudoOperation_def)
  ultimately show False by (auto simp: chain_ok_def)
qed

lemma storable_arg_written:
  assumes "wf_heap h r" "a < length h" "arg_written h a i u h'" "below h r (r a) u" "opc (h ! a) \<noteq> ''Identity''"
    and "storable h v" "valid_value h v"
  shows "storable h' v"
proof (cases v)
  case (VInst x)
  have rk: "ranked h r" using assms(1) by (simp add: wf_heap_def)
  have x: "x < length h" using assms(7) VInst by simp
  have ni: "nonimm h' v = nonimm h v"
    using nonimm_arg_written [OF rk assms(2-4) _ assms(7)] assms(5) by blast
  have "opc (h' ! x) = opc (h ! x)" "\<not> nonimm h (VInst x) \<Longrightarrow> use_count (h' ! x) = use_count (h ! x)"
    using assms(3) x by (auto simp: arg_written_def)
  then show ?thesis using assms(6) VInst ni by auto
qed simp_all

text \<open>Results that cannot be told apart by the observers of an instruction.\<close>

definition same_result :: "heap \<Rightarrow> nat \<Rightarrow> result \<Rightarrow> result \<Rightarrow> bool" where
  "same_result h a x y \<longleftrightarrow> rv x = rv y \<and> (\<forall>q. reads h a q \<longrightarrow> pseudo x q = pseudo y q)"

lemma same_result_refl [simp]: "same_result h a x x"
  by (simp add: same_result_def)

lemma set_one_arg:
  assumes inst: "inst_in block r h a" and m: "opcode_meta (opc (h ! a)) = Some (t, ts)" "i < length ts"
    and np: "\<not> IsAPseudoOperation (opc (h ! a))" and sem: "pure_sem (opc (h ! a)) = Some f"
    and u: "below h r (r a) u" "storable h u" "arg_ok h u (ts ! i)" "\<And>c. u = VInst c \<Longrightarrow> c \<in> set block"
    and eff: "\<And>D \<rho>. env_before h a D \<rho> \<Longrightarrow> same_result h a (f ((arg_values h \<rho> a)[i := slot_value \<rho> u])) (f (arg_values h \<rho> a))"
  shows "\<exists>h1. SetArg h a i u = Some h1 \<and> refines block r h h1 \<and> arg_written h a i u h1
    \<and> (\<forall>x. next_pseudoop (h1 ! x) = next_pseudoop (h ! x)) \<and> (\<forall>x. valid_value h x \<longrightarrow> chase h1 x = chase h x)"
proof -
  note k = inst_inD [OF inst] and p = calc_opcode [OF sem]
  obtain h1 where h1: "SetArg h a i u = Some h1" "arg_written h a i u h1" "wf_heap h1 r"
    "\<And>x. next_pseudoop (h1 ! x) = next_pseudoop (h ! x)"
    using SetArg_wf [OF k(1,4) u(1) m] u(2,3) np p(1) by auto
  have len: "length h1 = length h" and op: "\<And>x. x < length h \<Longrightarrow> opc (h1 ! x) = opc (h ! x)"
    and ar: "\<And>x. x < length h \<Longrightarrow> args (h1 ! x) = (if x = a then (args (h ! a))[i := u] else args (h ! x))"
    using h1(2) by (auto simp: arg_written_def)
  have same: "opc (h1 ! b) = opc (h ! b) \<and> args (h1 ! b) = args (h ! b)" if "b < length h" "b \<noteq> a" for b
    using op ar that by simp
  have rk1: "ranked h1 r" using h1(3) by (simp add: wf_heap_def)
  have ch: "chase h1 x = chase h x" if "valid_value h x" for x
    using chase_arg_written [OF k(5,4) h1(2) u(1) _ valid_below [OF k(5) that]] p(1) by simp
  have av: "arg_values h1 \<rho> a = (arg_values h \<rho> a)[i := slot_value \<rho> u]" for \<rho>
    using op ar k(4) by (simp add: arg_values_def take_update_swap map_update)
  have "refines block r h h1"
  proof (rule refines_at [OF inst h1(3) len same])
    show "c \<in> set block" if "VInst c \<in> set (args (h1 ! a))" for c
      using that ar [OF k(4)] set_update_subset_insert [of "args (h ! a)" i u] u(4) below_in_block [OF inst k(3)] by auto
    show "same_effect h h1 \<rho> a" if "env_before h a D \<rho>" for D \<rho>
      using eff [OF that] det_calc [of h a f \<rho>, OF sem] det_calc [of h1 a f \<rho>] sem op k(4)
        reads_mono [OF rk1 len _ k(4) same]
      by (auto simp: same_effect_def av same_result_def)
  qed auto
  with h1 ch show ?thesis by blast
qed

lemma set_two_args:
  assumes inst: "inst_in block r h a" and m: "opcode_meta (opc (h ! a)) = Some (t, t0 # t1 # ts)"
    and np: "\<not> IsAPseudoOperation (opc (h ! a))" and sem: "pure_sem (opc (h ! a)) = Some f"
    and u: "below h r (r a) u" "storable h u" "arg_ok h u t0" "\<And>c. u = VInst c \<Longrightarrow> c \<in> set block"
    and v: "below h r (r a) v" "storable h v" "arg_ok h v t1" "\<And>c. v = VInst c \<Longrightarrow> c \<in> set block"
    and eff: "\<And>D \<rho>. env_before h a D \<rho> \<Longrightarrow>
      same_result h a (f ((arg_values h \<rho> a)[0 := slot_value \<rho> u, 1 := slot_value \<rho> v])) (f (arg_values h \<rho> a))"
  shows "\<exists>h1 h2. SetArg h a 0 u = Some h1 \<and> SetArg h1 a 1 v = Some h2 \<and> refines block r h h2
    \<and> opc (h2 ! a) = opc (h ! a) \<and> next_pseudoop (h2 ! a) = next_pseudoop (h ! a)
    \<and> args (h2 ! a) = (args (h ! a))[0 := u, 1 := v] \<and> (\<forall>x. valid_value h x \<longrightarrow> chase h2 x = chase h x)
    \<and> (\<forall>b<length h. b \<noteq> a \<longrightarrow> args (h2 ! b) = args (h ! b))"
proof -
  note i = inst_inD [OF inst] and p = calc_opcode [OF sem]
  obtain h1 where h1: "SetArg h a 0 u = Some h1" "arg_written h a 0 u h1" "wf_heap h1 r"
    "\<And>x. next_pseudoop (h1 ! x) = next_pseudoop (h ! x)"
    using SetArg_wf [OF i(1,4) u(1) m, of 0] u(2,3) np p(1) by auto
  have l1: "length h1 = length h" and s1: "\<And>x. x < length h \<Longrightarrow> opc (h1 ! x) = opc (h ! x)"
    and a1: "\<And>x. x < length h \<Longrightarrow> args (h1 ! x) = (if x = a then (args (h ! a))[0 := u] else args (h ! x))"
    using h1(2) by (auto simp: arg_written_def)
  have v1: "below h1 r (r a) v" using v(1) l1 by (cases v) (auto simp: below_def)
  have ok1: "arg_ok h1 v t1"
    using v(3) arg_ok_cong [OF GetType_arg_written [OF i(5,4) h1(2) u(1) _ below_valid [OF v(1)]]] p(1) by blast
  have st1: "storable h1 v" by (rule storable_arg_written [OF i(1,4) h1(2) u(1) p(1) v(2) below_valid [OF v(1)]])
  have rk1: "ranked h1 r" using h1(3) by (simp add: wf_heap_def)
  obtain h2 where h2: "SetArg h1 a 1 v = Some h2" "arg_written h1 a 1 v h2" "wf_heap h2 r"
    "\<And>x. next_pseudoop (h2 ! x) = next_pseudoop (h1 ! x)"
    using SetArg_wf [OF h1(3) _ v1, of t "t0 # t1 # ts" 1] i(4) l1 s1 [OF i(4)] m ok1 np p(1) st1 by auto
  have len: "length h2 = length h" and op: "\<And>x. x < length h \<Longrightarrow> opc (h2 ! x) = opc (h ! x)"
    and ar: "\<And>x. x < length h \<Longrightarrow> args (h2 ! x) = (if x = a then (args (h ! a))[0 := u, 1 := v] else args (h ! x))"
    using h2(2) l1 s1 a1 i(4) by (auto simp: arg_written_def)
  have ch: "chase h2 x = chase h x" if "valid_value h x" for x
    using chase_arg_written [OF i(5,4) h1(2) u(1) _ valid_below [OF i(5) that]] p(1)
      chase_arg_written [OF rk1 _ h2(2) v1 _ valid_below [OF rk1, of x]] that l1 s1 [OF i(4)] i(4)
    by (simp add: valid_value_def split: ir_value.splits)
  have av: "arg_values h2 \<rho> a = (arg_values h \<rho> a)[0 := slot_value \<rho> u, 1 := slot_value \<rho> v]" for \<rho>
    using op ar i(4) by (simp add: arg_values_def take_update_swap map_update)
  have rk2: "ranked h2 r" using h2(3) by (simp add: wf_heap_def)
  have same: "opc (h2 ! b) = opc (h ! b) \<and> args (h2 ! b) = args (h ! b)" if "b < length h" "b \<noteq> a" for b
    using op ar that by simp
  have "refines block r h h2"
  proof (rule refines_at [OF inst h2(3) len same])
    show "c \<in> set block" if "VInst c \<in> set (args (h2 ! a))" for c
    proof -
      have "VInst c \<in> insert v (insert u (set (args (h ! a))))"
        using that ar [OF i(4)] set_update_subset_insert [of "(args (h ! a))[0 := u]" 1 v]
          set_update_subset_insert [of "args (h ! a)" 0 u] by auto
      then show ?thesis using u(4) v(4) below_in_block [OF inst i(3)] by auto
    qed
    show "same_effect h h2 \<rho> a" if "env_before h a D \<rho>" for D \<rho>
      using eff [OF that] det_calc [of h a f \<rho>, OF sem] det_calc [of h2 a f \<rho>] sem op i(4)
        reads_mono [OF rk2 len _ i(4) same]
      by (auto simp: same_effect_def av same_result_def)
  qed auto
  then show ?thesis using h1(1,4) h2(1,4) op ar i(4) ch by auto
qed

lemma chase_in_block:
  assumes "inst_in block r h a" "\<And>c. v = VInst c \<Longrightarrow> c \<in> set block" "valid_value h v" "chase h v = Some (VInst c)"
  shows "c \<in> set block"
proof -
  have rk: "ranked h r" using inst_inD [OF assms(1)] by simp
  show ?thesis
    using rk valid_below [OF rk assms(3)] assms(2,4)
  proof (induction rule: below_induct)
    case (other v)
    then show ?case by auto
  next
    case (identity b)
    have b: "b \<in> set block" using identity.prems(1) by simp
    have mem: "args (h ! b) ! 0 \<in> set (args (h ! b))" using ranked_length [OF rk identity.hyps(1)] by simp
    have "x \<in> set block" if "args (h ! b) ! 0 = VInst x" for x
      using below_in_block [OF assms(1) b, of x] mem that by simp
    then show ?case using identity.IH identity.prems(2) chase_identity [OF rk identity.hyps] by simp
  qed
qed

text \<open>The instruction behind an operand that is not an immediate.\<close>

lemma operand_inst:
  assumes inst: "inst_in block r h a" and m: "opcode_meta (opc (h ! a)) = Some (t, ts)" "i < length ts"
    and n: "nonimm h (args (h ! a) ! i)"
  obtains c where "chase h (args (h ! a) ! i) = Some (VInst c)" "GetInstRecursive h (args (h ! a) ! i) = Some c"
    "inst_in block r h c" "r c < r a"
    "\<And>D \<rho>. env_before h a D \<rho> \<Longrightarrow> env_before h c D \<rho> \<and> settled h \<rho> c \<and> slot_value \<rho> (args (h ! a) ! i) = rv (\<rho> c)"
proof -
  note k = inst_inD [OF inst] and w = wf_args_typed [OF inst_inD(1,4) [OF inst] m]
  note va = wf_valid_arg [OF k(1,4) w(1)]
  obtain c where c: "chase h (args (h ! a) ! i) = Some (VInst c)" using n by (auto simp: nonimm_alt)
  have "below h r (r a) (VInst c)" using chase_result [OF k(5) va(2) c] by simp
  then have "r c < r a" "c < length h" by auto
  moreover have "c \<in> set block"
    using chase_in_block [OF inst _ va(1) c] below_in_block [OF inst k(3)] va(3) by metis
  moreover have "env_before h c D \<rho> \<and> settled h \<rho> c \<and> slot_value \<rho> (args (h ! a) ! i) = rv (\<rho> c)"
    if e: "env_before h a D \<rho>" for D \<rho>
  proof -
    have "slot_value \<rho> (args (h ! a) ! i) = slot_value \<rho> (VInst c)" "c \<in> D"
      using arg_value [OF k(1,4) w(1) e c] by auto
    then show ?thesis using e by (auto simp: env_before_def closed_under_args_def)
  qed
  ultimately show ?thesis using that c inst by (auto simp: GetInstRecursive_def GetInst_def inst_in_def)
qed

lemma imm_slot:
  assumes "inst_in block r h a" "i < 4" "env_before h a D \<rho>" "chase h (args (h ! a) ! i) = Some w" "imm_of t w"
  shows "slot_value \<rho> (args (h ! a) ! i) = imm_sval w"
  using arg_value(1) [OF inst_inD(1,4) [OF assms(1)] assms(2-4)] assms(5) by (simp add: imm_of_def)

lemma operand_facts:
  assumes inst: "inst_in block r h a" and m: "opcode_meta (opc (h ! a)) = Some (t, ts)" and i: "i < length ts"
  shows "i < 4" "GetArg h a i = Some (args (h ! a) ! i)" "arg_ok h (args (h ! a) ! i) (ts ! i)"
    "IsImmediate h (args (h ! a) ! i) = Some (\<not> nonimm h (args (h ! a) ! i))"
    "arg_values h \<rho> a ! i = slot_value \<rho> (args (h ! a) ! i)"
    "below h r (r a) (args (h ! a) ! i)" "storable h (args (h ! a) ! i)" "args (h ! a) ! i = VInst c \<Longrightarrow> c \<in> set block"
    "valid_value h (args (h ! a) ! i)"
proof -
  note k = inst_inD [OF inst] and w = wf_args_typed [OF inst_inD(1,4) [OF inst] m i]
  note va = wf_valid_arg [OF k(1,4) w(1)]
  show "i < 4" "GetArg h a i = Some (args (h ! a) ! i)" "arg_ok h (args (h ! a) ! i) (ts ! i)"
    "IsImmediate h (args (h ! a) ! i) = Some (\<not> nonimm h (args (h ! a) ! i))" by (fact w)+
  show "arg_values h \<rho> a ! i = slot_value \<rho> (args (h ! a) ! i)" by (rule arg_values_nth [OF k(1,4) m i])
  show "below h r (r a) (args (h ! a) ! i)" "storable h (args (h ! a) ! i)" "valid_value h (args (h ! a) ! i)" using va by auto
  show "args (h ! a) ! i = VInst c \<Longrightarrow> c \<in> set block" using below_in_block [OF inst k(3)] va(3) by metis
qed

lemma length_arg_values:
  assumes "inst_in block r h a" "opcode_meta (opc (h ! a)) = Some (t, ts)"
  shows "length (arg_values h \<rho> a) = length ts"
  using assms inst_inD(6) [OF assms(1)] opcode_meta_ok(1) [OF assms(2)] by (simp add: arg_values_def arity_def)

definition word_type :: "bool \<Rightarrow> ir_type" where
  "word_type is_32_bit = (if is_32_bit then Type_U32 else Type_U64)"

definition imm_word :: "ir_value \<Rightarrow> u64" where
  "imm_word w = (case w of VU32 x \<Rightarrow> ucast x | VU64 y \<Rightarrow> y | _ \<Rightarrow> 0)"

lemma word_type_imm:
  assumes "imm_of (word_type is_32_bit) w" "chase h v = Some w"
  shows "GetImmediateAsU64 h v = Some (imm_word w)" "IsImmediate h v = Some True"
    "w = Value_imm is_32_bit (imm_word w)" "\<not> nonimm h v"
  using assms by (auto simp: word_type_def imm_word_def Value_imm_def ucast_down_bits nonimm_alt split: if_splits)

lemma Value_imm_ok:
  "imm_of (word_type is_32_bit) (Value_imm is_32_bit n)" "below h r k (Value_imm is_32_bit n)" "storable h (Value_imm is_32_bit n)"
  "arg_ok h (Value_imm is_32_bit n) (word_type is_32_bit)" "Value_imm is_32_bit n \<noteq> VInst c"
  "chase h (Value_imm is_32_bit n) = Some (Value_imm is_32_bit n)"
  by (simp_all add: word_type_def Value_imm_def below_def arg_ok_def GetType_def AreTypesCompatible_def)

lemma ReplaceUsesWith_imm_eq: "ReplaceUsesWith_imm h a is_32_bit n = ReplaceUsesWith h a (Value_imm is_32_bit n)"
  by (simp add: ReplaceUsesWith_imm_def Value_imm_def)

section \<open>Commutative operations\<close>

text \<open>An instruction that computes a word from two words.\<close>

locale word_fold =
  fixes p :: opcode and is_32_bit :: bool and g :: "sval \<Rightarrow> sval \<Rightarrow> sval"
  assumes meta: "opcode_meta p = Some (word_type is_32_bit, [word_type is_32_bit, word_type is_32_bit])"
    and sem: "pure_sem p = Some (\<lambda>vs. plain_result (g (vs ! 0) (vs ! 1)))"
    and not_pseudo: "\<not> IsAPseudoOperation p"
begin

lemma operands:
  assumes inst: "inst_in block r h a" and p: "opc (h ! a) = p" and i: "i = 0 \<or> i = 1"
  shows "i < 4" "GetArg h a i = Some (args (h ! a) ! i)" "arg_ok h (args (h ! a) ! i) (word_type is_32_bit)"
    "IsImmediate h (args (h ! a) ! i) = Some (\<not> nonimm h (args (h ! a) ! i))"
    "arg_values h \<rho> a ! i = slot_value \<rho> (args (h ! a) ! i)"
    "below h r (r a) (args (h ! a) ! i)" "storable h (args (h ! a) ! i)" "args (h ! a) ! i = VInst c \<Longrightarrow> c \<in> set block"
    "length (arg_values h \<rho> a) = 2"
proof -
  have m: "opcode_meta (opc (h ! a)) = Some (word_type is_32_bit, [word_type is_32_bit, word_type is_32_bit])"
    using meta p by simp
  have j: "i < length [word_type is_32_bit, word_type is_32_bit]" using i by auto
  show "arg_ok h (args (h ! a) ! i) (word_type is_32_bit)" using operand_facts(3) [OF inst m j] i by auto
  show "length (arg_values h \<rho> a) = 2" using length_arg_values [OF inst m] by simp
qed (use operand_facts [OF inst, of "word_type is_32_bit" "[word_type is_32_bit, word_type is_32_bit]" i] meta p i in auto)

lemma const_operand:
  assumes inst: "inst_in block r h a" and p: "opc (h ! a) = p" and i: "i = 0 \<or> i = 1" and n: "\<not> nonimm h (args (h ! a) ! i)"
  obtains x where "chase h (args (h ! a) ! i) = Some (Value_imm is_32_bit x)" "GetImmediateAsU64 h (args (h ! a) ! i) = Some x"
    "\<And>D \<rho>. env_before h a D \<rho> \<Longrightarrow> slot_value \<rho> (args (h ! a) ! i) = imm_sval (Value_imm is_32_bit x)"
proof -
  note k = inst_inD [OF inst]
  have m: "opcode_meta (opc (h ! a)) = Some (word_type is_32_bit, [word_type is_32_bit, word_type is_32_bit])"
    using meta p by simp
  have j: "i < length [word_type is_32_bit, word_type is_32_bit]" and wt: "[word_type is_32_bit, word_type is_32_bit] ! i = word_type is_32_bit"
    using i by auto
  obtain w where w: "chase h (args (h ! a) ! i) = Some w" "imm_of (word_type is_32_bit) w"
    using imm_arg [OF k(1,4) m j n] wt by (auto simp: word_type_def split: if_splits)
  note ww = word_type_imm [OF w(2,1)]
  show ?thesis
    using that [of "imm_word w"] w(1) ww(1) imm_slot [OF inst operands(1) [OF inst p i] _ w] ww(3) by metis
qed

lemma value_of:
  assumes inst: "inst_in block r h a" and p: "opc (h ! a) = p" and e: "env_before h a D \<rho>" "settled h \<rho> a"
  shows "rv (\<rho> a) = g (slot_value \<rho> (args (h ! a) ! 0)) (slot_value \<rho> (args (h ! a) ! 1))"
  using e(2) det_calc [of h a] sem p operands(5) [OF inst p, of 0] operands(5) [OF inst p, of 1]
  by (simp add: settled_def)

end

text \<open>What the folding of a commutative operation relies on: the folding function computes the
  operation on immediates, and the operation is commutative and associative.\<close>

locale commutative_fold = word_fold +
  fixes imm_fn :: "u64 \<Rightarrow> u64 \<Rightarrow> u64"
  assumes comm: "g x y = g y x" and assoc: "g (g x y) z = g x (g y z)"
    and imm: "g (imm_sval (Value_imm is_32_bit m)) (imm_sval (Value_imm is_32_bit n)) = imm_sval (Value_imm is_32_bit (imm_fn m n))"
begin

lemma nested:
  assumes inst: "inst_in block r h a" and p: "opc (h ! a) = p" and i: "i = 0 \<or> i = 1" "j = 1 - i"
    and n: "nonimm h (args (h ! a) ! i)" "\<not> nonimm h (args (h ! a) ! j)" and c: "chase h (args (h ! a) ! i) = Some (VInst c)"
    and q: "opc (h ! c) = p" "\<not> nonimm h (args (h ! c) ! 1)"
  shows "\<exists>h'. merge_nested h a c is_32_bit imm_fn (args (h ! a) ! j) = Some h' \<and> refines block r h h' \<and> opc (h' ! a) = p"
proof -
  have m: "opcode_meta (opc (h ! a)) = Some (word_type is_32_bit, [word_type is_32_bit, word_type is_32_bit])"
    using meta p by simp
  have i2: "i < length [word_type is_32_bit, word_type is_32_bit]" and j: "j = 0 \<or> j = 1" using i by auto
  obtain c' where c': "chase h (args (h ! a) ! i) = Some (VInst c')" "inst_in block r h c'" "r c' < r a"
    "\<And>D \<rho>. env_before h a D \<rho> \<Longrightarrow> env_before h c' D \<rho> \<and> settled h \<rho> c' \<and> slot_value \<rho> (args (h ! a) ! i) = rv (\<rho> c')"
    using operand_inst [OF inst m i2 n(1)] by metis
  then have ic: "inst_in block r h c" "r c < r a"
    and ev: "\<And>D \<rho>. env_before h a D \<rho> \<Longrightarrow> env_before h c D \<rho> \<and> settled h \<rho> c \<and> slot_value \<rho> (args (h ! a) ! i) = rv (\<rho> c)"
    using c by auto
  obtain x where x: "GetImmediateAsU64 h (args (h ! a) ! j) = Some x"
    "\<And>D \<rho>. env_before h a D \<rho> \<Longrightarrow> slot_value \<rho> (args (h ! a) ! j) = imm_sval (Value_imm is_32_bit x)"
    using const_operand [OF inst p j n(2)] by metis
  obtain y where y: "GetImmediateAsU64 h (args (h ! c) ! 1) = Some y"
    "\<And>D \<rho>. env_before h c D \<rho> \<Longrightarrow> slot_value \<rho> (args (h ! c) ! 1) = imm_sval (Value_imm is_32_bit y)"
    using const_operand [OF ic(1) q(1) _ q(2)] by metis
  note o0 = operands [OF ic(1) q(1), of 0, simplified] and o1 = operands [OF ic(1) q(1), of 1, simplified]
  let ?u = "args (h ! c) ! 0" and ?v = "Value_imm is_32_bit (imm_fn x y)"
  have "\<exists>h1 h2. SetArg h a 0 ?u = Some h1 \<and> SetArg h1 a 1 ?v = Some h2 \<and> refines block r h h2 \<and> opc (h2 ! a) = opc (h ! a)
    \<and> next_pseudoop (h2 ! a) = next_pseudoop (h ! a)
    \<and> args (h2 ! a) = (args (h ! a))[0 := ?u, 1 := ?v] \<and> (\<forall>x. valid_value h x \<longrightarrow> chase h2 x = chase h x)
    \<and> (\<forall>b<length h. b \<noteq> a \<longrightarrow> args (h2 ! b) = args (h ! b))"
  proof (rule set_two_args [OF inst m])
    show "\<not> IsAPseudoOperation (opc (h ! a))" "pure_sem (opc (h ! a)) = Some (\<lambda>vs. plain_result (g (vs ! 0) (vs ! 1)))"
      using p not_pseudo sem by simp_all
    show "below h r (r a) ?u" using o0(6) ic(2) by (auto intro: below_mono)
    fix D \<rho> assume e: "env_before h a D \<rho>"
    note ec = ev [OF e]
    have "slot_value \<rho> (args (h ! a) ! i) = g (slot_value \<rho> ?u) (imm_sval (Value_imm is_32_bit y))"
      using ec value_of [OF ic(1) q(1)] y(2) by metis
    then have "g (slot_value \<rho> ?u) (imm_sval ?v) = g (slot_value \<rho> (args (h ! a) ! i)) (slot_value \<rho> (args (h ! a) ! j))"
      using x(2) [OF e] imm [of x y, symmetric] assoc comm by metis
    also have "\<dots> = g (slot_value \<rho> (args (h ! a) ! 0)) (slot_value \<rho> (args (h ! a) ! 1))" using i comm by auto
    finally show "same_result h a (plain_result (g ((arg_values h \<rho> a)[0 := slot_value \<rho> ?u, 1 := slot_value \<rho> ?v] ! 0)
        ((arg_values h \<rho> a)[0 := slot_value \<rho> ?u, 1 := slot_value \<rho> ?v] ! 1)))
      (plain_result (g (arg_values h \<rho> a ! 0) (arg_values h \<rho> a ! 1)))"
      using operands [OF inst p, of 0] operands [OF inst p, of 1] Value_imm_ok(5) by simp
  qed (use o0 Value_imm_ok in auto)
  then show ?thesis using x(1) y(1) o0(2) o1(2) p by (auto simp: merge_nested_def)
qed

lemma swapped:
  assumes inst: "inst_in block r h a" and p: "opc (h ! a) = p"
  shows "\<exists>h1 h2. SetArg h a 0 (args (h ! a) ! 1) = Some h1 \<and> SetArg h1 a 1 (args (h ! a) ! 0) = Some h2
    \<and> refines block r h h2 \<and> opc (h2 ! a) = p"
proof -
  note o0 = operands [OF inst p, of 0, simplified] and o1 = operands [OF inst p, of 1, simplified]
  have m: "opcode_meta (opc (h ! a)) = Some (word_type is_32_bit, [word_type is_32_bit, word_type is_32_bit])"
    using meta p by simp
  show ?thesis
    using set_two_args [OF inst m, of "\<lambda>vs. plain_result (g (vs ! 0) (vs ! 1))" "args (h ! a) ! 1" "args (h ! a) ! 0"]
      o0 o1 p not_pseudo sem comm by (auto simp: length_Suc_conv numeral_2_eq_2)
qed

end

lemma arg_type:
  assumes "inst_in block r h a" "opcode_meta (opc (h ! a)) = Some (t, ts)" "i < length ts" "ts ! i \<noteq> Type_Opaque"
  shows "GetType h (args (h ! a) ! i) = Some (ts ! i)"
    "env_before h a D \<rho> \<Longrightarrow> sval_ok (ts ! i) (slot_value \<rho> (args (h ! a) ! i))"
proof -
  let ?v = "args (h ! a) ! i"
  note k = inst_inD [OF assms(1)] and w = wf_args_typed [OF inst_inD(1,4) [OF assms(1)] assms(2,3)]
  note va = wf_valid_arg [OF k(1,4) w(1)]
  obtain u where u: "chase h ?v = Some u" using chase_total [OF k(5) va(1)] by blast
  have nu: "\<not> IsIdentity h u" using chase_result [OF k(5) va(2) u] by simp
  obtain ty where ty: "GetType h ?v = Some ty" "AreTypesCompatible ty (ts ! i)"
    using w(3) by (auto simp: arg_ok_def split: option.splits)
  have "ty \<noteq> Type_Opaque"
  proof (cases u)
    case (VInst b)
    then have "GetTypeOf (opc (h ! b)) = Some ty" "opc (h ! b) \<noteq> ''Identity''" using ty(1) u nu by (auto simp: GetType_def)
    then show ?thesis using opcode_meta_ok(2) by (fastforce simp: GetTypeOf_def)
  qed (use ty(1) u in \<open>auto simp: GetType_def\<close>)
  then show t: "GetType h ?v = Some (ts ! i)" using ty assms(4) by (auto simp: AreTypesCompatible_def)
  show "sval_ok (ts ! i) (slot_value \<rho> ?v)" if e: "env_before h a D \<rho>"
  proof (cases ?v)
    case (VInst b)
    then have "settled h \<rho> b" using e va(3) by (auto simp: env_before_def)
    then show ?thesis using t VInst by (simp add: settled_def)
  qed (use t sval_ok_imm [of ?v] in \<open>auto simp: GetType_def\<close>)
qed

lemma fold_operand:
  assumes inst: "inst_in block r h a" and m: "opcode_meta (opc (h ! a)) = Some (t, ts)" "i < length ts" "ts ! i = t" "t \<noteq> Type_Opaque"
    and sem: "pure_sem (opc (h ! a)) = Some f" and np: "\<not> IsAPseudoOperation (opc (h ! a))"
    and val: "\<And>D \<rho>. env_before h a D \<rho> \<Longrightarrow> rv (f (arg_values h \<rho> a)) = slot_value \<rho> (args (h ! a) ! i)"
    and flags: "\<And>vs q. reads h a q \<Longrightarrow> pseudo (f vs) q = pseudo (plain_result (rv (f vs))) q"
  shows "\<exists>h'. ReplaceUsesWith h a (args (h ! a) ! i) = Some h' \<and> refines block r h h'"
proof -
  note k = inst_inD [OF inst] and w = wf_args_typed [OF inst_inD(1,4) [OF inst] m(1,2)]
  note va = wf_valid_arg [OF k(1,4) w(1)]
  show ?thesis
  proof (rule fold_value [OF inst sem va(2,4)])
    show "GetType h (args (h ! a) ! i) = GetTypeOf (opc (h ! a))"
      using arg_type(1) [OF inst m(1,2)] m by (simp add: GetTypeOf_def)
    show "c \<in> set block" if "args (h ! a) ! i = VInst c" for c
      using below_in_block [OF inst k(3)] va(3) that by metis
  qed (use val flags np in auto)
qed

context word_fold
begin

lemma folded_operand:
  assumes inst: "inst_in block r h a" and p: "opc (h ! a) = p" and v: "\<not> nonimm h (args (h ! a) ! 1)"
    and x: "GetImmediateAsU64 h (args (h ! a) ! 1) = Some x"
    and unit: "\<And>s. sval_ok (word_type is_32_bit) s \<Longrightarrow> g s (imm_sval (Value_imm is_32_bit x)) = s"
  shows "\<exists>h'. ReplaceUsesWith h a (args (h ! a) ! 0) = Some h' \<and> refines block r h h'"
proof -
  have m: "opcode_meta (opc (h ! a)) = Some (word_type is_32_bit, [word_type is_32_bit, word_type is_32_bit])"
    using meta p by simp
  have no: "word_type is_32_bit \<noteq> Type_Opaque" by (simp add: word_type_def)
  obtain y where y: "GetImmediateAsU64 h (args (h ! a) ! 1) = Some y"
    "\<And>D \<rho>. env_before h a D \<rho> \<Longrightarrow> slot_value \<rho> (args (h ! a) ! 1) = imm_sval (Value_imm is_32_bit y)"
    using const_operand [OF inst p _ v] by metis
  have "rv (plain_result (g (arg_values h \<rho> a ! 0) (arg_values h \<rho> a ! 1))) = slot_value \<rho> (args (h ! a) ! 0)"
    if e: "env_before h a D \<rho>" for D \<rho>
    using y(2) [OF e] y(1) x unit [OF arg_type(2) [OF inst m, of 0 D \<rho>, simplified, OF no e]]
      operands(5) [OF inst p, of 0] operands(5) [OF inst p, of 1] by simp
  then show ?thesis
    using fold_operand [OF inst m, of 0 "\<lambda>vs. plain_result (g (vs ! 0) (vs ! 1))"] no p sem not_pseudo by simp
qed

lemma folded_constant:
  assumes inst: "inst_in block r h a" and p: "opc (h ! a) = p"
    and val: "\<And>D \<rho>. env_before h a D \<rho> \<Longrightarrow>
      g (slot_value \<rho> (args (h ! a) ! 0)) (slot_value \<rho> (args (h ! a) ! 1)) = imm_sval (Value_imm is_32_bit n)"
  shows "\<exists>h'. ReplaceUsesWith_imm h a is_32_bit n = Some h' \<and> refines block r h h'"
  unfolding ReplaceUsesWith_imm_eq
proof (rule fold_imm [OF inst _ Value_imm_ok(1)])
  show "pure_sem (opc (h ! a)) = Some (\<lambda>vs. plain_result (g (vs ! 0) (vs ! 1)))" using p sem by simp
  show "GetTypeOf (opc (h ! a)) = Some (word_type is_32_bit)" using p meta by (simp add: GetTypeOf_def)
  show "rv (plain_result (g (arg_values h \<rho> a ! 0) (arg_values h \<rho> a ! 1))) = imm_sval (Value_imm is_32_bit n)"
    if "env_before h a D \<rho>" for D \<rho>
    using val [OF that] operands(5) [OF inst p, of 0] operands(5) [OF inst p, of 1] by simp
qed simp

lemma absorbed:
  assumes inst: "inst_in block r h a" and p: "opc (h ! a) = p" and v: "\<not> nonimm h (args (h ! a) ! 1)"
    and x: "GetImmediateAsU64 h (args (h ! a) ! 1) = Some x"
    and zero: "\<And>s. g s (imm_sval (Value_imm is_32_bit x)) = imm_sval (Value_imm is_32_bit n)"
  shows "\<exists>h'. ReplaceUsesWith_imm h a is_32_bit n = Some h' \<and> refines block r h h'"
proof (rule folded_constant [OF inst p])
  obtain y where y: "GetImmediateAsU64 h (args (h ! a) ! 1) = Some y"
    "\<And>D \<rho>. env_before h a D \<rho> \<Longrightarrow> slot_value \<rho> (args (h ! a) ! 1) = imm_sval (Value_imm is_32_bit y)"
    using const_operand [OF inst p _ v] by metis
  show "g (slot_value \<rho> (args (h ! a) ! 0)) (slot_value \<rho> (args (h ! a) ! 1)) = imm_sval (Value_imm is_32_bit n)"
    if "env_before h a D \<rho>" for D \<rho>
    using y(2) [OF that] y(1) x zero by simp
qed

end

context commutative_fold
begin

lemma is_nested_eq:
  assumes "inst_in block r h c" "opc (h ! a) = p"
  shows "is_nested h a c = Some (opc (h ! c) = p \<and> \<not> nonimm h (args (h ! c) ! 1))"
  using assms operands(2,4) [OF assms(1), of 1] by (simp add: is_nested_def)

lemma folded:
  assumes inst: "inst_in block r h a" and p: "opc (h ! a) = p"
  shows "\<exists>h' c. FoldCommutative h a is_32_bit imm_fn = Some (h', c) \<and> refines block r h h' \<and> (c \<longrightarrow> opc (h' ! a) = p)"
proof -
  note o0 = operands [OF inst p, of 0, simplified] and o1 = operands [OF inst p, of 1, simplified]
  let ?l = "args (h ! a) ! 0" and ?r = "args (h ! a) ! 1"
  have m: "opcode_meta (opc (h ! a)) = Some (word_type is_32_bit, [word_type is_32_bit, word_type is_32_bit])"
    using meta p by simp
  have j: "0 < length [word_type is_32_bit, word_type is_32_bit]" "1 < length [word_type is_32_bit, word_type is_32_bit]" by simp_all
  consider (both) "\<not> nonimm h ?l" "\<not> nonimm h ?r" | (left) "\<not> nonimm h ?l" "nonimm h ?r"
    | (right) "nonimm h ?l" "\<not> nonimm h ?r" | (none) "nonimm h ?l" "nonimm h ?r" by blast
  then show ?thesis
  proof cases
    case both
    obtain x where x: "GetImmediateAsU64 h ?l = Some x"
      "\<And>D \<rho>. env_before h a D \<rho> \<Longrightarrow> slot_value \<rho> ?l = imm_sval (Value_imm is_32_bit x)"
      using const_operand [OF inst p _ both(1)] by metis
    obtain y where y: "GetImmediateAsU64 h ?r = Some y"
      "\<And>D \<rho>. env_before h a D \<rho> \<Longrightarrow> slot_value \<rho> ?r = imm_sval (Value_imm is_32_bit y)"
      using const_operand [OF inst p _ both(2)] by metis
    have "\<exists>h'. ReplaceUsesWith_imm h a is_32_bit (imm_fn x y) = Some h' \<and> refines block r h h'"
      using x(2) y(2) imm by (intro folded_constant [OF inst p]) simp
    then show ?thesis using o0 o1 both x(1) y(1) by (auto simp: FoldCommutative_def)
  next
    case left
    obtain c where c: "chase h ?r = Some (VInst c)" "GetInstRecursive h ?r = Some c" "inst_in block r h c"
      using operand_inst [OF inst m j(2) left(2)] by metis
    note nest = is_nested_eq [OF c(3) p]
    show ?thesis
    proof (cases "opc (h ! c) = p \<and> \<not> nonimm h (args (h ! c) ! 1)")
      case True
      then show ?thesis
        using nested [OF inst p, of 1 0 c] left c o0 o1 nest by (auto simp: FoldCommutative_def)
    next
      case False
      then show ?thesis
        using swapped [OF inst p] left c o0 o1 nest by (auto simp: FoldCommutative_def)
    qed
  next
    case right
    obtain c where c: "chase h ?l = Some (VInst c)" "GetInstRecursive h ?l = Some c" "inst_in block r h c"
      using operand_inst [OF inst m j(1) right(1)] by metis
    note nest = is_nested_eq [OF c(3) p]
    show ?thesis
    proof (cases "opc (h ! c) = p \<and> \<not> nonimm h (args (h ! c) ! 1)")
      case True
      then show ?thesis
        using nested [OF inst p, of 0 1 c] right c o0 o1 nest by (auto simp: FoldCommutative_def)
    next
      case False
      then show ?thesis
        using refines_refl [OF inst] right c o0 o1 nest p by (auto simp: FoldCommutative_def)
    qed
  next
    case none
    then show ?thesis using refines_refl [OF inst] o0 o1 p by (auto simp: FoldCommutative_def)
  qed
qed

text \<open>The rest of the folding function runs on the rewritten instruction.\<close>

lemma folded_then:
  assumes rest: "\<And>h r block. inst_in block r h a \<Longrightarrow> opc (h ! a) = p \<Longrightarrow> \<exists>h'. F h = Some h' \<and> refines block r h h'"
    and inst: "inst_in block r h a" and p: "opc (h ! a) = p"
  shows "\<exists>h'. do { (h1, continue) \<leftarrow> FoldCommutative h a is_32_bit imm_fn; if continue then F h1 else Some h1 } = Some h'
    \<and> refines block r h h'"
proof -
  obtain h1 c where h1: "FoldCommutative h a is_32_bit imm_fn = Some (h1, c)" "refines block r h h1" "c \<longrightarrow> opc (h1 ! a) = p"
    using folded [OF inst p] by blast
  show ?thesis
  proof (cases c)
    case True
    then obtain h' where "F h1 = Some h'" "refines block r h1 h'"
      using rest [OF inst_in_refines [OF inst h1(2)]] h1(3) by blast
    then show ?thesis using h1 True refines_trans by fastforce
  qed (use h1 in simp)
qed

end

lemma ucast_mult_down: "ucast (a * b :: u64) = (ucast a * ucast b :: u32)"
proof -
  have "(of_int (uint (a * b)) :: u32) = of_int (uint a) * of_int (uint b)"
    unfolding uint_word_ariths of_int_mult [symmetric] word_of_int_eq_iff
    by (simp only: take_bit_eq_mod) (simp add: mod_mod_cancel)
  then show ?thesis by simp
qed

lemma ucast_logic_down:
  "ucast (a AND b :: u64) = (ucast a AND ucast b :: u32)" "ucast (a OR b :: u64) = (ucast a OR ucast b :: u32)"
  "ucast (a XOR b :: u64) = (ucast a XOR ucast b :: u32)"
  by (rule bit_word_eqI; simp add: bit_simps; fail)+

lemmas commutative_simps = word_type_def Value_imm_def imm_sval_def ucast_logic_down ucast_mult_down
  pure_sem_def pure_table_def IsAPseudoOperation_def

interpretation and32: commutative_fold "''And32''" True "\<lambda>x y. S32 (as32 x AND as32 y)" "(AND)"
  by unfold_locales (simp_all add: commutative_simps ac_simps)

interpretation and64: commutative_fold "''And64''" False "\<lambda>x y. S64 (as64 x AND as64 y)" "(AND)"
  by unfold_locales (simp_all add: commutative_simps ac_simps)

interpretation eor32: commutative_fold "''Eor32''" True "\<lambda>x y. S32 (as32 x XOR as32 y)" "(XOR)"
  by unfold_locales (simp_all add: commutative_simps ac_simps)

interpretation eor64: commutative_fold "''Eor64''" False "\<lambda>x y. S64 (as64 x XOR as64 y)" "(XOR)"
  by unfold_locales (simp_all add: commutative_simps ac_simps)

interpretation or32: commutative_fold "''Or32''" True "\<lambda>x y. S32 (as32 x OR as32 y)" "(OR)"
  by unfold_locales (simp_all add: commutative_simps ac_simps)

interpretation or64: commutative_fold "''Or64''" False "\<lambda>x y. S64 (as64 x OR as64 y)" "(OR)"
  by unfold_locales (simp_all add: commutative_simps ac_simps)

interpretation mul32: commutative_fold "''Mul32''" True "\<lambda>x y. S32 (as32 x * as32 y)" "(*)"
  by unfold_locales (simp_all add: commutative_simps ac_simps)

interpretation mul64: commutative_fold "''Mul64''" False "\<lambda>x y. S64 (as64 x * as64 y)" "(*)"
  by unfold_locales (simp_all add: commutative_simps ac_simps)

lemma nonimm_tests:
  assumes "IsImmediate h v = Some False"
  shows "IsUnsignedImmediate h v n = Some False" "IsSignedImmediate h v n = Some False"
    "IsZero h v = Some False" "HasAllBitsSet h v = Some False"
  using assms by (simp_all add: IsUnsignedImmediate_def IsSignedImmediate_def IsZero_def HasAllBitsSet_def)

lemma imm_tests:
  assumes "IsImmediate h v = Some True" "GetImmediateAsU64 h v = Some x"
  shows "IsUnsignedImmediate h v n = Some (x = n)" "IsZero h v = Some (x = 0)"
  using assms by (simp_all add: IsUnsignedImmediate_def IsZero_def)

lemma minus_one_casts: "ucast (- 1 :: u64) = (- 1 :: u32)" "scast (- 1 :: u32) = (- 1 :: u64)"
  by (rule bit_word_eqI; simp add: bit_simps; fail)+

lemma all_ones_test:
  assumes "chase h v = Some (Value_imm is_32_bit x)"
  shows "HasAllBitsSet h v = Some (imm_sval (Value_imm is_32_bit x) = imm_sval (Value_imm is_32_bit (- 1)))"
proof (cases is_32_bit)
  case True
  have "(scast (y :: u32) :: u64) = - 1 \<longleftrightarrow> y = - 1" for y
    using fold_words(9) [of y] minus_one_casts by metis
  then show ?thesis
    using assms True by (simp add: Value_imm_def HasAllBitsSet_def IsSignedImmediate_def fold_sign_extend imm_sval_def minus_one_casts)
next
  case False
  then show ?thesis
    using assms by (simp add: Value_imm_def HasAllBitsSet_def IsSignedImmediate_def imm_sval_def)
qed

context commutative_fold
begin

lemma unit_row:
  assumes unit: "\<And>s. sval_ok (word_type is_32_bit) s \<Longrightarrow> g s (imm_sval (Value_imm is_32_bit 0)) = s"
  shows "fold_ok C p (\<lambda>h inst. do {
     (h1, continue) \<leftarrow> FoldCommutative h inst is_32_bit imm_fn;
     if continue
     then do {
       rhs \<leftarrow> GetArg h1 inst 1;
       zero \<leftarrow> IsZero h1 rhs;
       if zero then do { lhs \<leftarrow> GetArg h1 inst 0; ReplaceUsesWith h1 inst lhs } else Some h1 }
     else Some h1 })"
  unfolding fold_ok_def
proof (intro allI impI folded_then)
  fix h a r block assume inst: "inst_in block r h a" and p: "opc (h ! a) = p"
  note o0 = operands [OF inst p, of 0, simplified] and o1 = operands [OF inst p, of 1, simplified]
  show "\<exists>h'. do {
       rhs \<leftarrow> GetArg h a 1;
       zero \<leftarrow> IsZero h rhs;
       if zero then do { lhs \<leftarrow> GetArg h a 0; ReplaceUsesWith h a lhs } else Some h } = Some h' \<and> refines block r h h'"
  proof (cases "nonimm h (args (h ! a) ! 1)")
    case True
    then show ?thesis using nonimm_tests o1 refines_refl [OF inst] by simp
  next
    case False
    then obtain x where x: "GetImmediateAsU64 h (args (h ! a) ! 1) = Some x" using const_operand [OF inst p _ False] by metis
    then show ?thesis
      using imm_tests [OF _ x] False o0 o1 refines_refl [OF inst] folded_operand [OF inst p False x] unit
      by (cases "x = 0") simp_all
  qed
qed auto

lemma unit_zero_row:
  assumes unit: "\<And>s x. sval_ok (word_type is_32_bit) s \<Longrightarrow> T x \<Longrightarrow> g s (imm_sval (Value_imm is_32_bit x)) = s"
    and zero: "\<And>s. g s (imm_sval (Value_imm is_32_bit 0)) = imm_sval (Value_imm is_32_bit 0)"
    and Q: "\<And>h v. IsImmediate h v = Some False \<Longrightarrow> Q h v = Some False"
      "\<And>h v x. chase h v = Some (Value_imm is_32_bit x) \<Longrightarrow> GetImmediateAsU64 h v = Some x \<Longrightarrow> Q h v = Some (T x)"
  shows "fold_ok C p (\<lambda>h inst. do {
     (h1, continue) \<leftarrow> FoldCommutative h inst is_32_bit imm_fn;
     if continue
     then do {
       rhs \<leftarrow> GetArg h1 inst 1;
       zero \<leftarrow> IsZero h1 rhs;
       if zero then ReplaceUsesWith_imm h1 inst is_32_bit 0
       else do {
         one \<leftarrow> Q h1 rhs;
         if one then do { lhs \<leftarrow> GetArg h1 inst 0; ReplaceUsesWith h1 inst lhs } else Some h1 } }
     else Some h1 })"
  unfolding fold_ok_def
proof (intro allI impI folded_then)
  fix h a r block assume inst: "inst_in block r h a" and p: "opc (h ! a) = p"
  note o0 = operands [OF inst p, of 0, simplified] and o1 = operands [OF inst p, of 1, simplified]
  show "\<exists>h'. do {
       rhs \<leftarrow> GetArg h a 1;
       zero \<leftarrow> IsZero h rhs;
       if zero then ReplaceUsesWith_imm h a is_32_bit 0
       else do {
         one \<leftarrow> Q h rhs;
         if one then do { lhs \<leftarrow> GetArg h a 0; ReplaceUsesWith h a lhs } else Some h } } = Some h' \<and> refines block r h h'"
  proof (cases "nonimm h (args (h ! a) ! 1)")
    case True
    then show ?thesis using nonimm_tests Q(1) o1 refines_refl [OF inst] by simp
  next
    case False
    then obtain x where x: "GetImmediateAsU64 h (args (h ! a) ! 1) = Some x" "chase h (args (h ! a) ! 1) = Some (Value_imm is_32_bit x)"
      using const_operand [OF inst p _ False] by metis
    note t = imm_tests [OF _ x(1)] Q(2) [OF x(2,1)]
    consider "x = 0" | "x \<noteq> 0" "T x" | "x \<noteq> 0" "\<not> T x" by blast
    then show ?thesis
      using t False o0 o1 refines_refl [OF inst] folded_operand [OF inst p False x(1)] unit absorbed [OF inst p False x(1)] zero
      by cases simp_all
  qed
qed auto

end

lemma row_Eor: "fold_ok C ''Eor32'' (\<lambda>h inst. FoldEOR h inst True)" "fold_ok C ''Eor64'' (\<lambda>h inst. FoldEOR h inst False)"
  unfolding FoldEOR_def
  by (rule eor32.unit_row eor64.unit_row; simp add: commutative_simps sval_ok_def)+

lemma row_Or: "fold_ok C ''Or32'' (\<lambda>h inst. FoldOR h inst True)" "fold_ok C ''Or64'' (\<lambda>h inst. FoldOR h inst False)"
  unfolding FoldOR_def
  by (rule or32.unit_row or64.unit_row; simp add: commutative_simps sval_ok_def)+

lemma row_And: "fold_ok C ''And32'' (\<lambda>h inst. FoldAND h inst True)" "fold_ok C ''And64'' (\<lambda>h inst. FoldAND h inst False)"
  unfolding FoldAND_def
  by (rule and32.unit_zero_row [OF _ _ nonimm_tests(4) all_ones_test] and64.unit_zero_row [OF _ _ nonimm_tests(4) all_ones_test];
      auto simp: Value_imm_def imm_sval_def word_type_def sval_ok_def minus_one_casts)+

lemma row_Mul: "fold_ok C ''Mul32'' (\<lambda>h inst. FoldMultiply h inst True)" "fold_ok C ''Mul64'' (\<lambda>h inst. FoldMultiply h inst False)"
  unfolding FoldMultiply_def
  by (rule mul32.unit_zero_row [OF _ _ nonimm_tests(1), of "\<lambda>x. x = 1"] mul64.unit_zero_row [OF _ _ nonimm_tests(1), of "\<lambda>x. x = 1"];
      auto simp: Value_imm_def imm_sval_def word_type_def sval_ok_def imm_tests)+

end
