(* ===== verification/Fold_Carry.thy ===== *)
theory Fold_Carry
  imports Constant_Folding
begin

text \<open>
  Subtraction, division and addition with carry in the pass of
  \<^verbatim>\<open>ir/opt/constant_propagation_pass.cpp\<close>, with the two cases in which the source is not
  correct stated as conditions, and what happens to the pseudo-operation that reads a carry when
  the pass replaces it.
\<close>

section \<open>Subtraction and division\<close>

text \<open>A row that holds without a condition holds under any.\<close>

lemma fold_ok_mono: "fold_ok C p F \<Longrightarrow> (\<And>h a. C' h a \<Longrightarrow> C h a) \<Longrightarrow> fold_ok C' p F"
  unfolding fold_ok_def by metis

lemma ucast_of_bool_down: "ucast (of_bool c :: u64) = (of_bool c :: u32)"
  by (cases c) simp_all

lemma all_less_3: "(\<forall>i<Suc (Suc (Suc 0)). P (i::nat)) \<longleftrightarrow> P 0 \<and> P (Suc 0) \<and> P 2"
  by (auto simp: less_Suc_eq numeral_2_eq_2)

lemma row_Sub:
  "fold_ok C ''Sub32'' (\<lambda>h inst. FoldSub h inst True)" "fold_ok C ''Sub64'' (\<lambda>h inst. FoldSub h inst False)"
proof -
  have nr: "\<not> reads h a q" if "inst_in block r h a" "opc (h ! a) = ''Sub32'' \<or> opc (h ! a) = ''Sub64''" "\<not> HasAssociatedPseudoOperation h a"
    for block r h a q
    using no_pseudo_reads [OF that(1,3)] that(2) by (auto simp: IsAPseudoOperation_def)
  show "fold_ok C ''Sub32'' (\<lambda>h inst. FoldSub h inst True)"
    by (rule imm_fold_ok [where G = "\<lambda>h a. \<not> HasAssociatedPseudoOperation h a"
          and g = "\<lambda>w. case w 0 of VU32 x \<Rightarrow> (case w 1 of VU32 y \<Rightarrow> (case w 2 of VU1 c \<Rightarrow> VU32 (x + NOT y + of_bool c)))"])
      (auto simp: row_simps FoldSub_def AddWithCarry_def add_flags_def all_less_3 ucast_add_down ucast_down_bits ucast_of_bool_down simp del: All_less_Suc dest: nr)
  show "fold_ok C ''Sub64'' (\<lambda>h inst. FoldSub h inst False)"
    by (rule imm_fold_ok [where G = "\<lambda>h a. \<not> HasAssociatedPseudoOperation h a"
          and g = "\<lambda>w. case w 0 of VU64 x \<Rightarrow> (case w 1 of VU64 y \<Rightarrow> (case w 2 of VU1 c \<Rightarrow> VU64 (x + NOT y + of_bool c)))"])
      (auto simp: row_simps FoldSub_def AddWithCarry_def add_flags_def all_less_3 simp del: All_less_Suc dest: nr)
qed

text \<open>The condition under which the host's division is defined.\<close>

definition div_overflows :: "heap \<Rightarrow> nat \<Rightarrow> bool" where
  "div_overflows h a \<longleftrightarrow> opc (h ! a) = ''SignedDiv64''
     \<and> GetImmediateAsU64 h (args (h ! a) ! 0) = Some 0x8000000000000000 \<and> GetImmediateAsU64 h (args (h ! a) ! 1) = Some (- 1)"

definition imm_signed :: "bool \<Rightarrow> u64 \<Rightarrow> u64" where
  "imm_signed is_32_bit x = (if is_32_bit then scast (ucast x :: u32) else x)"

locale division_fold = word_fold +
  fixes is_signed :: bool
  assumes by_zero: "g s (imm_sval (Value_imm is_32_bit 0)) = imm_sval (Value_imm is_32_bit 0)"
    and by_one: "sval_ok (word_type is_32_bit) s \<Longrightarrow> g s (imm_sval (Value_imm is_32_bit 1)) = s"
    and quotient: "x = imm_word (Value_imm is_32_bit x) \<Longrightarrow> y = imm_word (Value_imm is_32_bit y) \<Longrightarrow>
      imm_sval (Value_imm is_32_bit y) \<noteq> imm_sval (Value_imm is_32_bit 0) \<Longrightarrow>
      \<not> (is_signed \<and> \<not> is_32_bit \<and> x = 0x8000000000000000 \<and> y = - 1) \<Longrightarrow>
      \<exists>q. (if is_signed then host_sdiv (imm_signed is_32_bit x) (imm_signed is_32_bit y)
           else host_udiv x y) = Some q
        \<and> g (imm_sval (Value_imm is_32_bit x)) (imm_sval (Value_imm is_32_bit y)) = imm_sval (Value_imm is_32_bit q)"
begin

lemma signed_operand:
  assumes "chase h v = Some (Value_imm is_32_bit x)"
  shows "GetImmediateAsS64 h v = Some (imm_signed is_32_bit x)"
  using assms by (auto simp: Value_imm_def imm_signed_def fold_sign_extend split: if_splits)

lemma const_normal:
  assumes "chase h v = Some (Value_imm is_32_bit x)" "GetImmediateAsU64 h v = Some x"
  shows "x = imm_word (Value_imm is_32_bit x)"
  using word_type_imm(1) [OF Value_imm_ok(1) assms(1)] assms(2) by simp

lemma division_row: "fold_ok (\<lambda>h a. \<not> (is_signed \<and> \<not> is_32_bit
      \<and> GetImmediateAsU64 h (args (h ! a) ! 0) = Some 0x8000000000000000 \<and> GetImmediateAsU64 h (args (h ! a) ! 1) = Some (- 1)))
    p (\<lambda>h inst. FoldDivide h inst is_32_bit is_signed)"
  unfolding fold_ok_def
proof (intro allI impI)
  fix block r a and h :: heap
  let ?l = "args (h ! a) ! 0" and ?r = "args (h ! a) ! 1"
  assume inst: "inst_in block r h a" and p: "opc (h ! a) = p"
    and safe: "\<not> (is_signed \<and> \<not> is_32_bit \<and> GetImmediateAsU64 h ?l = Some 0x8000000000000000 \<and> GetImmediateAsU64 h ?r = Some (- 1))"
  note o0 = operands [OF inst p, of 0, simplified] and o1 = operands [OF inst p, of 1, simplified]
  show "\<exists>h'. FoldDivide h a is_32_bit is_signed = Some h' \<and> refines block r h h'"
  proof (cases "nonimm h ?r")
    case True
    then show ?thesis using nonimm_tests [of h ?r] o0 o1 refines_refl [OF inst] by (simp add: FoldDivide_def)
  next
    case False
    then obtain y where y: "GetImmediateAsU64 h ?r = Some y" "chase h ?r = Some (Value_imm is_32_bit y)"
      "\<And>D \<rho>. env_before h a D \<rho> \<Longrightarrow> slot_value \<rho> ?r = imm_sval (Value_imm is_32_bit y)"
      using const_operand [OF inst p _ False] by metis
    have t: "IsUnsignedImmediate h ?r n = Some (y = n)" "IsZero h ?r = Some (y = 0)" for n
      using imm_tests [OF _ y(1)] o1 False by simp_all
    have nz: "imm_sval (Value_imm is_32_bit y) \<noteq> imm_sval (Value_imm is_32_bit 0)" if "y \<noteq> 0"
      using that y by (auto simp: Value_imm_def imm_sval_def split: if_splits)
    consider (zero) "y = 0" | (both) "y \<noteq> 0" "\<not> nonimm h ?l" | (one) "y = 1" "nonimm h ?l" | (keep) "y \<noteq> 0" "y \<noteq> 1" "nonimm h ?l" by auto
    then show ?thesis
    proof cases
      case zero
      then show ?thesis using absorbed [OF inst p False y(1)] by_zero t o1 by (simp add: FoldDivide_def)
    next
      case both
      obtain x where x: "GetImmediateAsU64 h ?l = Some x" "chase h ?l = Some (Value_imm is_32_bit x)"
        "\<And>D \<rho>. env_before h a D \<rho> \<Longrightarrow> slot_value \<rho> ?l = imm_sval (Value_imm is_32_bit x)"
        using const_operand [OF inst p _ both(2)] by metis
      obtain q where q: "(if is_signed then host_sdiv (imm_signed is_32_bit x) (imm_signed is_32_bit y) else host_udiv x y) = Some q"
        "g (imm_sval (Value_imm is_32_bit x)) (imm_sval (Value_imm is_32_bit y)) = imm_sval (Value_imm is_32_bit q)"
        using quotient [OF const_normal [OF x(2,1)] const_normal [OF y(2,1)] nz [OF both(1)]] safe x(1) y(1) by auto
      have "\<exists>h'. ReplaceUsesWith_imm h a is_32_bit q = Some h' \<and> refines block r h h'"
        using x(3) y(3) q(2) by (intro folded_constant [OF inst p]) simp
      then show ?thesis
        using q(1) x(1) y(1) signed_operand [OF x(2)] signed_operand [OF y(2)] both False o0 o1 t
        by (cases is_signed) (simp_all add: FoldDivide_def)
    next
      case one
      then show ?thesis using folded_operand [OF inst p False y(1)] by_one t o0 o1 by (simp add: FoldDivide_def)
    next
      case keep
      then show ?thesis using refines_refl [OF inst] t o0 o1 by (simp add: FoldDivide_def)
    qed
  qed
qed

end

lemma tdiv_one: "tdiv x 1 = x"
  by (simp add: tdiv_def sgn_mult_abs mult.commute [of "sgn x"])

lemma udiv_down: "ucast (ucast (x :: u32) div ucast (y :: u32) :: u64) = x div y"
proof -
  have "unat x div unat y < 2 ^ 32" 
    by (rule le_less_trans [OF div_le_dividend]) (use unsigned_less [of x, where 'a = nat] in simp)
  moreover have "take_bit 64 (unat z) = unat z" for z :: u32
    by (rule take_bit_nat_eq_self) (use unsigned_less [of z, where 'a = nat] in simp)
  ultimately show ?thesis
    by (simp add: word_unat_eq_iff unat_div_distrib unsigned_ucast_eq take_bit_nat_eq_self)
qed

lemma scast_tests: "(scast (x :: u32) :: u64) = 0 \<longleftrightarrow> x = 0" "(scast x :: u64) \<noteq> 0x8000000000000000"
proof -
  have x: "ucast (scast x :: u64) = x" by (rule fold_words(9))
  show z: "(scast x :: u64) = 0 \<longleftrightarrow> x = 0" using x by (metis scast_0 ucast_0)
  have "ucast (0x8000000000000000 :: u64) = (0 :: u32)" by simp
  moreover have "(0x8000000000000000 :: u64) \<noteq> 0" by simp
  ultimately show "(scast x :: u64) \<noteq> 0x8000000000000000" using x z by metis
qed

lemma word_of_int_down: "ucast (word_of_int k :: u64) = (word_of_int k :: u32)"
  by transfer (simp add: min_def)

lemma sint_scast_up: "sint (scast (x :: u32) :: u64) = sint x"
  by transfer (simp add: signed_take_bit_take_bit)

interpretation udiv32: division_fold "''UnsignedDiv32''" True "\<lambda>x y. S32 (udiv_arm (as32 x) (as32 y))" False
  by unfold_locales (auto simp: commutative_simps sval_ok_def udiv_arm_def host_udiv_def imm_word_def udiv_down [symmetric] fold_words)

interpretation udiv64: division_fold "''UnsignedDiv64''" False "\<lambda>x y. S64 (udiv_arm (as64 x) (as64 y))" False
  by unfold_locales (auto simp: commutative_simps sval_ok_def udiv_arm_def host_udiv_def)

interpretation sdiv64: division_fold "''SignedDiv64''" False "\<lambda>x y. S64 (sdiv_arm (as64 x) (as64 y))" True
  by unfold_locales (auto simp: commutative_simps sval_ok_def sdiv_arm_def host_sdiv_def imm_signed_def tdiv_one)

interpretation sdiv32: division_fold "''SignedDiv32''" True "\<lambda>x y. S32 (sdiv_arm (as32 x) (as32 y))" True
  by unfold_locales (auto simp: commutative_simps sval_ok_def sdiv_arm_def host_sdiv_def imm_signed_def tdiv_one word_of_int_down sint_scast_up scast_tests)

section \<open>Addition\<close>

text \<open>
  Merging the constants of two nested additions to zero replaces the outer addition by the
  operand of the inner one, and forgets the carry that goes into the outer one.
\<close>

definition cancels :: "heap \<Rightarrow> ir_value \<Rightarrow> ir_value \<Rightarrow> bool" where
  "cancels h imm v \<longleftrightarrow> (case (GetImmediateAsU64 h imm, chase h v) of
     (Some x, Some (VInst c)) \<Rightarrow>
       (case (GetImmediateAsU64 h (args (h ! c) ! 1), GetU1 h (args (h ! c) ! 2)) of
          (Some y, Some b) \<Rightarrow> x + y + of_bool b = 0 | _ \<Rightarrow> False)
   | _ \<Rightarrow> False)"

definition carry_dropped :: "heap \<Rightarrow> nat \<Rightarrow> bool" where
  "carry_dropped h a \<longleftrightarrow> (cancels h (args (h ! a) ! 1) (args (h ! a) ! 0) \<or> cancels h (args (h ! a) ! 0) (args (h ! a) ! 1))
     \<and> IsZero h (args (h ! a) ! 2) \<noteq> Some True"

lemma chase_reads:
  assumes "chase h2 v = chase h v"
  shows "GetImmediateAsU64 h2 v = GetImmediateAsU64 h v" "GetU1 h2 v = GetU1 h v" "IsZero h2 v = IsZero h v"
  unfolding IsZero_def IsUnsignedImmediate_def GetImmediateAsU64_def GetU1_def IsImmediate_def assms by (rule refl)+

lemma cancels_cong:
  assumes inst: "inst_in block r h a" and ch: "\<And>x. valid_value h x \<Longrightarrow> chase h2 x = chase h x"
    and oth: "\<And>b. b < length h \<Longrightarrow> b \<noteq> a \<Longrightarrow> args (h2 ! b) = args (h ! b)"
    and x: "valid_value h x" and y: "below h r (r a) y"
  shows "cancels h2 x y = cancels h x y"
proof (cases "\<exists>c. chase h y = Some (VInst c)")
  case True
  note k = inst_inD [OF inst]
  obtain c where c: "chase h y = Some (VInst c)" using True by blast
  have rc: "c < length h" "c \<noteq> a" using chase_result [OF k(5) y c] by auto
  have "GetImmediateAsU64 h2 (args (h2 ! c) ! 1) = GetImmediateAsU64 h (args (h ! c) ! 1)" "GetU1 h2 (args (h2 ! c) ! 2) = GetU1 h (args (h ! c) ! 2)"
    unfolding oth [OF rc] using wf_valid_arg(1) [OF k(1) rc(1)] by (auto intro!: chase_reads ch)
  moreover have "chase h2 y = Some (VInst c)" using c ch [OF below_valid [OF y]] by simp
  ultimately show ?thesis
    using c chase_reads(1) [OF ch [OF x]] by (cases "GetImmediateAsU64 h x") (simp_all add: cancels_def)
next
  case False
  then show ?thesis using ch [OF below_valid [OF y]] by (auto simp: cancels_def split: option.splits ir_value.splits)
qed

locale add_fold =
  fixes p :: opcode and is_32_bit :: bool and mk :: "'a::len word \<Rightarrow> sval" and rd :: "sval \<Rightarrow> 'a word"
  assumes meta: "opcode_meta p = Some (word_type is_32_bit, [word_type is_32_bit, word_type is_32_bit, Type_U1])"
    and sem: "pure_sem p = Some (\<lambda>vs. AddWithCarry mk (rd (vs ! 0)) (rd (vs ! 1)) (as1 (vs ! 2)))"
    and not_pseudo: "\<not> IsAPseudoOperation p"
    and rd_mk: "rd (mk x) = x" and mk_rd: "sval_ok (word_type is_32_bit) s \<Longrightarrow> mk (rd s) = s"
    and imm: "mk (rd (imm_sval (Value_imm is_32_bit n))) = imm_sval (Value_imm is_32_bit n)"
    and plus: "rd (imm_sval (Value_imm is_32_bit (m + n))) = rd (imm_sval (Value_imm is_32_bit m)) + rd (imm_sval (Value_imm is_32_bit n))"
    and bool: "rd (imm_sval (Value_imm is_32_bit (of_bool b))) = of_bool b"
begin

abbreviation cst :: "u64 \<Rightarrow> 'a word" where
  "cst n \<equiv> rd (imm_sval (Value_imm is_32_bit n))"

lemma ts:
  assumes "inst_in block r h a" "opc (h ! a) = p"
  shows "opcode_meta (opc (h ! a)) = Some (word_type is_32_bit, [word_type is_32_bit, word_type is_32_bit, Type_U1])"
  using meta assms by simp

lemma add_operands:
  assumes inst: "inst_in block r h a" and p: "opc (h ! a) = p" and i: "i < 3"
  shows "GetArg h a i = Some (args (h ! a) ! i)" "IsImmediate h (args (h ! a) ! i) = Some (\<not> nonimm h (args (h ! a) ! i))"
    "arg_ok h (args (h ! a) ! i) ([word_type is_32_bit, word_type is_32_bit, Type_U1] ! i)"
    "arg_values h \<rho> a ! i = slot_value \<rho> (args (h ! a) ! i)"
    "below h r (r a) (args (h ! a) ! i)" "storable h (args (h ! a) ! i)" "args (h ! a) ! i = VInst c \<Longrightarrow> c \<in> set block"
    "valid_value h (args (h ! a) ! i)"
  using operand_facts [OF inst ts [OF inst p], of i] i by auto

lemma add_length: "inst_in block r h a \<Longrightarrow> opc (h ! a) = p \<Longrightarrow> length (arg_values h \<rho> a) = 3"
  using length_arg_values ts by fastforce

lemma add_const:
  assumes inst: "inst_in block r h a" and p: "opc (h ! a) = p" and i: "i < 2" and n: "\<not> nonimm h (args (h ! a) ! i)"
  obtains x where "GetImmediateAsU64 h (args (h ! a) ! i) = Some x" "IsZero h (args (h ! a) ! i) = Some (x = 0)"
    "\<And>D \<rho>. env_before h a D \<rho> \<Longrightarrow> rd (slot_value \<rho> (args (h ! a) ! i)) = cst x"
proof -
  note k = inst_inD [OF inst] and m = ts [OF inst p]
  have j: "i < length [word_type is_32_bit, word_type is_32_bit, Type_U1]"
    and wt: "[word_type is_32_bit, word_type is_32_bit, Type_U1] ! i = word_type is_32_bit" and i4: "i < 4"
    using i by (auto simp: less_Suc_eq numeral_2_eq_2)
  obtain w where w: "chase h (args (h ! a) ! i) = Some w" "imm_of (word_type is_32_bit) w"
    using imm_arg [OF k(1,4) m j n] wt by (auto simp: word_type_def split: if_splits)
  note ww = word_type_imm [OF w(2,1)]
  show ?thesis
  proof (rule that)
    show "GetImmediateAsU64 h (args (h ! a) ! i) = Some (imm_word w)" by (fact ww(1))
    show "IsZero h (args (h ! a) ! i) = Some (imm_word w = 0)" using imm_tests [OF ww(2,1)] by simp
    show "rd (slot_value \<rho> (args (h ! a) ! i)) = cst (imm_word w)" if "env_before h a D \<rho>" for D \<rho>
      using imm_slot [OF inst i4 that w] ww(3) by metis
  qed
qed

lemma add_carry:
  assumes inst: "inst_in block r h a" and p: "opc (h ! a) = p" and n: "\<not> nonimm h (args (h ! a) ! 2)"
  obtains c where "GetU1 h (args (h ! a) ! 2) = Some c" "IsZero h (args (h ! a) ! 2) = Some (\<not> c)"
    "\<And>D \<rho>. env_before h a D \<rho> \<Longrightarrow> as1 (slot_value \<rho> (args (h ! a) ! 2)) = c"
proof -
  note k = inst_inD [OF inst] and m = ts [OF inst p]
  obtain w where w: "chase h (args (h ! a) ! 2) = Some w" "imm_of Type_U1 w"
    using imm_arg [OF k(1,4) m _ n] by auto
  then obtain c where c: "w = VU1 c" by auto
  show ?thesis
    using that [of c] w c imm_tests [of h "args (h ! a) ! 2" "of_bool c"] imm_slot [OF inst _ _ w] by (simp add: imm_sval_def)
qed

lemma rv_add: "rv (AddWithCarry mk x y c) = mk (x + y + of_bool c)"
  by (simp add: AddWithCarry_def add_flags_def Let_def)

lemma add_value:
  assumes inst: "inst_in block r h a" and p: "opc (h ! a) = p" and e: "env_before h a D \<rho>" "settled h \<rho> a"
  shows "rd (rv (\<rho> a)) = rd (slot_value \<rho> (args (h ! a) ! 0)) + rd (slot_value \<rho> (args (h ! a) ! 1)) + of_bool (as1 (slot_value \<rho> (args (h ! a) ! 2)))"
  using e(2) det_calc [of h a] sem p add_operands(4) [OF inst p, of 0] add_operands(4) [OF inst p, of 1] add_operands(4) [OF inst p, of 2]
  by (simp add: settled_def rv_add rd_mk)

lemma all_constant:
  assumes inst: "inst_in block r h a" and p: "opc (h ! a) = p" and quiet: "\<And>q. \<not> reads h a q"
  shows "\<exists>h'. fold_add_immediates h a is_32_bit = Some h' \<and> refines block r h h'"
proof -
  note k = inst_inD [OF inst] and m = ts [OF inst p]
  have all: "AreAllArgsImmediates h a = Some (\<not> nonimm h (args (h ! a) ! 0) \<and> \<not> nonimm h (args (h ! a) ! 1) \<and> \<not> nonimm h (args (h ! a) ! 2))"
    using AreAllArgsImmediates_eq [OF k(1,4) m] by (simp add: all_less_3)
  show ?thesis
  proof (cases "\<not> nonimm h (args (h ! a) ! 0) \<and> \<not> nonimm h (args (h ! a) ! 1) \<and> \<not> nonimm h (args (h ! a) ! 2)")
    case False
    then show ?thesis using all refines_refl [OF inst] by (auto simp: fold_add_immediates_def)
  next
    case True
    have l: "0 < (2::nat)" "1 < (2::nat)" by simp_all
    obtain x where x: "GetImmediateAsU64 h (args (h ! a) ! 0) = Some x"
      "\<And>D \<rho>. env_before h a D \<rho> \<Longrightarrow> rd (slot_value \<rho> (args (h ! a) ! 0)) = cst x"
      using add_const [OF inst p l(1)] True by metis
    obtain y where y: "GetImmediateAsU64 h (args (h ! a) ! 1) = Some y"
      "\<And>D \<rho>. env_before h a D \<rho> \<Longrightarrow> rd (slot_value \<rho> (args (h ! a) ! 1)) = cst y"
      using add_const [OF inst p l(2)] True by metis
    obtain c where c: "GetU1 h (args (h ! a) ! 2) = Some c"
      "\<And>D \<rho>. env_before h a D \<rho> \<Longrightarrow> as1 (slot_value \<rho> (args (h ! a) ! 2)) = c"
      using add_carry [OF inst p] True by metis
    have "\<exists>h'. ReplaceUsesWith h a (Value_imm is_32_bit (x + y + of_bool c)) = Some h' \<and> refines block r h h'"
    proof (rule fold_imm [OF inst _ Value_imm_ok(1)])
      show "pure_sem (opc (h ! a)) = Some (\<lambda>vs. AddWithCarry mk (rd (vs ! 0)) (rd (vs ! 1)) (as1 (vs ! 2)))" using p sem by simp
      show "GetTypeOf (opc (h ! a)) = Some (word_type is_32_bit)" using p meta by (simp add: GetTypeOf_def)
      show "rv (AddWithCarry mk (rd (arg_values h \<rho> a ! 0)) (rd (arg_values h \<rho> a ! 1)) (as1 (arg_values h \<rho> a ! 2)))
          = imm_sval (Value_imm is_32_bit (x + y + of_bool c))" if e: "env_before h a D \<rho>" for D \<rho>
        using add_operands(4) [OF inst p] x(2) [OF e] y(2) [OF e] c(2) [OF e]
          imm [of "x + y + of_bool c"] plus [of "x + y" "of_bool c"] plus [of x y] bool [of c]
        by (simp add: rv_add)
    qed (use quiet in auto)
    then show ?thesis
      using all True x(1) y(1) c(1) add_operands(1) [OF inst p] by (simp add: fold_add_immediates_def ReplaceUsesWith_imm_eq)
  qed
qed

text \<open>An addition of a constant to an addition of a constant.\<close>

lemma add_nested:
  assumes inst: "inst_in block r h a" and p: "opc (h ! a) = p" and quiet: "\<And>q. \<not> reads h a q"
    and n: "nonimm h (args (h ! a) ! 0)" "\<not> nonimm h (args (h ! a) ! 1)"
    and c: "chase h (args (h ! a) ! 0) = Some (VInst c)" "opc (h ! c) = p" "\<not> nonimm h (args (h ! c) ! 1)" "\<not> nonimm h (args (h ! c) ! 2)"
    and safe: "\<not> carry_dropped h a"
  shows "\<exists>h'. fold_add_constant h a is_32_bit = Some h' \<and> refines block r h h'"
proof -
  note k = inst_inD [OF inst] and m = ts [OF inst p]
  have l: "0 < (2::nat)" "1 < (2::nat)" and l3: "0 < length [word_type is_32_bit, word_type is_32_bit, Type_U1]" by simp_all
  obtain c' where c': "chase h (args (h ! a) ! 0) = Some (VInst c')" "GetInstRecursive h (args (h ! a) ! 0) = Some c'" "inst_in block r h c'" "r c' < r a"
    "\<And>D \<rho>. env_before h a D \<rho> \<Longrightarrow> env_before h c' D \<rho> \<and> settled h \<rho> c' \<and> slot_value \<rho> (args (h ! a) ! 0) = rv (\<rho> c')"
    using operand_inst [OF inst m l3 n(1)] by metis
  then have ic: "inst_in block r h c" "r c < r a" "GetInstRecursive h (args (h ! a) ! 0) = Some c"
    and ev: "\<And>D \<rho>. env_before h a D \<rho> \<Longrightarrow> env_before h c D \<rho> \<and> settled h \<rho> c \<and> slot_value \<rho> (args (h ! a) ! 0) = rv (\<rho> c)"
    using c(1) by auto
  obtain x where x: "GetImmediateAsU64 h (args (h ! a) ! 1) = Some x"
    "\<And>D \<rho>. env_before h a D \<rho> \<Longrightarrow> rd (slot_value \<rho> (args (h ! a) ! 1)) = cst x"
    using add_const [OF inst p l(2) n(2)] by metis
  obtain y where y: "GetImmediateAsU64 h (args (h ! c) ! 1) = Some y"
    "\<And>D \<rho>. env_before h c D \<rho> \<Longrightarrow> rd (slot_value \<rho> (args (h ! c) ! 1)) = cst y"
    using add_const [OF ic(1) c(2) l(2) c(3)] by metis
  obtain b where b: "GetU1 h (args (h ! c) ! 2) = Some b"
    "\<And>D \<rho>. env_before h c D \<rho> \<Longrightarrow> as1 (slot_value \<rho> (args (h ! c) ! 2)) = b"
    using add_carry [OF ic(1) c(2) c(4)] by metis
  let ?u = "args (h ! c) ! 0" and ?n = "x + y + of_bool b"
  note oa = add_operands [OF inst p] and oc = add_operands [OF ic(1) c(2)]
  have nest: "is_nested_add h a c = Some True"
    using oc(1,2) [of 1] oc(1,2) [of 2] c p by (simp add: is_nested_add_def is_nested_def)
  have below: "below h r (r a) ?u" using oc(5) [of 0] ic(2) by (auto intro: below_mono)
  have sum: "rd (slot_value \<rho> (args (h ! a) ! 0)) + rd (slot_value \<rho> (args (h ! a) ! 1)) = rd (slot_value \<rho> ?u) + cst ?n"
    if e: "env_before h a D \<rho>" for D \<rho>
  proof -
    have ec: "env_before h c D \<rho>" "settled h \<rho> c" "slot_value \<rho> (args (h ! a) ! 0) = rv (\<rho> c)" using ev [OF e] by auto
    have "rd (slot_value \<rho> (args (h ! a) ! 0)) = rd (slot_value \<rho> ?u) + cst y + of_bool b"
      unfolding ec(3) add_value [OF ic(1) c(2) ec(1,2)] y(2) [OF ec(1)] b(2) [OF ec(1)] ..
    then show ?thesis using x(2) [OF e] plus [of "x + y" "of_bool b"] plus [of x y] bool [of b] by (simp add: algebra_simps)
  qed
  have sem': "pure_sem (opc (h ! a)) = Some (\<lambda>vs. AddWithCarry mk (rd (vs ! 0)) (rd (vs ! 1)) (as1 (vs ! 2)))" using p sem by simp
  note eval = nest x(1) y(1) b(1) oa(1,2) oc(1) n ic(3)
  show ?thesis
  proof (cases "?n = 0")
    case True
    then have "cancels h (args (h ! a) ! 1) (args (h ! a) ! 0)" using x(1) y(1) b(1) c(1) by (simp add: cancels_def)
    then have "IsZero h (args (h ! a) ! 2) = Some True" using safe by (simp add: carry_dropped_def)
    moreover have "\<not> nonimm h (args (h ! a) ! 2)"
      using calculation oa(2) [of 2] nonimm_tests(3) [of h "args (h ! a) ! 2"] by auto
    ultimately have cz: "as1 (slot_value \<rho> (args (h ! a) ! 2)) = False" if "env_before h a D \<rho>" for D \<rho>
      using add_carry [OF inst p] that by (metis option.inject)
    have "\<exists>h'. ReplaceUsesWith h a ?u = Some h' \<and> refines block r h h'"
    proof (rule fold_value [OF inst sem' below])
      show "storable h ?u" using oc(6) [of 0] by simp
      show "GetType h ?u = GetTypeOf (opc (h ! a))"
        using arg_type(1) [OF ic(1) ts [OF ic(1) c(2)], of 0] m by (simp add: GetTypeOf_def word_type_def)
      show "d \<in> set block" if "?u = VInst d" for d using oc(7) [of 0 d] that by simp
      show "\<not> IsAPseudoOperation (opc (h ! a))" using p not_pseudo by simp
      show "rv (AddWithCarry mk (rd (arg_values h \<rho> a ! 0)) (rd (arg_values h \<rho> a ! 1)) (as1 (arg_values h \<rho> a ! 2))) = slot_value \<rho> ?u"
        if e: "env_before h a D \<rho>" for D \<rho>
      proof -
        have "sval_ok (word_type is_32_bit) (slot_value \<rho> ?u)"
          using arg_type(2) [OF ic(1) ts [OF ic(1) c(2)], of 0 D \<rho>] ev [OF e] by (simp add: word_type_def)
        then show ?thesis
          using sum [OF e] cz [OF e] oa(4) True bool [of False] by (simp add: rv_add mk_rd)
      qed
    qed (use quiet in auto)
    then show ?thesis using eval True by (simp add: fold_add_constant_def)
  next
    case False
    have "\<exists>h1 h2. SetArg h a 0 ?u = Some h1 \<and> SetArg h1 a 1 (Value_imm is_32_bit ?n) = Some h2 \<and> refines block r h h2 \<and> opc (h2 ! a) = opc (h ! a)
      \<and> next_pseudoop (h2 ! a) = next_pseudoop (h ! a)
      \<and> args (h2 ! a) = (args (h ! a))[0 := ?u, 1 := Value_imm is_32_bit ?n] \<and> (\<forall>x. valid_value h x \<longrightarrow> chase h2 x = chase h x)
      \<and> (\<forall>b<length h. b \<noteq> a \<longrightarrow> args (h2 ! b) = args (h ! b))"
    proof (rule set_two_args [OF inst m _ sem' below])
      show "\<not> IsAPseudoOperation (opc (h ! a))" using p not_pseudo by simp
      show "storable h ?u" "arg_ok h ?u (word_type is_32_bit)" using oc(3,6) [of 0] by simp_all
      show "d \<in> set block" if "?u = VInst d" for d using oc(7) [of 0 d] that by simp
      show "same_result h a (AddWithCarry mk (rd ((arg_values h \<rho> a)[0 := slot_value \<rho> ?u, 1 := slot_value \<rho> (Value_imm is_32_bit ?n)] ! 0))
          (rd ((arg_values h \<rho> a)[0 := slot_value \<rho> ?u, 1 := slot_value \<rho> (Value_imm is_32_bit ?n)] ! 1))
          (as1 ((arg_values h \<rho> a)[0 := slot_value \<rho> ?u, 1 := slot_value \<rho> (Value_imm is_32_bit ?n)] ! 2)))
        (AddWithCarry mk (rd (arg_values h \<rho> a ! 0)) (rd (arg_values h \<rho> a ! 1)) (as1 (arg_values h \<rho> a ! 2)))"
        if e: "env_before h a D \<rho>" for D \<rho>
        using sum [OF e] oa(4) add_length [OF inst p] quiet Value_imm_ok(5) [of is_32_bit ?n] by (simp add: same_result_def rv_add)
    qed (use Value_imm_ok in auto)
    then show ?thesis using eval False by (auto simp: fold_add_constant_def)
  qed
qed

lemma add_normal:
  assumes inst: "inst_in block r h a" and p: "opc (h ! a) = p" and n: "nonimm h (args (h ! a) ! 0) \<or> \<not> nonimm h (args (h ! a) ! 1)"
    and safe: "\<not> carry_dropped h a"
  shows "\<exists>h'. FoldAdd h a is_32_bit = Some h' \<and> refines block r h h'"
proof -
  note m = ts [OF inst p] and oa = add_operands [OF inst p] and q = calc_opcode [OF sem]
  have l: "0 < (2::nat)" "1 < (2::nat)" and l3: "0 < length [word_type is_32_bit, word_type is_32_bit, Type_U1]" by simp_all
  have step: "FoldAdd h a is_32_bit = (if HasAssociatedPseudoOperation h a then Some h else fold_add_constant h a is_32_bit)"
    using n oa(1,2) by (subst FoldAdd.simps) auto
  show ?thesis
  proof (cases "HasAssociatedPseudoOperation h a")
    case True
    then show ?thesis using step refines_refl [OF inst] by simp
  next
    case False
    have quiet: "\<not> reads h a q" for q using no_pseudo_reads [OF inst False] p not_pseudo q by simp
    note imms = all_constant [OF inst p quiet]
    show ?thesis
    proof (cases "nonimm h (args (h ! a) ! 0) \<and> \<not> nonimm h (args (h ! a) ! 1)")
      case False
      then show ?thesis using step imms \<open>\<not> HasAssociatedPseudoOperation h a\<close> oa(1,2) by (auto simp: fold_add_constant_def)
    next
      case True
      obtain c where c: "chase h (args (h ! a) ! 0) = Some (VInst c)" "GetInstRecursive h (args (h ! a) ! 0) = Some c" "inst_in block r h c"
        using operand_inst [OF inst m l3] True by metis
      have nest: "is_nested_add h a c = Some (opc (h ! c) = p \<and> \<not> nonimm h (args (h ! c) ! 1) \<and> \<not> nonimm h (args (h ! c) ! 2))"
        using add_operands(1,2) [OF c(3), where i = 1] add_operands(1,2) [OF c(3), where i = 2] p by (simp add: is_nested_add_def is_nested_def)
      show ?thesis
      proof (cases "opc (h ! c) = p \<and> \<not> nonimm h (args (h ! c) ! 1) \<and> \<not> nonimm h (args (h ! c) ! 2)")
        case True
        then show ?thesis
          using step False add_nested [OF inst p quiet _ _ c(1)] \<open>nonimm h (args (h ! a) ! 0) \<and> \<not> nonimm h (args (h ! a) ! 1)\<close> safe by simp
      next
        case not_nested: False
        obtain y where y: "IsZero h (args (h ! a) ! 1) = Some (y = 0)" "\<And>D \<rho>. env_before h a D \<rho> \<Longrightarrow> rd (slot_value \<rho> (args (h ! a) ! 1)) = cst y"
          using add_const [OF inst p l(2)] True by metis
        have "\<exists>z. IsZero h (args (h ! a) ! 2) = Some z
          \<and> (z \<longrightarrow> (\<forall>D \<rho>. env_before h a D \<rho> \<longrightarrow> \<not> as1 (slot_value \<rho> (args (h ! a) ! 2))))"
        proof (cases "nonimm h (args (h ! a) ! 2)")
          case True
          then show ?thesis using nonimm_tests(3) [of h "args (h ! a) ! 2"] oa(2) [of 2] by (intro exI [of _ False]) simp
        next
          case False
          then show ?thesis using add_carry [OF inst p False] by metis
        qed
        then obtain z where z: "IsZero h (args (h ! a) ! 2) = Some z"
          "\<And>D \<rho>. z \<Longrightarrow> env_before h a D \<rho> \<Longrightarrow> \<not> as1 (slot_value \<rho> (args (h ! a) ! 2))"
          by blast
        have eq: "fold_add_constant h a is_32_bit = (if y = 0 \<and> z then ReplaceUsesWith h a (args (h ! a) ! 0) else fold_add_immediates h a is_32_bit)"
          using oa(1,2) True c(2) nest not_nested y(1) z(1) by (auto simp: fold_add_constant_def)
        show ?thesis
        proof (cases "y = 0 \<and> z")
          case zero: True
          have "\<exists>h'. ReplaceUsesWith h a (args (h ! a) ! 0) = Some h' \<and> refines block r h h'"
          proof (rule fold_operand [OF inst m])
            show "pure_sem (opc (h ! a)) = Some (\<lambda>vs. AddWithCarry mk (rd (vs ! 0)) (rd (vs ! 1)) (as1 (vs ! 2)))" using p sem by simp
            show "rv (AddWithCarry mk (rd (arg_values h \<rho> a ! 0)) (rd (arg_values h \<rho> a ! 1)) (as1 (arg_values h \<rho> a ! 2))) = slot_value \<rho> (args (h ! a) ! 0)"
              if e: "env_before h a D \<rho>" for D \<rho>
              using oa(4) y(2) [OF e] z(2) [OF _ e] zero bool [of False] arg_type(2) [OF inst m, of 0 D \<rho>] e
              by (simp add: rv_add mk_rd word_type_def)
          qed (use quiet p not_pseudo in \<open>auto simp: word_type_def\<close>)
          then show ?thesis using step False eq zero by simp
        qed (use step False eq imms in auto)
      qed
    qed
  qed
qed

lemma add_row: "fold_ok (\<lambda>h a. \<not> carry_dropped h a) p (\<lambda>h inst. FoldAdd h inst is_32_bit)"
  unfolding fold_ok_def
proof (intro allI impI)
  fix block r a and h :: heap
  assume inst: "inst_in block r h a" and p: "opc (h ! a) = p" and safe: "\<not> carry_dropped h a"
  note m = ts [OF inst p] and oa = add_operands [OF inst p] and k = inst_inD [OF inst]
  let ?l = "args (h ! a) ! 0" and ?r = "args (h ! a) ! 1"
  show "\<exists>h'. FoldAdd h a is_32_bit = Some h' \<and> refines block r h h'"
  proof (cases "nonimm h ?l \<or> \<not> nonimm h ?r")
    case True
    then show ?thesis using add_normal [OF inst p _ safe] by simp
  next
    case False
    have sem': "pure_sem (opc (h ! a)) = Some (\<lambda>vs. AddWithCarry mk (rd (vs ! 0)) (rd (vs ! 1)) (as1 (vs ! 2)))" using p sem by simp
    have "\<exists>h1 h2. SetArg h a 0 ?r = Some h1 \<and> SetArg h1 a 1 ?l = Some h2 \<and> refines block r h h2 \<and> opc (h2 ! a) = opc (h ! a)
      \<and> next_pseudoop (h2 ! a) = next_pseudoop (h ! a)
      \<and> args (h2 ! a) = (args (h ! a))[0 := ?r, 1 := ?l] \<and> (\<forall>x. valid_value h x \<longrightarrow> chase h2 x = chase h x)
      \<and> (\<forall>b<length h. b \<noteq> a \<longrightarrow> args (h2 ! b) = args (h ! b))"
    proof (rule set_two_args [OF inst m _ sem'])
      show "same_result h a (AddWithCarry mk (rd ((arg_values h \<rho> a)[0 := slot_value \<rho> ?r, 1 := slot_value \<rho> ?l] ! 0))
          (rd ((arg_values h \<rho> a)[0 := slot_value \<rho> ?r, 1 := slot_value \<rho> ?l] ! 1))
          (as1 ((arg_values h \<rho> a)[0 := slot_value \<rho> ?r, 1 := slot_value \<rho> ?l] ! 2)))
        (AddWithCarry mk (rd (arg_values h \<rho> a ! 0)) (rd (arg_values h \<rho> a ! 1)) (as1 (arg_values h \<rho> a ! 2)))" for \<rho>
        using oa(4) add_length [OF inst p] by (simp add: AddWithCarry_def add.commute)
    qed (use oa(3,5,6,7) [of 0] oa(3,5,6,7) [of 1] p not_pseudo in auto)
    then obtain h1 h2 where h: "SetArg h a 0 ?r = Some h1" "SetArg h1 a 1 ?l = Some h2" "refines block r h h2" "opc (h2 ! a) = p"
      and ar: "args (h2 ! a) = (args (h ! a))[0 := ?r, 1 := ?l]" and ch: "\<And>x. valid_value h x \<Longrightarrow> chase h2 x = chase h x"
      and oth: "\<And>b. b < length h \<Longrightarrow> b \<noteq> a \<Longrightarrow> args (h2 ! b) = args (h ! b)"
      using p by auto
    have inst2: "inst_in block r h2 a" by (rule inst_in_refines [OF inst h(3)])
    have at: "args (h2 ! a) ! 0 = ?r" "args (h2 ! a) ! 1 = ?l" "args (h2 ! a) ! 2 = args (h ! a) ! 2" using ar k(6) by simp_all
    have n2: "nonimm h2 (args (h2 ! a) ! 0)" using False ch [OF oa(8) [of 1]] by (simp add: at nonimm_alt)
    have keep: "cancels h2 x y = cancels h x y" if "valid_value h x" "below h r (r a) y" for x y
      using cancels_cong [OF inst ch _ that] oth by simp
    have "IsZero h2 (args (h ! a) ! 2) = IsZero h (args (h ! a) ! 2)"
      using chase_reads(3) [OF ch [OF oa(8) [of 2]]] by simp
    then have "\<not> carry_dropped h2 a"
      using safe keep oa(5,8) [of 0] oa(5,8) [of 1] unfolding carry_dropped_def at by auto
    then obtain h' where "FoldAdd h2 a is_32_bit = Some h'" "refines block r h2 h'"
      using add_normal [OF inst2 h(4)] n2 by blast
    then show ?thesis using h False oa(1,2) refines_trans by (subst FoldAdd.simps) fastforce
  qed
qed

end

interpretation add32: add_fold "''Add32''" True S32 as32
  by unfold_locales (simp_all add: commutative_simps sval_ok_def ucast_add_down ucast_of_bool_down)

interpretation add64: add_fold "''Add64''" False S64 as64
  by unfold_locales (simp_all add: commutative_simps sval_ok_def)

section \<open>Shifts and the carry they produce\<close>

text \<open>The pseudo-operations that read a part of an instruction's result.\<close>

definition reader :: "heap \<Rightarrow> nat \<Rightarrow> nat \<Rightarrow> bool" where
  "reader h a b \<longleftrightarrow> reads_parent (opc (h ! b)) \<and> args (h ! b) ! 0 = VInst a"

text \<open>Only the carry of the instruction is read, and only once; or it is not read at all.\<close>

definition single_carry :: "heap \<Rightarrow> nat \<Rightarrow> bool" where
  "single_carry h a \<longleftrightarrow> list_all (\<lambda>b. list_all (\<lambda>c. reader h a b \<and> reader h a c \<longrightarrow>
     opc (h ! b) = ''GetCarryFromOp'' \<and> b = c) [0..<length h]) [0..<length h]"

definition no_carry :: "heap \<Rightarrow> nat \<Rightarrow> bool" where
  "no_carry h a \<longleftrightarrow> list_all (\<lambda>b. \<not> (reader h a b \<and> opc (h ! b) = ''GetCarryFromOp'')) [0..<length h]"

lemma single_carryD:
  assumes "single_carry h a"
  shows "reads h a q \<Longrightarrow> q = ''GetCarryFromOp''" "b < length h \<Longrightarrow> c < length h \<Longrightarrow> reader h a b \<Longrightarrow> reader h a c \<Longrightarrow> b = c"
  using assms by (auto simp: single_carry_def list_all_iff reads_def reader_def)

lemma no_carryD: "no_carry h a \<Longrightarrow> \<not> reads h a ''GetCarryFromOp''"
  by (auto simp: no_carry_def list_all_iff reads_def reader_def)

lemma reads_reader: "reads h a q \<longleftrightarrow> (\<exists>b<length h. reader h a b \<and> opc (h ! b) = q)"
  by (auto simp: reads_def reader_def)

lemma carry_lookup:
  assumes inst: "inst_in block r h a" and "\<not> IsAPseudoOperation (opc (h ! a))" "opc (h ! a) \<noteq> ''Identity''" "opc (h ! a) \<noteq> ''Void''"
  obtains (none) "GetAssociatedPseudoOperation h a ''GetCarryFromOp'' = Some None" "\<not> reads h a ''GetCarryFromOp''"
  | (some) c where "GetAssociatedPseudoOperation h a ''GetCarryFromOp'' = Some (Some c)" "observes h a c" "opc (h ! c) = ''GetCarryFromOp''"
proof -
  note k = inst_inD [OF inst]
  have "chain_ok h a" using k assms(2-4) by (simp add: wf_heap_def chained_def)
  then obtain L where L: "pchain h (next_pseudoop (h ! a)) L" "distinct L" "set L = Collect (observes h a)"
    by (auto simp: chain_ok_def)
  have "length L \<le> length h" using pchain_length [OF L(1,2)] by simp
  then have f: "GetAssociatedPseudoOperation h a ''GetCarryFromOp'' = Some (find (\<lambda>c. opc (h ! c) = ''GetCarryFromOp'') L)"
    unfolding GetAssociatedPseudoOperation_def using L(3) by (intro find_pseudo_pchain [OF L(1)]) (auto simp: observes_def)
  show ?thesis
  proof (cases "find (\<lambda>c. opc (h ! c) = ''GetCarryFromOp'') L")
    case None
    then have "\<not> reads h a ''GetCarryFromOp''"
      using L(3) by (auto simp: find_None_iff reads_def observes_def)
    with None f none show ?thesis by simp
  next
    case (Some c)
    then have "c \<in> set L" "opc (h ! c) = ''GetCarryFromOp''" by (auto simp: find_Some_iff)
    with Some f L(3) some show ?thesis by auto
  qed
qed

lemma refines_outside:
  assumes "wf_heap h r" "ordered block h r" "wf_heap h' r" "length h' = length h" "a \<notin> set block"
    and same: "\<And>b. b < length h \<Longrightarrow> b \<noteq> a \<Longrightarrow> opc (h' ! b) = opc (h ! b) \<and> args (h' ! b) = args (h ! b)"
  shows "refines block r h h'"
proof -
  have inb: "b < length h" "b \<noteq> a" if "b \<in> set block" for b using assms(2,5) that unfolding ordered_def by auto
  have ord: "ordered block h' r"
    using assms(2,4) same inb unfolding ordered_def closed_under_args_def by metis
  have "snd (run (trace_exec orc) h block (\<rho>, s)) = snd (run (trace_exec orc) h' (filter (\<lambda>b. b \<notin> {}) block) (\<rho>, s))" for orc \<rho> s
  proof (rule trace.run_sim [OF assms(1), where pre = "[]" and X = "{}"])
    show "ordered ([] @ block) h r" using assms(2) by simp
    show "length h' = length h" by (rule assms(4))
    show "length (args (h' ! b)) = 4" if "b < length h" for b
      using assms(3,4) that ranked_length [of h' r b] by (simp add: wf_heap_def)
    show "same_effect h h' \<rho>' b" if "b \<in> set block" "b \<notin> {}" "env_before h b D \<rho>'" for b D \<rho>'
      using same [OF inb [OF that(1)]] by (auto intro: same_effect_refl)
  qed (simp_all add: env_rel_def)
  then show ?thesis using ord assms(3) by (simp add: refines_def)
qed

text \<open>The pseudo-operation that reads the carry is replaced by the carry's value.\<close>

lemma replace_carry:
  assumes inst: "inst_in block r h a" and sem: "pure_sem (opc (h ! a)) = Some f" and np: "\<not> IsAPseudoOperation (opc (h ! a))"
    and c: "observes h a c" "opc (h ! c) = ''GetCarryFromOp''"
    and v: "below h r (r a) v" "storable h v" "GetType h v = Some Type_U1" "\<And>x. v = VInst x \<Longrightarrow> x \<in> set block"
    and val: "\<And>D \<rho>. env_before h a D \<rho> \<Longrightarrow> slot_value \<rho> v = S1 (as1 (pseudo (f (arg_values h \<rho> a)) ''GetCarryFromOp''))"
  shows "\<exists>h'. ReplaceUsesWith h c v = Some h' \<and> refines block r h h' \<and> replaced h c v h'"
proof -
  note k = inst_inD [OF inst] and p = calc_opcode [OF sem]
  have cl: "c < length h" and c0: "args (h ! c) ! 0 = VInst a" using c(1) by (auto simp: observes_def)
  have mem: "VInst a \<in> set (args (h ! c))" using c0 ranked_length [OF k(5) cl] nth_mem [of 0 "args (h ! c)"] by simp
  have rc: "r a < r c" using ranked_arg [OF k(5) cl, of 0] c0 by simp
  have bv: "below h r (r c) v" using v(1) rc by (auto intro: below_mono)
  have ni: "nonimm h (args (h ! c) ! 0)" using c0 p(1) by simp
  have ty: "GetTypeOf (opc (h ! c)) = Some Type_U1" by (simp add: c(2) GetTypeOf_def)
  show ?thesis
  proof (cases "c \<in> set block")
    case True
    show ?thesis
    proof (rule fold_det)
      show "inst_in block r h c" using inst True by (simp add: inst_in_def)
      show "\<exists>x. det_result h \<rho> c = Some x \<and> rv x = slot_value \<rho> v \<and> (\<forall>q. reads h c q \<longrightarrow> pseudo x q = pseudo (plain_result (rv x)) q)"
        if e: "env_before h c D \<rho>" for D \<rho>
      proof -
        have aD: "a \<in> D" and ea: "env_before h a D \<rho>" and st: "settled h \<rho> a"
          using e mem by (auto simp: env_before_def closed_under_args_def)
        have "\<rho> a = f (arg_values h \<rho> a)" using st det_calc [of h a f \<rho>, OF sem] by (simp add: settled_def)
        then show ?thesis
          using val [OF ea] c0 c(2) by (simp add: det_result_def Let_def reads_parent_def coerce_pseudo_def)
      qed
    qed (use bv v ty ni c(2) in auto)
  next
    case False
    have "GetType h v = GetType h (VInst c)" using v(3) ty c(2) by (simp add: GetType_def)
    then obtain h' where h': "ReplaceUsesWith h c v = Some h'" "replaced h c v h'" "wf_heap h' r"
      using ReplaceUsesWith_wf [OF k(1) cl bv _ _ v(2)] ni c(2) by (metis IsAPseudoOperation_simps(1,2,3))
    have "refines block r h h'"
      using h'(2) by (intro refines_outside [OF k(1,2) h'(3) _ False]) (auto simp: replaced_def)
    with h' show ?thesis by blast
  qed
qed

text \<open>After that nobody reads the carry.\<close>

lemma carry_replaced:
  assumes "single_carry h a" "observes h a c" "opc (h ! c) = ''GetCarryFromOp''" "replaced h c v h'" "a \<noteq> c" "a < length h"
  shows "\<not> reads h' a q" "opc (h' ! a) = opc (h ! a)" "args (h' ! a) = args (h ! a)"
proof -
  have rep: "length h' = length h" "\<And>x. x < length h \<Longrightarrow> opc (h' ! x) = (if x = c then ''Identity'' else opc (h ! x))"
    "\<And>x. x < length h \<Longrightarrow> args (h' ! x) = (if x = c then [v, VEmpty, VEmpty, VEmpty] else args (h ! x))"
    using assms(4) by (auto simp: replaced_def)
  show "opc (h' ! a) = opc (h ! a)" "args (h' ! a) = args (h ! a)" using rep assms(5,6) by auto
  have rc: "c < length h" "reader h a c" using assms(2,3) by (auto simp: observes_def reader_def reads_parent_def)
  show "\<not> reads h' a q"
  proof
    assume "reads h' a q"
    then obtain b where b: "b < length h" "reader h' a b" using rep(1) by (auto simp: reads_reader)
    then have "b \<noteq> c" using rep(2) [OF rc(1)] by (auto simp: reader_def reads_parent_def)
    then have "reader h a b" using b rep by (simp add: reader_def)
    then show False using single_carryD(2) [OF assms(1) b(1) rc(1) _ rc(2)] \<open>b \<noteq> c\<close> by simp
  qed
qed

end
