(* ===== verification/Fold_Shifts.thy ===== *)
theory Fold_Shifts
  imports Fold_Carry
begin

text \<open>
  The shifts: \<open>FoldShifts\<close> and its callers, as two locales for the 32-bit shifts, which
  take and produce a carry, and the 64-bit shifts, which do not, interpreted on the eight shift
  opcodes; and \<open>FoldMostSignificantWord\<close>, which produces a carry as well.
\<close>

lemma set_carry_in:
  assumes inst: "inst_in block r h a" and m: "opcode_meta (opc (h ! a)) = Some (t, [t0, t1, Type_U1])"
    and np: "\<not> IsAPseudoOperation (opc (h ! a))" and sem: "pure_sem (opc (h ! a)) = Some f"
    and eff: "\<And>D \<rho>. env_before h a D \<rho> \<Longrightarrow> same_result h a (f ((arg_values h \<rho> a)[2 := S1 False])) (f (arg_values h \<rho> a))"
  obtains h1 where "SetArg h a 2 (VU1 False) = Some h1" "refines block r h h1" "inst_in block r h1 a" "opc (h1 ! a) = opc (h ! a)"
    "\<And>q. reads h1 a q \<Longrightarrow> reads h a q"
proof -
  note k = inst_inD [OF inst]
  have "\<exists>h1. SetArg h a 2 (VU1 False) = Some h1 \<and> refines block r h h1 \<and> arg_written h a 2 (VU1 False) h1
    \<and> (\<forall>x. next_pseudoop (h1 ! x) = next_pseudoop (h ! x)) \<and> (\<forall>x. valid_value h x \<longrightarrow> chase h1 x = chase h x)"
    by (rule set_one_arg [OF inst m _ np sem]) (use eff in \<open>auto simp: arg_ok_def GetType_def AreTypesCompatible_def below_def imm_sval_def\<close>)
  then obtain h1 where h1: "SetArg h a 2 (VU1 False) = Some h1" "refines block r h h1" "arg_written h a 2 (VU1 False) h1"
    "\<And>x. valid_value h x \<Longrightarrow> chase h1 x = chase h x" by blast
  have inst1: "inst_in block r h1 a" by (rule inst_in_refines [OF inst h1(2)])
  have w: "length h1 = length h" "\<And>x. x < length h \<Longrightarrow> opc (h1 ! x) = opc (h ! x)"
    "\<And>x. x < length h \<Longrightarrow> args (h1 ! x) = (if x = a then (args (h ! a))[2 := VU1 False] else args (h ! x))"
    using h1(3) by (auto simp: arg_written_def)
  have "reads h a q" if "reads h1 a q" for q
    by (rule reads_mono [OF inst_inD(5) [OF inst1] w(1) that k(4)]) (use w in auto)
  then show ?thesis using that [of h1] h1 inst1 w k(4) by auto
qed

lemma byte_word_byte: "ucast (ucast (y :: u8) :: u64) = y"
  by (rule bit_word_eqI) (simp add: bit_simps)

lemma byte_operand:
  assumes inst: "inst_in block r h a" and m: "opcode_meta (opc (h ! a)) = Some (t, t0 # Type_U8 # ts)"
  obtains (variable) "nonimm h (args (h ! a) ! 1)" "IsZero h (args (h ! a) ! 1) = Some False" "IsImmediate h (args (h ! a) ! 1) = Some False"
  | (amount) y where "chase h (args (h ! a) ! 1) = Some (VU8 y)" "IsZero h (args (h ! a) ! 1) = Some (y = 0)" "IsImmediate h (args (h ! a) ! 1) = Some True"
      "\<And>D \<rho>. env_before h a D \<rho> \<Longrightarrow> as8 (arg_values h \<rho> a ! 1) = y"
proof -
  have j: "1 < length (t0 # Type_U8 # ts)" by simp
  note o1 = operand_facts [OF inst m j] and k = inst_inD [OF inst]
  show ?thesis
  proof (cases "nonimm h (args (h ! a) ! 1)")
    case True
    then show ?thesis using variable o1(4) nonimm_tests(3) [of h "args (h ! a) ! 1"] by simp
  next
    case False
    obtain w where w: "chase h (args (h ! a) ! 1) = Some w" "imm_of Type_U8 w"
      using imm_arg [OF k(1,4) m j False] by auto
    then obtain y where y: "w = VU8 y" by auto
    have "IsZero h (args (h ! a) ! 1) = Some ((ucast y :: u64) = 0)"
      using w y imm_tests(2) [of h "args (h ! a) ! 1"] by simp
    moreover have "(ucast y :: u64) = 0 \<longleftrightarrow> y = 0" using byte_word_byte [of y] by auto
    moreover have "as8 (arg_values h \<rho> a ! 1) = y" if "env_before h a D \<rho>" for D \<rho>
      using o1(5) imm_slot [OF inst o1(1) that w] y by (simp add: imm_sval_def)
    ultimately show ?thesis using amount [of y] w y by simp
  qed
qed

text \<open>A 32-bit shift by an amount in a byte, with its carry.\<close>

locale shift32_fold =
  fixes p :: opcode and sh :: "u32 \<Rightarrow> nat \<Rightarrow> u32" and cf :: "u32 \<Rightarrow> nat \<Rightarrow> bool" and fn :: "u32 \<Rightarrow> u8 \<Rightarrow> u32"
  assumes meta: "opcode_meta p = Some (Type_U32, [Type_U32, Type_U8, Type_U1])"
    and sem: "pure_sem p = Some (\<lambda>vs. carry_result (S32 (sh (as32 (vs ! 0)) (unat (as8 (vs ! 1)))))
      (shift_carry (unat (as8 (vs ! 1))) (as1 (vs ! 2)) (cf (as32 (vs ! 0)) (unat (as8 (vs ! 1))))))"
    and not_pseudo: "\<not> IsAPseudoOperation p"
    and by_zero: "sh x 0 = x" and folds: "fn x y = sh x (unat y)"
begin

abbreviation res :: "sval list \<Rightarrow> result" where
  "res vs \<equiv> carry_result (S32 (sh (as32 (vs ! 0)) (unat (as8 (vs ! 1)))))
      (shift_carry (unat (as8 (vs ! 1))) (as1 (vs ! 2)) (cf (as32 (vs ! 0)) (unat (as8 (vs ! 1)))))"

lemma shift_by_zero:
  assumes inst: "inst_in block r h a" and p: "opc (h ! a) = p" and quiet: "\<And>q. \<not> reads h a q"
    and y: "\<And>D \<rho>. env_before h a D \<rho> \<Longrightarrow> as8 (arg_values h \<rho> a ! 1) = 0"
  shows "\<exists>h'. ReplaceUsesWith h a (args (h ! a) ! 0) = Some h' \<and> refines block r h h'"
proof -
  have m: "opcode_meta (opc (h ! a)) = Some (Type_U32, [Type_U32, Type_U8, Type_U1])" using meta p by simp
  show ?thesis
  proof (rule fold_operand [OF inst m])
    show "pure_sem (opc (h ! a)) = Some res" using p sem by simp
    show "rv (res (arg_values h \<rho> a)) = slot_value \<rho> (args (h ! a) ! 0)" if e: "env_before h a D \<rho>" for D \<rho>
      using y [OF e] operand_facts(5) [OF inst m, of 0] arg_type(2) [OF inst m, of 0 D \<rho>] e by_zero by (simp add: sval_ok_def)
  qed (use quiet p not_pseudo in auto)
qed

lemma shift_unread:
  assumes inst: "inst_in block r h a" and p: "opc (h ! a) = p" and single: "single_carry h a"
    and none: "GetAssociatedPseudoOperation h a ''GetCarryFromOp'' = Some None" "\<not> reads h a ''GetCarryFromOp''"
  shows "\<exists>h' b. FoldShifts h a = Some (h', b) \<and> refines block r h h'
    \<and> (b \<longrightarrow> opc (h' ! a) = p \<and> (\<forall>q. \<not> reads h' a q) \<and> AreAllArgsImmediates h' a = Some True)"
proof -
  have m: "opcode_meta (opc (h ! a)) = Some (Type_U32, [Type_U32, Type_U8, Type_U1])" using meta p by simp
  have np: "\<not> IsAPseudoOperation (opc (h ! a))" and sem': "pure_sem (opc (h ! a)) = Some res" using not_pseudo sem p by simp_all
  have len: "length (arg_values h \<rho> a) = 3" for \<rho> using length_arg_values [OF inst m] by simp
  have n: "NumArgs h a = Some 3" using m by (simp add: NumArgs_def GetNumArgsOf_def)
  have quiet: "\<not> reads h a q" for q using single_carryD(1) [OF single] none(2) by metis
  have indep: "same_result h a (res ((arg_values h \<rho> a)[2 := S1 False])) (res (arg_values h \<rho> a))" for \<rho>
    using len quiet by (simp add: same_result_def)
  obtain h1 where h1: "SetArg h a 2 (VU1 False) = Some h1" "refines block r h h1" "inst_in block r h1 a" "opc (h1 ! a) = opc (h ! a)"
    "\<And>q. reads h1 a q \<Longrightarrow> reads h a q" by (rule set_carry_in [OF inst m np sem' indep]) blast
  have q1: "\<not> reads h1 a q" for q using h1(5) quiet by blast
  have p1: "opc (h1 ! a) = p" using h1(4) p by simp
  have m1: "opcode_meta (opc (h1 ! a)) = Some (Type_U32, [Type_U32, Type_U8, Type_U1])"
    and np1: "\<not> IsAPseudoOperation (opc (h1 ! a))" and sem1: "pure_sem (opc (h1 ! a)) = Some res"
    using p1 meta not_pseudo sem by simp_all
  note o1 = operand_facts [OF h1(3) m1]
  from h1(3) m1 show ?thesis
  proof (cases rule: byte_operand)
    case variable
    have "AreAllArgsImmediates h1 a = Some False"
      using AreAllArgsImmediates_eq [OF inst_inD(1,4) [OF h1(3)] m1] variable(1) by (auto simp: All_less_Suc)
    then show ?thesis using none(1) n h1(1,2) o1(2) [of 1] variable by (auto simp: FoldShifts_def intro: exI [of _ False])
  next
    case (amount y)
    show ?thesis
    proof (cases "y = 0")
      case True
      obtain h' where "ReplaceUsesWith h1 a (args (h1 ! a) ! 0) = Some h'" "refines block r h1 h'"
        using shift_by_zero [OF h1(3) p1 q1] amount(4) True by blast
      then show ?thesis
        using none(1) n h1(1) refines_trans [OF h1(2), of h'] o1(2) [of 0] o1(2) [of 1] amount(2,3) True
        by (auto simp: FoldShifts_def)
    next
      case False
      have indep1: "same_result h1 a (res ((arg_values h1 \<rho> a)[2 := S1 False])) (res (arg_values h1 \<rho> a))" for \<rho>
        using length_arg_values [OF h1(3) m1] q1 by (simp add: same_result_def)
      obtain h2 where h2: "SetArg h1 a 2 (VU1 False) = Some h2" "refines block r h1 h2" "inst_in block r h2 a" "opc (h2 ! a) = opc (h1 ! a)"
        "\<And>q. reads h2 a q \<Longrightarrow> reads h1 a q" by (rule set_carry_in [OF h1(3) m1 np1 sem1 indep1]) blast
      have m2: "opcode_meta (opc (h2 ! a)) = Some (Type_U32, [Type_U32, Type_U8, Type_U1])" using h2(4) m1 by simp
      obtain all where "AreAllArgsImmediates h2 a = Some all"
        using AreAllArgsImmediates_eq [OF inst_inD(1,4) [OF h2(3)] m2] by blast
      then show ?thesis
        using none(1) n h1(1) refines_trans [OF h1(2) h2(2)] o1(2) [of 1] amount(2,3) False h2(1,4,5) p1 q1
        by (auto simp: FoldShifts_def)
    qed
  qed
qed

lemma shift_read:
  assumes inst: "inst_in block r h a" and p: "opc (h ! a) = p" and single: "single_carry h a"
    and some: "GetAssociatedPseudoOperation h a ''GetCarryFromOp'' = Some (Some c)" "observes h a c" "opc (h ! c) = ''GetCarryFromOp''"
  shows "\<exists>h' b. FoldShifts h a = Some (h', b) \<and> refines block r h h'
    \<and> (b \<longrightarrow> opc (h' ! a) = p \<and> (\<forall>q. \<not> reads h' a q) \<and> AreAllArgsImmediates h' a = Some True)"
proof -
  have m: "opcode_meta (opc (h ! a)) = Some (Type_U32, [Type_U32, Type_U8, Type_U1])" using meta p by simp
  have np: "\<not> IsAPseudoOperation (opc (h ! a))" and sem': "pure_sem (opc (h ! a)) = Some res" using not_pseudo sem p by simp_all
  have len: "length (arg_values h \<rho> a) = 3" for \<rho> using length_arg_values [OF inst m] by simp
  have n: "NumArgs h a = Some 3" using m by (simp add: NumArgs_def GetNumArgsOf_def)
  note k = inst_inD [OF inst]
  note o = operand_facts [OF inst m]
  have ac: "a \<noteq> c" using some(2) k(5) ranked_arg [OF k(5), of c 0] by (auto simp: observes_def)
  from inst m show ?thesis
  proof (cases rule: byte_operand)
    case variable
    have "AreAllArgsImmediates h a = Some False"
      using AreAllArgsImmediates_eq [OF k(1,4) m] variable(1) by (auto simp: All_less_Suc)
    then show ?thesis using some(1) n o(2) [of 1] variable refines_refl [OF inst] by (auto simp: FoldShifts_def intro: exI [of _ False])
  next
    case (amount y)
    show ?thesis
    proof (cases "y = 0")
      case True
      have "\<exists>h'. ReplaceUsesWith h c (args (h ! a) ! 2) = Some h' \<and> refines block r h h' \<and> replaced h c (args (h ! a) ! 2) h'"
      proof (rule replace_carry [OF inst sem' np some(2,3)])
        show "GetType h (args (h ! a) ! 2) = Some Type_U1" using arg_type(1) [OF inst m, of 2] by simp
        show "slot_value \<rho> (args (h ! a) ! 2) = S1 (as1 (pseudo (res (arg_values h \<rho> a)) ''GetCarryFromOp''))"
          if e: "env_before h a D \<rho>" for D \<rho>
          using amount(4) [OF e] True o(5) [of 2] arg_type(2) [OF inst m, of 2 D \<rho>] e
          by (simp add: carry_result_def shift_carry_def sval_ok_def)
      qed (use o(6,7,8) [of 2] in auto)
      then obtain h2 where h2: "ReplaceUsesWith h c (args (h ! a) ! 2) = Some h2" "refines block r h h2" "replaced h c (args (h ! a) ! 2) h2" by blast
      note cr = carry_replaced [OF single some(2,3) h2(3) ac k(4)]
      have inst2: "inst_in block r h2 a" by (rule inst_in_refines [OF inst h2(2)])
      have p2: "opc (h2 ! a) = p" using cr(2) p by simp
      have m2: "opcode_meta (opc (h2 ! a)) = Some (Type_U32, [Type_U32, Type_U8, Type_U1])" using p2 meta by simp
      have rc: "r a < r c" using some(2) ranked_arg [OF k(5), of c 0] by (auto simp: observes_def)
      have "chase h2 (args (h ! a) ! 1) = chase h (args (h ! a) ! 1)"
        using h2(3) o(6) [of 1] rc by (intro chase_below_cong [OF k(5), of _ c]) (auto simp: replaced_def intro: below_mono)
      then have "chase h2 (args (h2 ! a) ! 1) = Some (VU8 0)" using amount(1) True cr(3) by simp
      then have "as8 (arg_values h2 \<rho> a ! 1) = 0" if e: "env_before h2 a D \<rho>" for D \<rho>
        using imm_slot [OF inst2 _ e, of 1 "VU8 0" Type_U8] operand_facts(5) [OF inst2 m2, of 1] by (simp add: imm_sval_def)
      then obtain h' where "ReplaceUsesWith h2 a (args (h2 ! a) ! 0) = Some h'" "refines block r h2 h'"
        using shift_by_zero [OF inst2 p2 cr(1)] by blast
      then show ?thesis
        using some(1) n o(2) [of 1] o(2) [of 2] amount(2,3) True h2(1) operand_facts(2) [OF inst2 m2, of 0] refines_trans [OF h2(2), of h']
        by (auto simp: FoldShifts_def)
    next
      case False
      then have "unat y \<noteq> 0" by (simp add: unat_eq_0)
      then have "same_result h a (res ((arg_values h \<rho> a)[2 := S1 False])) (res (arg_values h \<rho> a))" if "env_before h a D \<rho>" for D \<rho>
        using amount(4) [OF that] len by (simp add: same_result_def shift_carry_def)
      then obtain h2 where h2: "SetArg h a 2 (VU1 False) = Some h2" "refines block r h h2" "inst_in block r h2 a" "opc (h2 ! a) = p"
        using set_carry_in [OF inst m np sem'] p by metis
      have m2: "opcode_meta (opc (h2 ! a)) = Some (Type_U32, [Type_U32, Type_U8, Type_U1])" using h2(4) meta by simp
      obtain all where "AreAllArgsImmediates h2 a = Some all"
        using AreAllArgsImmediates_eq [OF inst_inD(1,4) [OF h2(3)] m2] by blast
      then show ?thesis using some(1) n o(2) [of 1] amount False h2 by (auto simp: FoldShifts_def)
    qed
  qed
qed

lemma shift_step:
  assumes inst: "inst_in block r h a" and p: "opc (h ! a) = p" and single: "single_carry h a"
  shows "\<exists>h' b. FoldShifts h a = Some (h', b) \<and> refines block r h h'
    \<and> (b \<longrightarrow> opc (h' ! a) = p \<and> (\<forall>q. \<not> reads h' a q) \<and> AreAllArgsImmediates h' a = Some True)"
proof -
  have "\<not> IsAPseudoOperation (opc (h ! a))" "opc (h ! a) \<noteq> ''Identity''" "opc (h ! a) \<noteq> ''Void''"
    using calc_opcode(1,2) [OF sem] not_pseudo p by simp_all
  from inst this show ?thesis
    by (cases rule: carry_lookup) (fact shift_unread [OF inst p single] shift_read [OF inst p single])+
qed

lemma shift_row: "fold_ok single_carry p (fold_shift32 fn)"
  unfolding fold_ok_def
proof (intro allI impI)
  fix block r a and h :: heap
  assume inst: "inst_in block r h a" and p: "opc (h ! a) = p" and single: "single_carry h a"
  obtain h1 b where h1: "FoldShifts h a = Some (h1, b)" "refines block r h h1"
    "b \<Longrightarrow> opc (h1 ! a) = p" "\<And>q. b \<Longrightarrow> \<not> reads h1 a q" "b \<Longrightarrow> AreAllArgsImmediates h1 a = Some True"
    using shift_step [OF inst p single] by blast
  show "\<exists>h'. fold_shift32 fn h a = Some h' \<and> refines block r h h'"
  proof (cases b)
    case False
    then show ?thesis using h1 by (simp add: fold_shift32_def)
  next
    case True
    have inst1: "inst_in block r h1 a" by (rule inst_in_refines [OF inst h1(2)])
    have m1: "opcode_meta (opc (h1 ! a)) = Some (Type_U32, [Type_U32, Type_U8, Type_U1])" using h1(3) [OF True] meta by simp
    note k = inst_inD [OF inst1] and o = operand_facts [OF inst1 m1]
    have imm: "\<not> nonimm h1 (args (h1 ! a) ! 0)" "\<not> nonimm h1 (args (h1 ! a) ! 1)"
      using AreAllArgsImmediates_eq [OF k(1,4) m1] h1(5) [OF True] by (auto simp: All_less_Suc)
    obtain x where x: "chase h1 (args (h1 ! a) ! 0) = Some (VU32 x)" using imm_arg [OF k(1,4) m1 _ imm(1)] by auto
    have j: "1 < length [Type_U32, Type_U8, Type_U1 :: ir_type]" by simp
    obtain w where "chase h1 (args (h1 ! a) ! 1) = Some w" "imm_of Type_U8 w" using imm_arg [OF k(1,4) m1 j imm(2)] by auto
    then obtain y where y: "chase h1 (args (h1 ! a) ! 1) = Some (VU8 y)" by auto
    have "\<exists>h'. ReplaceUsesWith h1 a (VU32 (fn x y)) = Some h' \<and> refines block r h1 h'"
    proof (rule fold_imm [OF inst1, where t = Type_U32])
      show "pure_sem (opc (h1 ! a)) = Some res" using sem h1(3) [OF True] by simp
      show "GetTypeOf (opc (h1 ! a)) = Some Type_U32" using m1 by (simp add: GetTypeOf_def)
      show "rv (res (arg_values h1 \<rho> a)) = imm_sval (VU32 (fn x y))" if e: "env_before h1 a D \<rho>" for D \<rho>
        using imm_slot [OF inst1 _ e x, of Type_U32] imm_slot [OF inst1 _ e y, of Type_U8] o(5) [of 0] o(5) [of 1]
        by (simp add: imm_sval_def folds)
    qed (use h1(4) [OF True] in auto)
    then obtain h' where "ReplaceUsesWith h1 a (VU32 (fn x y)) = Some h'" "refines block r h1 h'" by blast
    then show ?thesis
      using h1(1,2) True x y o(2) [of 0] o(2) [of 1] refines_trans
      by (auto simp: fold_shift32_def ReplaceUsesWith_imm_def fold_words)
  qed
qed

end

lemma no_carry_lookup:
  assumes inst: "inst_in block r h a" and "\<not> IsAPseudoOperation (opc (h ! a))" "opc (h ! a) \<noteq> ''Identity''" "opc (h ! a) \<noteq> ''Void''"
    and no: "no_carry h a"
  shows "GetAssociatedPseudoOperation h a ''GetCarryFromOp'' = Some None"
  using assms(1-4)
proof (cases rule: carry_lookup)
  case (some c)
  then have "reads h a ''GetCarryFromOp''" by (auto simp: reads_def observes_def reads_parent_def)
  with no_carryD [OF no] show ?thesis by simp
qed

text \<open>A 64-bit shift produces no carry.\<close>

locale shift64_fold =
  fixes p :: opcode and sh :: "u64 \<Rightarrow> nat \<Rightarrow> u64" and fn :: "u64 \<Rightarrow> u8 \<Rightarrow> u64"
  assumes meta: "opcode_meta p = Some (Type_U64, [Type_U64, Type_U8])"
    and sem: "pure_sem p = Some (\<lambda>vs. plain_result (S64 (sh (as64 (vs ! 0)) (unat (as8 (vs ! 1))))))"
    and not_pseudo: "\<not> IsAPseudoOperation p"
    and by_zero: "sh x 0 = x" and folds: "fn x y = sh x (unat y)"
begin

lemma shift_row: "fold_ok no_carry p (fold_shift64 fn)"
  unfolding fold_ok_def
proof (intro allI impI)
  fix block r a and h :: heap
  assume inst: "inst_in block r h a" and p: "opc (h ! a) = p" and no: "no_carry h a"
  have m: "opcode_meta (opc (h ! a)) = Some (Type_U64, [Type_U64, Type_U8])" using meta p by simp
  have sem': "pure_sem (opc (h ! a)) = Some (\<lambda>vs. plain_result (S64 (sh (as64 (vs ! 0)) (unat (as8 (vs ! 1))))))"
    and np: "\<not> IsAPseudoOperation (opc (h ! a))" using sem p not_pseudo by simp_all
  note k = inst_inD [OF inst] and o = operand_facts [OF inst m] and q = calc_opcode [OF sem']
  have n: "NumArgs h a = Some 2" using m by (simp add: NumArgs_def GetNumArgsOf_def)
  have g: "GetAssociatedPseudoOperation h a ''GetCarryFromOp'' = Some None"
    by (rule no_carry_lookup [OF inst np q(1,2) no])
  have all: "AreAllArgsImmediates h a = Some (\<not> nonimm h (args (h ! a) ! 0) \<and> \<not> nonimm h (args (h ! a) ! 1))"
    using AreAllArgsImmediates_eq [OF k(1,4) m] by (simp add: All_less_Suc conj_commute)
  from inst m show "\<exists>h'. fold_shift64 fn h a = Some h' \<and> refines block r h h'"
  proof (cases rule: byte_operand)
    case variable
    then show ?thesis
      using g n all o(2) [of 1] refines_refl [OF inst] by (simp add: fold_shift64_def FoldShifts_def)
  next
    case (amount y)
    consider "y = 0" | "y \<noteq> 0" "nonimm h (args (h ! a) ! 0)" | "y \<noteq> 0" "\<not> nonimm h (args (h ! a) ! 0)" by blast
    then show ?thesis
    proof cases
      case 1
      have "\<exists>h'. ReplaceUsesWith h a (args (h ! a) ! 0) = Some h' \<and> refines block r h h'"
      proof (rule fold_operand [OF inst m _ _ _ sem' np])
        show "rv (plain_result (S64 (sh (as64 (arg_values h \<rho> a ! 0)) (unat (as8 (arg_values h \<rho> a ! 1)))))) = slot_value \<rho> (args (h ! a) ! 0)"
          if e: "env_before h a D \<rho>" for D \<rho>
          using amount(4) [OF e] 1 o(5) [of 0] arg_type(2) [OF inst m, of 0 D \<rho>] e by_zero by (simp add: sval_ok_def)
      qed auto
      then show ?thesis using g n amount 1 o(2) [of 0] o(2) [of 1] by (auto simp: fold_shift64_def FoldShifts_def)
    next
      case 2
      then show ?thesis using g n all amount o(2) [of 1] refines_refl [OF inst] by (simp add: fold_shift64_def FoldShifts_def)
    next
      case 3
      obtain x where x: "chase h (args (h ! a) ! 0) = Some (VU64 x)" using imm_arg [OF k(1,4) m _ 3(2)] by auto
      have "\<exists>h'. ReplaceUsesWith h a (VU64 (fn x y)) = Some h' \<and> refines block r h h'"
      proof (rule fold_imm [OF inst sem', where t = Type_U64])
        show "rv (plain_result (S64 (sh (as64 (arg_values h \<rho> a ! 0)) (unat (as8 (arg_values h \<rho> a ! 1)))))) = imm_sval (VU64 (fn x y))"
          if e: "env_before h a D \<rho>" for D \<rho>
          using amount(4) [OF e] imm_slot [OF inst _ e x, of Type_U64] o(5) [of 0] by (simp add: imm_sval_def folds)
      qed (use m in \<open>auto simp: GetTypeOf_def\<close>)
      moreover have "\<not> nonimm h (args (h ! a) ! 1)" using amount(1) by (simp add: nonimm_alt)
      ultimately show ?thesis
        using g n all amount 3 x o(2) [of 0] o(2) [of 1]
        by (auto simp: fold_shift64_def FoldShifts_def ReplaceUsesWith_imm_def)
    qed
  qed
qed

end

lemma shift_by_byte:
  fixes x :: "'a::len word" and y :: u8
  shows "LogicalShiftLeft x (uint y) = push_bit (unat y) x" "LogicalShiftRight x (uint y) = drop_bit (unat y) x"
    "ArithmeticShiftRight x (uint y) = asr x (unat y)" "rotate_right x (unat y) = word_rotr (unat y) x"
  by (simp_all add: LogicalShiftLeft_nonneg LogicalShiftRight_nonneg ArithmeticShiftRight_nonneg asr_signed_drop_bit rotate_right_eq_rotr)

lemma shift_by_0: "asr (x :: 'a::len word) 0 = x" "word_rotr 0 x = x"
  by (simp_all add: asr_def bit_word_eqI bit_word_rotr_iff)

lemmas shift_simps = pure_sem_def pure_table_def IsAPseudoOperation_def Let_def shift_by_byte shift_by_0

interpretation lsl32: shift32_fold "''LogicalShiftLeft32''" "\<lambda>x n. push_bit n x" lsl32_carry "\<lambda>x y. LogicalShiftLeft x (uint y)"
  by unfold_locales (simp_all add: shift_simps)

interpretation lsr32: shift32_fold "''LogicalShiftRight32''" "\<lambda>x n. drop_bit n x" lsr32_carry "\<lambda>x y. LogicalShiftRight x (uint y)"
  by unfold_locales (simp_all add: shift_simps)

interpretation asr32: shift32_fold "''ArithmeticShiftRight32''" asr asr32_carry "\<lambda>x y. ArithmeticShiftRight x (uint y)"
  by unfold_locales (simp_all add: shift_simps)

interpretation ror32: shift32_fold "''RotateRight32''" "\<lambda>x n. word_rotr n x" "\<lambda>x n. bit (word_rotr n x) 31" "\<lambda>x y. rotate_right x (unat y)"
  by unfold_locales (simp_all add: shift_simps)

interpretation lsl64: shift64_fold "''LogicalShiftLeft64''" "\<lambda>x n. push_bit n x" "\<lambda>x y. LogicalShiftLeft x (uint y)"
  by unfold_locales (simp_all add: shift_simps)

interpretation lsr64: shift64_fold "''LogicalShiftRight64''" "\<lambda>x n. drop_bit n x" "\<lambda>x y. LogicalShiftRight x (uint y)"
  by unfold_locales (simp_all add: shift_simps)

interpretation asr64: shift64_fold "''ArithmeticShiftRight64''" asr "\<lambda>x y. ArithmeticShiftRight x (uint y)"
  by unfold_locales (simp_all add: shift_simps)

interpretation ror64: shift64_fold "''RotateRight64''" "\<lambda>x n. word_rotr n x" "\<lambda>x y. rotate_right x (unat y)"
  by unfold_locales (simp_all add: shift_simps)

lemma row_MostSignificantWord: "fold_ok single_carry ''MostSignificantWord'' FoldMostSignificantWord"
  unfolding fold_ok_def
proof (intro allI impI)
  fix block r a and h :: heap
  let ?f = "\<lambda>vs. carry_result (S32 (ucast (drop_bit 32 (as64 (vs ! 0))))) (bit (as64 (vs ! 0)) 31)"
  assume inst: "inst_in block r h a" and p: "opc (h ! a) = ''MostSignificantWord''" and single: "single_carry h a"
  have m: "opcode_meta (opc (h ! a)) = Some (Type_U32, [Type_U64])" and sem: "pure_sem (opc (h ! a)) = Some ?f"
    and np: "\<not> IsAPseudoOperation (opc (h ! a))" using p by (simp_all add: pure_sem_def pure_table_def IsAPseudoOperation_def)
  note k = inst_inD [OF inst] and o = operand_facts [OF inst m] and q = calc_opcode [OF sem]
  have all: "AreAllArgsImmediates h a = Some (\<not> nonimm h (args (h ! a) ! 0))"
    using AreAllArgsImmediates_eq [OF k(1,4) m] by simp
  have last: "\<exists>h'. ReplaceUsesWith h a (VU32 (ucast (drop_bit 32 x))) = Some h' \<and> refines block r h h'"
    if i: "inst_in block r h a" "opc (h ! a) = ''MostSignificantWord''" "\<And>q. \<not> reads h a q" "chase h (args (h ! a) ! 0) = Some (VU64 x)" for h x
  proof (rule fold_imm [OF i(1), where t = Type_U32])
    have mm: "opcode_meta (opc (h ! a)) = Some (Type_U32, [Type_U64])" using i(2) by simp
    show "pure_sem (opc (h ! a)) = Some ?f" "GetTypeOf (opc (h ! a)) = Some Type_U32"
      using i(2) by (simp_all add: pure_sem_def pure_table_def GetTypeOf_def)
    show "rv (?f (arg_values h \<rho> a)) = imm_sval (VU32 (ucast (drop_bit 32 x)))" if e: "env_before h a D \<rho>" for D \<rho>
      using operand_facts(5) [OF i(1) mm, of 0] imm_slot [OF i(1) _ e i(4), of Type_U64] by (simp add: imm_sval_def)
  qed (use i in auto)
  have lookup: "\<exists>c. GetAssociatedPseudoOperation h a ''GetCarryFromOp'' = Some c"
    using inst np q(1,2) by (cases rule: carry_lookup) auto
  show "\<exists>h'. FoldMostSignificantWord h a = Some h' \<and> refines block r h h'"
  proof (cases "nonimm h (args (h ! a) ! 0)")
    case True
    then show ?thesis
      using all lookup refines_refl [OF inst] by (auto simp: FoldMostSignificantWord_def)
  next
    case False
    obtain x where x: "chase h (args (h ! a) ! 0) = Some (VU64 x)" using imm_arg [OF k(1,4) m _ False] by auto
    from inst np q(1,2) show ?thesis
    proof (cases rule: carry_lookup)
      case none
      then have "\<not> reads h a q" for q using single_carryD(1) [OF single] by metis
      then show ?thesis using last [OF inst p _ x] none(1) all False x o(2) [of 0] by (simp add: FoldMostSignificantWord_def)
    next
      case (some c)
      have rc: "r a < r c" "a \<noteq> c" using some(2) ranked_arg [OF k(5), of c 0] by (auto simp: observes_def)
      have "\<exists>h'. ReplaceUsesWith h c (VU1 (bit x 31)) = Some h' \<and> refines block r h h' \<and> replaced h c (VU1 (bit x 31)) h'"
      proof (rule replace_carry [OF inst sem np some(2,3)])
        show "slot_value \<rho> (VU1 (bit x 31)) = S1 (as1 (pseudo (?f (arg_values h \<rho> a)) ''GetCarryFromOp''))"
          if e: "env_before h a D \<rho>" for D \<rho>
          using o(5) [of 0] imm_slot [OF inst _ e x, of Type_U64] by (simp add: imm_sval_def carry_result_def)
      qed (auto simp: below_def GetType_def)
      then obtain h1 where h1: "ReplaceUsesWith h c (VU1 (bit x 31)) = Some h1" "refines block r h h1" "replaced h c (VU1 (bit x 31)) h1" by blast
      note cr = carry_replaced [OF single some(2,3) h1(3) rc(2) k(4)]
      have "chase h1 (args (h ! a) ! 0) = chase h (args (h ! a) ! 0)"
        using h1(3) o(6) [of 0] rc(1) by (intro chase_below_cong [OF k(5), of _ c]) (auto simp: replaced_def intro: below_mono)
      then obtain h' where "ReplaceUsesWith h1 a (VU32 (ucast (drop_bit 32 x))) = Some h'" "refines block r h1 h'"
        using last [OF inst_in_refines [OF inst h1(2)] _ cr(1)] cr(2,3) p x by auto
      then show ?thesis
        using some(1) all False x o(2) [of 0] h1(1) refines_trans [OF h1(2), of h'] by (simp add: FoldMostSignificantWord_def)
    qed
  qed
qed

end
