(* ===== verification/Fold_Pass.thy ===== *)
theory Fold_Pass
  imports Fold_Shifts
begin

text \<open>
  The whole constant propagation pass: every row of its switch meets the contract of a fold on
  regular instructions, hence the loop over the block preserves what the block does; and a
  block that shows that the condition on additions cannot be dropped.
\<close>

section \<open>The whole pass\<close>

text \<open>
  What the correctness of a fold needs of the instruction beyond a well-formed pool: an addition
  does not lose its carry-in, a signed division does not overflow, and a shift (or
  \<^verbatim>\<open>MostSignificantWord\<close>) has at most the one pseudo-operation that the pass
  looks for, none in the case of the 64-bit shifts, which have no carry operand.
\<close>

definition regular :: "heap \<Rightarrow> nat \<Rightarrow> bool" where
  "regular h a \<longleftrightarrow>
     (opc (h ! a) \<in> set [''Add32'', ''Add64''] \<longrightarrow> \<not> carry_dropped h a)
   \<and> \<not> div_overflows h a
   \<and> (opc (h ! a) \<in> set [''LogicalShiftLeft32'', ''LogicalShiftRight32'', ''ArithmeticShiftRight32'', ''RotateRight32'',
        ''MostSignificantWord''] \<longrightarrow> single_carry h a)
   \<and> (opc (h ! a) \<in> set [''LogicalShiftLeft64'', ''LogicalShiftRight64'', ''ArithmeticShiftRight64'', ''RotateRight64'']
        \<longrightarrow> no_carry h a)"

text \<open>Every instruction is regular when the pass reaches it.\<close>

fun regular_run :: "heap \<Rightarrow> nat list \<Rightarrow> bool" where
  "regular_run h [] = True"
| "regular_run h (a # as) = (regular h a \<and> (case fold_inst h a of None \<Rightarrow> True | Some h1 \<Rightarrow> regular_run h1 as))"

text \<open>A register is read, two constants are added to it, and it is written back.\<close>

definition add_chain :: "u64 \<Rightarrow> u64 \<Rightarrow> bool \<Rightarrow> heap" where
  "add_chain x y c =
    [(new_inst ''A64GetX'')\<lparr>args := [VA64Reg 0, VEmpty, VEmpty, VEmpty], use_count := 1\<rparr>,
     (new_inst ''Add64'')\<lparr>args := [VInst 0, VU64 x, VU1 False, VEmpty], use_count := 1\<rparr>,
     (new_inst ''Add64'')\<lparr>args := [VInst 1, VU64 y, VU1 c, VEmpty], use_count := 1\<rparr>,
     (new_inst ''A64SetX'')\<lparr>args := [VA64Reg 0, VInst 2, VEmpty, VEmpty]\<rparr>]"

text \<open>The block after the pass: the constants combined, or the second addition an alias of the register read.\<close>

definition add_chain_combined :: "u64 \<Rightarrow> heap" where
  "add_chain_combined z =
    [(new_inst ''A64GetX'')\<lparr>args := [VA64Reg 0, VEmpty, VEmpty, VEmpty], use_count := 2\<rparr>,
     (new_inst ''Add64'')\<lparr>args := [VInst 0, VU64 5, VU1 False, VEmpty], use_count := 0\<rparr>,
     (new_inst ''Add64'')\<lparr>args := [VInst 0, VU64 z, VU1 False, VEmpty], use_count := 1\<rparr>,
     (new_inst ''A64SetX'')\<lparr>args := [VA64Reg 0, VInst 2, VEmpty, VEmpty]\<rparr>]"

definition add_chain_aliased :: heap where
  "add_chain_aliased =
    [(new_inst ''A64GetX'')\<lparr>args := [VA64Reg 0, VEmpty, VEmpty, VEmpty], use_count := 2\<rparr>,
     (new_inst ''Add64'')\<lparr>args := [VInst 0, VU64 5, VU1 False, VEmpty], use_count := 0\<rparr>,
     (new_inst ''Identity'')\<lparr>args := [VInst 0, VEmpty, VEmpty, VEmpty], use_count := 1\<rparr>,
     (new_inst ''A64SetX'')\<lparr>args := [VA64Reg 0, VInst 2, VEmpty, VEmpty]\<rparr>]"

lemma regular_row: "fold_ok C p F \<Longrightarrow> (\<And>h a. opc (h ! a) = p \<Longrightarrow> regular h a \<longrightarrow> C h a) \<Longrightarrow> fold_ok regular p F"
  unfolding fold_ok_def by blast

lemmas constant_rows = row_LeastSignificantWord row_LeastSignificantHalf row_LeastSignificantByte row_MostSignificantBit
  row_IsZero32 row_IsZero64 row_SignExtendByteToWord row_ZeroExtendByteToWord row_SignExtendHalfToWord row_ZeroExtendHalfToWord
  row_SignExtendByteToLong row_ZeroExtendByteToLong row_SignExtendHalfToLong row_ZeroExtendHalfToLong row_SignExtendWordToLong
  row_ZeroExtendWordToLong row_Not32 row_Not64 row_ByteReverseWord row_ByteReverseHalf row_ByteReverseDual
  row_LogicalShiftLeftMasked32 row_LogicalShiftRightMasked32 row_ArithmeticShiftRightMasked32 row_RotateRightMasked32
  row_LogicalShiftLeftMasked64 row_LogicalShiftRightMasked64 row_ArithmeticShiftRightMasked64 row_RotateRightMasked64

lemmas operand_rows = row_Sub row_Mul row_And row_Eor row_Or

lemmas guarded_rows = add32.add_row add64.add_row udiv32.division_row udiv64.division_row sdiv32.division_row sdiv64.division_row
  lsl32.shift_row lsr32.shift_row asr32.shift_row ror32.shift_row lsl64.shift_row lsr64.shift_row asr64.shift_row ror64.shift_row
  row_MostSignificantWord

lemma fold_table_ok: "list_all (\<lambda>(p, F). fold_ok regular p F) fold_table"
  unfolding fold_table_def list.pred_inject(2) prod.case
  by (intro conjI list.pred_inject(1))
    ((rule operand_rows | rule regular_row, rule constant_rows guarded_rows, simp add: regular_def div_overflows_def)+)

lemma fold_inst_ok:
  assumes "inst_in block r h a" "regular h a"
  shows "\<exists>h'. fold_inst h a = Some h' \<and> refines block r h h'"
proof (cases "assoc fold_table (opc (h ! a))")
  case None
  then show ?thesis using refines_refl [OF assms(1)] by (simp add: fold_inst_def)
next
  case (Some F)
  then have "fold_ok regular (opc (h ! a)) F"
    using fold_table_ok assoc_in [of fold_table "opc (h ! a)" F] by (auto simp: list_all_iff)
  then show ?thesis using Some assms by (simp add: fold_ok_def fold_inst_def)
qed

lemma fold_loop_ok:
  "wf_heap h r \<Longrightarrow> ordered block h r \<Longrightarrow> set as \<subseteq> set block \<Longrightarrow> regular_run h as
    \<Longrightarrow> \<exists>h'. fold_loop h as = Some h' \<and> refines block r h h'"
proof (induction as arbitrary: h)
  case Nil
  then show ?case by (simp add: refines_def)
next
  case (Cons a as)
  then have inst: "inst_in block r h a" by (simp add: inst_in_def)
  obtain h1 where h1: "fold_inst h a = Some h1" "refines block r h h1" using fold_inst_ok [OF inst] Cons.prems(4) by auto
  obtain h' where "fold_loop h1 as = Some h'" "refines block r h1 h'"
    using Cons.IH [of h1] Cons.prems h1 by (auto simp: refines_def)
  then show ?case using h1 refines_trans [OF h1(2)] by auto
qed

lemma register_meta: "opcode_meta ''A64GetX'' = Some (Type_U64, [Type_A64Reg])"
  "opcode_meta ''A64SetX'' = Some (Type_Void, [Type_A64Reg, Type_U64])"
  by (simp_all add: opcode_meta_def [unfolded opcode_info_def] table_lookup_append group_lookup cong: table_lookup_weak_cong option.case_cong_weak)

lemma add_chain_wf: "wf_heap (add_chain x y c) id"
proof -
  have all: "(\<forall>i<length (add_chain x y c). P i) \<longleftrightarrow> P 0 \<and> P (Suc 0) \<and> P 2 \<and> P 3" for P
    using all_less_4 [of P] by (simp add: add_chain_def eval_nat_numeral)
  have two: "(\<forall>i<Suc (Suc 0). P i) \<longleftrightarrow> P 0 \<and> P (Suc 0)" for P by (auto simp: less_Suc_eq)
  have "ranked (add_chain x y c) id"
    unfolding ranked_alt all by (simp add: add_chain_def new_inst_def max_arg_count_def)
  moreover have "counted (add_chain x y c)"
    unfolding counted_def all
    by (simp add: add_chain_def new_inst_def max_arg_count_def slots_def nonimm_def chase_def IsIdentity_def)
  moreover have "typed (add_chain x y c)"
    unfolding typed_def all
    by (simp add: args_typed_def add_chain_def new_inst_def max_arg_count_def register_meta two all_less_3 all_less_4 del: All_less_Suc)
      (simp add: arg_ok_def GetType_def chase_def chase_fuel.simps IsIdentity_def AreTypesCompatible_def GetTypeOf_def register_meta)
  moreover have np: "\<forall>i<length (add_chain x y c). \<not> IsAPseudoOperation (opc (add_chain x y c ! i)) \<and> next_pseudoop (add_chain x y c ! i) = None"
    unfolding all by (simp add: add_chain_def new_inst_def IsAPseudoOperation_def)
  then have "\<not> observes (add_chain x y c) b d" for b d by (auto simp: observes_def)
  then have "chained (add_chain x y c)" using np unfolding chained_def chain_ok_def by auto
  ultimately show ?thesis by (simp add: wf_heap_def add_chain_def)
qed

lemma add_chain_ordered: "ordered [0, 1, 2, 3] (add_chain x y c) id"
  by (auto simp: ordered_def closed_under_args_def add_chain_def new_inst_def max_arg_count_def)

lemma FoldAdd_constant:
  assumes "GetArg h a 0 = Some x" "GetArg h a 1 = Some y" "IsImmediate h x = Some False" "IsImmediate h y = Some True"
    "\<not> HasAssociatedPseudoOperation h a" "assoc fold_table (opc (h ! a)) = Some (\<lambda>h inst. FoldAdd h inst is_32)"
  shows "fold_inst h a = fold_add_constant h a is_32"
  unfolding fold_inst_def assms(6) option.case by (subst FoldAdd.simps) (simp add: assms(1-5) assms(2) [unfolded One_nat_def])

lemma fold_rows: "assoc fold_table ''Add64'' = Some (\<lambda>h inst. FoldAdd h inst False)"
  "assoc fold_table ''A64GetX'' = None" "assoc fold_table ''A64SetX'' = None"
  by (simp_all add: fold_table_def)

lemma add_chain_ends:
  "fold_inst (add_chain x y c) 0 = Some (add_chain x y c)" "fold_inst (add_chain_combined z) 3 = Some (add_chain_combined z)"
  "fold_inst add_chain_aliased 3 = Some add_chain_aliased"
  by (simp_all add: fold_inst_def fold_rows add_chain_def add_chain_combined_def add_chain_aliased_def new_inst_def)

lemmas chain_eval = fold_add_constant_def is_nested_add_def is_nested_def fold_add_immediates_def GetArg_def NumArgs_def
  GetNumArgsOf_def IsImmediate_def chase_def chase_fuel.simps IsIdentity_def GetInstRecursive_def GetInst_def IsZero_def
  IsUnsignedImmediate_def GetImmediateAsU64_def GetU1_def AreAllArgsImmediates_def SetArg_def inst_Use_def inst_UndoUse_def
  upd_def set_slot_def ReplaceUsesWith_def Invalidate_def ClearArgs_def Value_imm_def Let_def new_inst_def max_arg_count_def
  register_meta HasAssociatedPseudoOperation_def GetArgTypeOf_def GetType_def AreTypesCompatible_def GetTypeOf_def IsEmpty_def
  IsAPseudoOperation_def

lemma add_chain_operands:
  "GetArg (add_chain x y c) 1 0 = Some (VInst 0)" "GetArg (add_chain x y c) 1 1 = Some (VU64 x)"
  "GetArg (add_chain x y c) 2 0 = Some (VInst 1)" "GetArg (add_chain x y c) 2 1 = Some (VU64 y)"
  "IsImmediate (add_chain x y c) (VInst 0) = Some False" "IsImmediate (add_chain x y c) (VInst 1) = Some False"
  "\<not> HasAssociatedPseudoOperation (add_chain x y c) 1" "\<not> HasAssociatedPseudoOperation (add_chain x y c) 2"
  "opc (add_chain x y c ! 1) = ''Add64''" "opc (add_chain x y c ! 2) = ''Add64''"
  by (simp_all add: chain_eval add_chain_def)

lemma fold_add_chain: "fold_inst (add_chain x y c) 1 = fold_add_constant (add_chain x y c) 1 False"
  "fold_inst (add_chain x y c) 2 = fold_add_constant (add_chain x y c) 2 False"
proof -
  have imm: "IsImmediate (add_chain x y c) (VU64 z) = Some True" for z by (simp add: chain_eval add_chain_def)
  show "fold_inst (add_chain x y c) 1 = fold_add_constant (add_chain x y c) 1 False"
    by (rule FoldAdd_constant [OF add_chain_operands(1,2,5) imm add_chain_operands(7)]) (unfold add_chain_operands, rule fold_rows(1))
  show "fold_inst (add_chain x y c) 2 = fold_add_constant (add_chain x y c) 2 False"
    by (rule FoldAdd_constant [OF add_chain_operands(3,4,6) imm add_chain_operands(8)]) (unfold add_chain_operands, rule fold_rows(1))
qed

lemma add_chain_steps:
  "fold_inst (add_chain 5 y c) 1 = Some (add_chain 5 y c)"
  "fold_inst (add_chain 5 7 False) 2 = Some (add_chain_combined 12)"
  "fold_inst (add_chain 5 (- 5) True) 2 = Some add_chain_aliased"
  unfolding fold_add_chain
  by (simp_all add: chain_eval upt_rec add_chain_def add_chain_combined_def add_chain_aliased_def)

lemma add_chain_regular: "regular (add_chain 5 7 False) 0" "regular (add_chain 5 7 False) 1" "regular (add_chain 5 7 False) 2"
  "regular (add_chain_combined z) 3"
proof -
  show "regular (add_chain 5 7 False) 1" "regular (add_chain 5 7 False) 2" by code_simp+
qed (simp_all add: regular_def div_overflows_def add_chain_def add_chain_combined_def new_inst_def)

lemma chain_sem: "pure_sem ''Add64'' = Some (\<lambda>vs. AddWithCarry S64 (as64 (vs ! 0)) (as64 (vs ! 1)) (as1 (vs ! 2)))"
  "pure_sem ''A64GetX'' = None" "pure_sem ''A64SetX'' = None"
  by (simp_all add: pure_sem_def pure_table_def)

lemma chain_effects: "MayHaveSideEffects ''A64SetX''" "\<not> MayHaveSideEffects ''A64GetX''"
proof -
  have "\<not> WritesToFPSRCumulativeSaturationBit ''A64GetX''" "\<not> WritesToFPSRCumulativeExceptionBits ''A64GetX''"
    unfolding WritesToFPSRCumulativeSaturationBit_def WritesToFPSRCumulativeExceptionBits_def
      ReadsFromAndWritesToFPSRCumulativeExceptionBits_def by simp_all
  then show "MayHaveSideEffects ''A64SetX''" "\<not> MayHaveSideEffects ''A64GetX''"
    by (simp_all add: effect_eval cong: if_weak_cong)
qed

lemmas trace_eval = step_inst_def det_result_def trace_exec_def new_inst_def chain_sem chain_effects arg_values_def arity_def register_meta
  Let_def reads_parent_def GetTypeOf_def sval_ok_def imm_sval_def slot_value_def slot_result_def plain_result_def AddWithCarry_def add_flags_def

lemma add_chain_traces:
  "snd (run (trace_exec (\<lambda>p vs s. plain_result (S64 0))) (add_chain 5 (- 5) True) [0, 1, 2, 3] (\<lambda>x. plain_result SVoid, []))
    = [(''A64SetX'', [SRef (VA64Reg 0), S64 1])]"
  "snd (run (trace_exec (\<lambda>p vs s. plain_result (S64 0))) add_chain_aliased [0, 1, 2, 3] (\<lambda>x. plain_result SVoid, []))
    = [(''A64SetX'', [SRef (VA64Reg 0), S64 0])]"
  by (simp_all add: trace_eval add_chain_def add_chain_aliased_def)

text \<open>
  C3. Constant propagation is correct: on every well-formed block whose instructions are regular
  when the pass reaches them, the pass meets no failing assertion, keeps the pool well formed and the
  block in order, and the block performs the same side effects with the same operands as before, on
  every machine.  The pass replaces, swaps and combines operands, removes the carries it can
  compute and turns instructions into aliases of constants or of other instructions.
\<close>

theorem ConstantPropagation_correct:
  assumes "wf_heap h r" "ordered block h r" "regular_run h block"
  shows "\<exists>h'. ConstantPropagation h block = Some h' \<and> wf_heap h' r \<and> ordered block h' r
    \<and> (\<forall>orc \<rho> s. snd (run (trace_exec orc) h' block (\<rho>, s)) = snd (run (trace_exec orc) h block (\<rho>, s)))"
  using fold_loop_ok [OF assms(1,2) subset_refl assms(3)] by (auto simp: ConstantPropagation_def refines_def)

theorem ConstantPropagation_correct_witness:
  "\<exists>h'. ConstantPropagation (add_chain 5 7 False) [0, 1, 2, 3] = Some h' \<and> wf_heap h' id \<and> (\<forall>orc \<rho> s.
     snd (run (trace_exec orc) h' [0, 1, 2, 3] (\<rho>, s)) = snd (run (trace_exec orc) (add_chain 5 7 False) [0, 1, 2, 3] (\<rho>, s)))"
proof -
  have "regular_run (add_chain 5 7 False) [0, 1, 2, 3]"
    using add_chain_regular by (simp add: add_chain_ends add_chain_steps add_chain_steps(1) [unfolded One_nat_def])
  then show ?thesis using ConstantPropagation_correct [OF add_chain_wf add_chain_ordered] by blast
qed

text \<open>
  C7. Without the condition on additions the pass changes what a block does: the block reads a
  register, adds 5, and adds -5 with a carry of one.  The pass succeeds and makes the second
  addition an alias of the register, so that on a machine where the register holds zero the
  block writes back 0, where the original block writes back 1.
\<close>

theorem FoldAdd_drops_carry:
  "\<exists>h' orc \<rho>. ConstantPropagation (add_chain 5 (- 5) True) [0, 1, 2, 3] = Some h'
    \<and> snd (run (trace_exec orc) (add_chain 5 (- 5) True) [0, 1, 2, 3] (\<rho>, [])) = [(''A64SetX'', [SRef (VA64Reg 0), S64 1])]
    \<and> snd (run (trace_exec orc) h' [0, 1, 2, 3] (\<rho>, [])) = [(''A64SetX'', [SRef (VA64Reg 0), S64 0])]"
proof -
  have "ConstantPropagation (add_chain 5 (- 5) True) [0, 1, 2, 3] = Some add_chain_aliased"
    by (simp add: ConstantPropagation_def add_chain_ends add_chain_steps add_chain_steps(1) [unfolded One_nat_def])
  then show ?thesis using add_chain_traces by blast
qed

section \<open>Folding instructions whose operands are constant\<close>

text \<open>The opcodes whose rows only act when every operand is an immediate, and set no flags.\<close>

definition constant_opcodes :: "opcode list" where
  "constant_opcodes = [
     ''LeastSignificantWord'', ''LeastSignificantHalf'', ''LeastSignificantByte'', ''MostSignificantBit'', ''IsZero32'', ''IsZero64'',
     ''LogicalShiftLeftMasked32'', ''LogicalShiftLeftMasked64'', ''LogicalShiftRightMasked32'', ''LogicalShiftRightMasked64'',
     ''ArithmeticShiftRightMasked32'', ''ArithmeticShiftRightMasked64'', ''RotateRightMasked32'', ''RotateRightMasked64'',
     ''Not32'', ''Not64'', ''SignExtendByteToWord'', ''SignExtendHalfToWord'', ''SignExtendByteToLong'', ''SignExtendHalfToLong'',
     ''SignExtendWordToLong'', ''ZeroExtendByteToWord'', ''ZeroExtendHalfToWord'', ''ZeroExtendByteToLong'',
     ''ZeroExtendHalfToLong'', ''ZeroExtendWordToLong'', ''ByteReverseWord'', ''ByteReverseHalf'', ''ByteReverseDual'']"

lemma constant_regular: "opc (h ! a) \<in> set constant_opcodes \<Longrightarrow> regular h a"
  by (auto simp: constant_opcodes_def regular_def div_overflows_def)

text \<open>
  C6. Folding an instruction of constant operands is correct: on a well-formed block,
  the pass's step on an instruction whose opcode folds only when all its operands are immediates
  (truncations, extensions, complements, byte reversals, zero tests and shifts by a masked
  amount) meets no failing assertion, keeps the pool well formed and the block in order, and the
  block performs the same side effects as before on every machine.
\<close>

theorem fold_constant_operands:
  assumes "wf_heap h r" "ordered block h r" "a \<in> set block" "opc (h ! a) \<in> set constant_opcodes"
  shows "\<exists>h'. fold_inst h a = Some h' \<and> wf_heap h' r \<and> ordered block h' r
    \<and> (\<forall>orc \<rho> s. snd (run (trace_exec orc) h' block (\<rho>, s)) = snd (run (trace_exec orc) h block (\<rho>, s)))"
proof -
  have "inst_in block r h a" using assms(1-3) by (simp add: inst_in_def)
  then have "\<exists>h'. fold_inst h a = Some h' \<and> refines block r h h'"
    using fold_inst_ok constant_regular [OF assms(4)] by blast
  then show ?thesis by (auto simp: refines_def)
qed

theorem fold_constant_operands_witness:
  "\<exists>h'. fold_inst example_block 0 = Some h' \<and> wf_heap h' id \<and> (\<forall>orc \<rho> s.
     snd (run (trace_exec orc) h' [0, 1, 2] (\<rho>, s)) = snd (run (trace_exec orc) example_block [0, 1, 2] (\<rho>, s)))"
proof -
  have "opc (example_block ! 0) \<in> set constant_opcodes"
    by (simp add: example_block_def new_inst_def constant_opcodes_def)
  then show ?thesis using fold_constant_operands [OF example_block_wf example_block_ordered, of 0] by auto
qed

end
