(* ===== verification/Identity_Removal.thy ===== *)
theory Identity_Removal
  imports Fold_Pass
begin

text \<open>
  Identity removal (\<^verbatim>\<open>ir/opt/identity_removal_pass.cpp\<close>): the operands that are aliases are
  resolved, then the aliases and the void instructions are taken out of the block.
  The pass returns on every well-formed block and preserves what the block does.
\<close>

section \<open>The pass\<close>

text \<open>The innermost loop, which follows the aliases of one operand.\<close>

partial_function (option) resolve_arg :: "heap \<Rightarrow> nat \<Rightarrow> nat \<Rightarrow> heap option" where
  "resolve_arg h inst i = do {
     arg \<leftarrow> GetArg h inst i;
     if \<not> IsIdentity h arg then Some h
     else do { b \<leftarrow> GetInst arg; v \<leftarrow> GetArg h b 0; h1 \<leftarrow> SetArg h inst i v; resolve_arg h1 inst i } }"

fun resolve_args :: "heap \<Rightarrow> nat \<Rightarrow> nat list \<Rightarrow> heap option" where
  "resolve_args h inst [] = Some h"
| "resolve_args h inst (i # is) = do { h1 \<leftarrow> resolve_arg h inst i; resolve_args h1 inst is }"

fun resolve_block :: "heap \<Rightarrow> nat list \<Rightarrow> heap option" where
  "resolve_block h [] = Some h"
| "resolve_block h (inst # as) = do {
     num_args \<leftarrow> NumArgs h inst; h1 \<leftarrow> resolve_args h inst [0..<num_args]; resolve_block h1 as }"

text \<open>The second loop: the rest of the block after the erasures, and the pool.\<close>

fun erase_identities :: "heap \<Rightarrow> nat list \<Rightarrow> (heap \<times> nat list) option" where
  "erase_identities h [] = Some (h, [])"
| "erase_identities h (inst # as) =
     (if opc (h ! inst) = ''Identity'' \<or> opc (h ! inst) = ''Void''
      then do { h1 \<leftarrow> Invalidate h inst; erase_identities h1 as }
      else do { (h1, bs) \<leftarrow> erase_identities h as; Some (h1, inst # bs) })"

definition IdentityRemovalPass :: "heap \<Rightarrow> nat list \<Rightarrow> (heap \<times> nat list) option" where
  "IdentityRemovalPass h block = do { h1 \<leftarrow> resolve_block h block; erase_identities h1 block }"

section \<open>Resolving operands\<close>

text \<open>Resolving operands of one instruction changes that instruction's operands only.\<close>

definition resolved :: "heap \<Rightarrow> nat \<Rightarrow> heap \<Rightarrow> bool" where
  "resolved h a h' \<longleftrightarrow> length h' = length h \<and> (\<forall>x<length h. opc (h' ! x) = opc (h ! x))
     \<and> (\<forall>x<length h. x \<noteq> a \<longrightarrow> args (h' ! x) = args (h ! x))"

lemma resolved_refl: "resolved h a h"
  by (simp add: resolved_def)

lemma resolved_trans: "resolved h a h1 \<Longrightarrow> resolved h1 a h2 \<Longrightarrow> resolved h a h2"
  by (simp add: resolved_def)

lemma resolve_step:
  assumes inst: "inst_in block r h a" and m: "opcode_meta (opc (h ! a)) = Some (t, ts)" and i: "i < length ts"
    and np: "\<not> IsAPseudoOperation (opc (h ! a))" and b: "args (h ! a) ! i = VInst b" "opc (h ! b) = ''Identity''"
  shows "GetArg h b 0 = Some (args (h ! b) ! 0)"
    "\<exists>h1. SetArg h a i (args (h ! b) ! 0) = Some h1 \<and> refines block r h h1 \<and> resolved h a h1
      \<and> args (h1 ! a) = (args (h ! a))[i := args (h ! b) ! 0]"
proof -
  let ?v = "args (h ! b) ! 0"
  note k = inst_inD [OF inst] and o = operand_facts [OF inst m i]
  have rb: "b < length h" "r b < r a" using o(6) b(1) by simp_all
  have instb: "inst_in block r h b" using inst o(8) [OF b(1)] by (simp add: inst_in_def)
  have mb: "opcode_meta (opc (h ! b)) = Some (Type_Opaque, [Type_Opaque])" using b(2) by simp
  have lt: "0 < length [Type_Opaque :: ir_type]" by simp
  note ob = operand_facts [OF instb mb lt]
  show "GetArg h b 0 = Some ?v" by (rule ob(2))
  have ch: "chase h (VInst b) = chase h ?v" by (rule chase_identity [OF k(5) rb(1) b(2)])
  have bv: "below h r (r a) ?v" using ob(6) rb(2) by (auto intro: below_mono)
  have ok: "arg_ok h ?v (ts ! i)" using o(3) b(1) ch by (simp add: arg_ok_def GetType_def)
  have one: "ts = [Type_Opaque]" if "opc (h ! a) = ''Identity''" using m that by simp
  have "chase h ?v = chase h (args (h ! a) ! 0)" if "opc (h ! a) = ''Identity''"
    using one [OF that] i b(1) ch by simp
  then obtain h1 where h1: "SetArg h a i ?v = Some h1" "arg_written h a i ?v h1" "wf_heap h1 r"
    using SetArg_wf [OF k(1,4) bv m i ok np ob(7)] by blast
  have w: "length h1 = length h" "\<And>x. x < length h \<Longrightarrow> opc (h1 ! x) = opc (h ! x)"
    "\<And>x. x < length h \<Longrightarrow> args (h1 ! x) = (if x = a then (args (h ! a))[i := ?v] else args (h ! x))"
    using h1(2) by (auto simp: arg_written_def)
  have "refines block r h h1"
  proof (rule refines_at [OF inst h1(3) w(1)])
    show "opc (h1 ! x) = opc (h ! x) \<and> args (h1 ! x) = args (h ! x)" if "x < length h" "x \<noteq> a" for x using w that by simp
    show "c \<in> set block" if "VInst c \<in> set (args (h1 ! a))" for c
      using that w(3) [OF k(4)] set_update_subset_insert [of "args (h ! a)" i ?v] ob(8) below_in_block [OF inst k(3)] by auto
    show "same_effect h h1 \<rho> a" if e: "env_before h a D \<rho>" for D \<rho>
    proof -
      have "VInst b \<in> set (args (h ! a))" using b(1) o(1) k(6) nth_mem [of i "args (h ! a)"] by simp
      then have "settled h \<rho> b" using e by (auto simp: env_before_def)
      then have "slot_value \<rho> (args (h ! a) ! i) = slot_value \<rho> ?v"
        using b by (simp add: settled_def det_result_def Let_def plain_result_def)
      then have s: "map (slot_value \<rho>) (args (h1 ! a)) = map (slot_value \<rho>) (args (h ! a))"
        using w(3) [OF k(4)] by (simp add: map_update) (metis list_update_id map_update)
      then have av: "arg_values h1 \<rho> a = arg_values h \<rho> a" using w(2) [OF k(4)] by (simp add: arg_values_def take_map [symmetric])
      have "slot_value \<rho> (args (h1 ! a) ! 0) = slot_value \<rho> (args (h ! a) ! 0)"
        using s k(6) w(3) [OF k(4)] nth_map [of 0 "args (h ! a)" "slot_value \<rho>"] nth_map [of 0 "args (h1 ! a)" "slot_value \<rho>"] by simp
      then have "det_result h1 \<rho> a = det_result h \<rho> a"
        using av w(2) [OF k(4)] np by (auto simp: det_result_def Let_def reads_parent_def)
      then show ?thesis using av w(2) [OF k(4)] by (simp add: same_effect_def split: option.split)
    qed
  qed
  then show "\<exists>h1. SetArg h a i ?v = Some h1 \<and> refines block r h h1 \<and> resolved h a h1
      \<and> args (h1 ! a) = (args (h ! a))[i := ?v]"
    using h1(1) w k(4) by (auto simp: resolved_def)
qed

lemma resolve_arg_ok:
  assumes "inst_in block r h a" "opcode_meta (opc (h ! a)) = Some (t, ts)" "i < length ts" "\<not> IsAPseudoOperation (opc (h ! a))"
    and "below h r n (args (h ! a) ! i)"
  shows "\<exists>h'. resolve_arg h a i = Some h' \<and> refines block r h h' \<and> resolved h a h' \<and> \<not> IsIdentity h' (args (h' ! a) ! i)
    \<and> (\<forall>j. j \<noteq> i \<longrightarrow> args (h' ! a) ! j = args (h ! a) ! j)"
  using assms
proof (induction n arbitrary: h rule: less_induct)
  case (less n)
  note inst = less.prems(1) and m = less.prems(2) and i = less.prems(3) and np = less.prems(4)
  note o = operand_facts [OF inst m i]
  show ?case
  proof (cases "IsIdentity h (args (h ! a) ! i)")
    case False
    then have "resolve_arg h a i = Some h" using o(2) by (subst resolve_arg.simps) simp
    then show ?thesis using False refines_refl [OF inst] resolved_refl by blast
  next
    case True
    then obtain b where b: "args (h ! a) ! i = VInst b" "opc (h ! b) = ''Identity''" by (auto elim: IsIdentityE)
    obtain h1 where h1: "SetArg h a i (args (h ! b) ! 0) = Some h1" "refines block r h h1" "resolved h a h1"
      "args (h1 ! a) = (args (h ! a))[i := args (h ! b) ! 0]"
      using resolve_step(2) [OF inst m i np b] by blast
    have inst1: "inst_in block r h1 a" by (rule inst_in_refines [OF inst h1(2)])
    note k = inst_inD [OF inst]
    have op: "opc (h1 ! a) = opc (h ! a)" and len: "length h1 = length h" using h1(3) k(4) by (simp_all add: resolved_def)
    have rb: "b < length h" "r b < n" using less.prems(5) b(1) by simp_all
    have "below h r (r b) (args (h ! b) ! 0)" using ranked_arg [OF k(5) rb(1), of 0] by simp
    then have bel: "below h1 r (r b) (args (h1 ! a) ! i)" using h1(4) o(1) k(6) len by (auto simp: below_def split: ir_value.splits)
    obtain h' where h': "resolve_arg h1 a i = Some h'" "refines block r h1 h'" "resolved h1 a h'" "\<not> IsIdentity h' (args (h' ! a) ! i)"
      "\<forall>j. j \<noteq> i \<longrightarrow> args (h' ! a) ! j = args (h1 ! a) ! j"
      using less.IH [OF rb(2) inst1 _ i _ bel] op m np by auto
    have "resolve_arg h a i = Some h'"
      using o(2) True b resolve_step(1) [OF inst m i np b] h1(1) h'(1) by (subst resolve_arg.simps) (simp add: GetInst_def)
    moreover have "refines block r h h'" by (rule refines_trans [OF h1(2) h'(2)])
    moreover have "resolved h a h'" by (rule resolved_trans [OF h1(3) h'(3)])
    moreover have "\<forall>j. j \<noteq> i \<longrightarrow> args (h' ! a) ! j = args (h ! a) ! j" using h'(5) h1(4) by simp
    ultimately show ?thesis using h'(4) by blast
  qed
qed

definition clean :: "heap \<Rightarrow> nat \<Rightarrow> bool" where
  "clean h a \<longleftrightarrow> list_all (\<lambda>v. \<not> IsIdentity h v) (args (h ! a))"

text \<open>A pseudo-operation refers to its parent and not to an alias of it.\<close>

definition direct :: "heap \<Rightarrow> nat \<Rightarrow> bool" where
  "direct h a \<longleftrightarrow> (IsAPseudoOperation (opc (h ! a)) \<longrightarrow> \<not> IsIdentity h (args (h ! a) ! 0))"

lemma IsIdentity_same_ops:
  "(\<And>x. x < length h \<Longrightarrow> opc (h' ! x) = opc (h ! x)) \<Longrightarrow> valid_value h v \<Longrightarrow> IsIdentity h' v = IsIdentity h v"
  by (cases v) (simp_all add: IsIdentity_def)

lemma cleanI:
  assumes inst: "inst_in block r h a" and m: "opcode_meta (opc (h ! a)) = Some (t, ts)"
    and no: "\<And>i. i < length ts \<Longrightarrow> \<not> IsIdentity h (args (h ! a) ! i)"
  shows "clean h a"
proof -
  note k = inst_inD [OF inst]
  have "args_typed h a" using k by (simp add: wf_heap_def typed_def)
  then have "args (h ! a) ! i = VEmpty" if "i < 4" "length ts \<le> i" for i using m that by (simp add: args_typed_def max_arg_count_def)
  then have "\<not> IsIdentity h (args (h ! a) ! i)" if "i < 4" for i
    using no [of i] that by (cases "i < length ts") (auto simp: IsIdentity_def)
  then show ?thesis using k(6) by (auto simp: clean_def list_all_length)
qed

lemma resolve_args_ok:
  assumes "inst_in block r h a" "opcode_meta (opc (h ! a)) = Some (t, ts)" "set is \<subseteq> {..<length ts}" "\<not> IsAPseudoOperation (opc (h ! a))"
  shows "\<exists>h'. resolve_args h a is = Some h' \<and> refines block r h h' \<and> resolved h a h'
    \<and> (\<forall>i\<in>set is. \<not> IsIdentity h' (args (h' ! a) ! i)) \<and> (\<forall>j. j \<notin> set is \<longrightarrow> args (h' ! a) ! j = args (h ! a) ! j)"
  using assms
proof (induction "is" arbitrary: h)
  case Nil
  then show ?case using refines_refl resolved_refl by auto
next
  case (Cons i "is")
  note inst = Cons.prems(1) and m = Cons.prems(2) and np = Cons.prems(4)
  have i: "i < length ts" using Cons.prems(3) by simp
  obtain h1 where h1: "resolve_arg h a i = Some h1" "refines block r h h1" "resolved h a h1" "\<not> IsIdentity h1 (args (h1 ! a) ! i)"
    "\<forall>j. j \<noteq> i \<longrightarrow> args (h1 ! a) ! j = args (h ! a) ! j"
    using resolve_arg_ok [OF inst m i np operand_facts(6) [OF inst m i]] by blast
  have inst1: "inst_in block r h1 a" by (rule inst_in_refines [OF inst h1(2)])
  have op: "opc (h1 ! a) = opc (h ! a)" using h1(3) inst_inD(4) [OF inst] by (simp add: resolved_def)
  have m1: "opcode_meta (opc (h1 ! a)) = Some (t, ts)" using m op by simp
  obtain h' where h': "resolve_args h1 a is = Some h'" "refines block r h1 h'" "resolved h1 a h'"
    "\<forall>i\<in>set is. \<not> IsIdentity h' (args (h' ! a) ! i)" "\<forall>j. j \<notin> set is \<longrightarrow> args (h' ! a) ! j = args (h1 ! a) ! j"
    using Cons.IH [OF inst1 m1] Cons.prems(3) np op by auto
  have "IsIdentity h' (args (h1 ! a) ! i) = IsIdentity h1 (args (h1 ! a) ! i)"
    using h'(3) operand_facts(9) [OF inst1 m1 i] by (intro IsIdentity_same_ops) (auto simp: resolved_def)
  then have "\<not> IsIdentity h' (args (h' ! a) ! i)" using h1(4) h'(4,5) by (cases "i \<in> set is") auto
  then show ?case using h1 h' refines_trans [OF h1(2) h'(2)] resolved_trans [OF h1(3) h'(3)] by auto
qed

lemma resolve_inst_ok:
  assumes inst: "inst_in block r h a" and d: "direct h a"
  shows "\<exists>n h'. NumArgs h a = Some n \<and> resolve_args h a [0..<n] = Some h' \<and> refines block r h h' \<and> resolved h a h' \<and> clean h' a
    \<and> (IsAPseudoOperation (opc (h ! a)) \<longrightarrow> h' = h)"
proof -
  note k = inst_inD [OF inst]
  have "args_typed h a" using k by (simp add: wf_heap_def typed_def)
  then obtain t ts where m: "opcode_meta (opc (h ! a)) = Some (t, ts)" by (auto simp: args_typed_def split: option.splits)
  have n: "NumArgs h a = Some (length ts)" using m by (simp add: NumArgs_def)
  show ?thesis
  proof (cases "IsAPseudoOperation (opc (h ! a))")
    case True
    then have one: "length ts = 1" using pseudo_arity [of "opc (h ! a)"] m by auto
    have z: "\<not> IsIdentity h (args (h ! a) ! 0)" using d True by (simp add: direct_def)
    have "resolve_arg h a 0 = Some h"
      using z operand_facts(2) [OF inst m, of 0] one by (subst resolve_arg.simps) simp
    then have "resolve_args h a [0..<length ts] = Some h" using one by simp
    moreover have "clean h a" by (rule cleanI [OF inst m]) (use one z in simp)
    ultimately show ?thesis using n refines_refl [OF inst] resolved_refl by blast
  next
    case False
    then obtain h' where h': "resolve_args h a [0..<length ts] = Some h'" "refines block r h h'" "resolved h a h'"
      "\<forall>i\<in>set [0..<length ts]. \<not> IsIdentity h' (args (h' ! a) ! i)"
      using resolve_args_ok [OF inst m, of "[0..<length ts]"] by (auto simp: atLeast0LessThan)
    have m': "opcode_meta (opc (h' ! a)) = Some (t, ts)" using m h'(3) k(4) by (simp add: resolved_def)
    have "clean h' a" by (rule cleanI [OF inst_in_refines [OF inst h'(2)] m']) (use h'(4) in simp)
    with n h' False show ?thesis by blast
  qed
qed

lemma clean_resolved:
  assumes "inst_in block r h x" "clean h x" "length h' = length h" "\<And>y. y < length h \<Longrightarrow> opc (h' ! y) = opc (h ! y)" "args (h' ! x) = args (h ! x)"
  shows "clean h' x"
proof -
  note k = inst_inD [OF assms(1)]
  have "valid_value h v" if "v \<in> set (args (h ! x))" for v
    using ranked_arg [OF k(5,4)] that k(6) by (metis below_valid in_set_conv_nth)
  then show ?thesis using assms(2,4,5) IsIdentity_same_ops [of h h'] by (auto simp: clean_def list_all_iff)
qed

lemma resolve_block_ok:
  "wf_heap h r \<Longrightarrow> ordered block h r \<Longrightarrow> set as \<subseteq> set block \<Longrightarrow> \<forall>a\<in>set as. direct h a
    \<Longrightarrow> \<exists>h'. resolve_block h as = Some h' \<and> refines block r h h' \<and> length h' = length h
      \<and> (\<forall>x<length h. opc (h' ! x) = opc (h ! x)) \<and> (\<forall>x<length h. x \<notin> set as \<longrightarrow> args (h' ! x) = args (h ! x))
      \<and> (\<forall>a\<in>set as. clean h' a)"
proof (induction as arbitrary: h)
  case Nil
  then show ?case by (simp add: refines_def)
next
  case (Cons a as)
  have inst: "inst_in block r h a" using Cons.prems by (simp add: inst_in_def)
  obtain n h1 where h1: "NumArgs h a = Some n" "resolve_args h a [0..<n] = Some h1" "refines block r h h1" "resolved h a h1" "clean h1 a"
    "IsAPseudoOperation (opc (h ! a)) \<longrightarrow> h1 = h"
    using resolve_inst_ok [OF inst] Cons.prems(4) by auto
  have inst1: "inst_in block r h1 a" by (rule inst_in_refines [OF inst h1(3)])
  note k1 = inst_inD [OF inst1]
  have s: "length h1 = length h" "\<And>x. x < length h \<Longrightarrow> opc (h1 ! x) = opc (h ! x)"
    "\<And>x. x < length h \<Longrightarrow> x \<noteq> a \<Longrightarrow> args (h1 ! x) = args (h ! x)" using h1(4) by (auto simp: resolved_def)
  have "direct h1 x" if "x \<in> set as" for x
  proof (cases "x = a")
    case False
    have ix: "inst_in block r h x" using inst that Cons.prems(3) by (simp add: inst_in_def subset_iff)
    have "valid_value h (args (h ! x) ! 0)" using ranked_arg [OF inst_inD(5,4) [OF ix], of 0] by (auto intro: below_valid)
    then show ?thesis
      using Cons.prems(4) that False s inst_inD(4) [OF ix] IsIdentity_same_ops [of h h1] by (simp add: direct_def)
  qed (use Cons.prems(4) h1(6) s(2) inst_inD(4) [OF inst] in \<open>auto simp: direct_def\<close>)
  then obtain h' where h': "resolve_block h1 as = Some h'" "refines block r h1 h'" "length h' = length h1"
    "\<forall>x<length h1. opc (h' ! x) = opc (h1 ! x)" "\<forall>x<length h1. x \<notin> set as \<longrightarrow> args (h' ! x) = args (h1 ! x)" "\<forall>a\<in>set as. clean h' a"
    using Cons.IH [OF k1(1,2)] Cons.prems(3) by auto
  have "clean h' a"
    using h'(3-6) clean_resolved [OF inst1 h1(5), of h'] k1(4) by (cases "a \<in> set as") auto
  then show ?case using h1(1,2) h' s refines_trans [OF h1(3) h'(2)] by auto
qed

section \<open>Erasing aliases\<close>

lemma run_erased:
  assumes "wf_heap h r" "ordered block h r" "invalidated h a h'" "slots h a = 0" "opc (h ! a) = ''Identity'' \<or> opc (h ! a) = ''Void''"
  shows "ordered (filter (\<lambda>b. b \<notin> {a}) block) h' r"
    "snd (run (trace_exec orc) h' (filter (\<lambda>b. b \<notin> {a}) block) (\<rho>, s)) = snd (run (trace_exec orc) h block (\<rho>, s))"
proof -
  have rk: "ranked h r" using assms(1) by (simp add: wf_heap_def)
  have inb: "b < length h" if "b \<in> set block" for b using assms(2) that unfolding ordered_def by blast
  have i: "length h' = length h" "\<And>b. b < length h \<Longrightarrow> opc (h' ! b) = (if b = a then ''Void'' else opc (h ! b))"
    "\<And>b. b < length h \<Longrightarrow> args (h' ! b) = (if b = a then replicate 4 VEmpty else args (h ! b))"
    using assms(3) unfolding invalidated_def by blast+
  have na: "\<And>b. b < length h \<Longrightarrow> VInst a \<notin> set (args (h ! b))" using assms(4) unfolding slots_0 by blast
  have "sorted_wrt (\<lambda>a b. r a < r b) (filter (\<lambda>b. b \<notin> {a}) block)"
    using assms(2) by (intro sorted_wrt_filter) (simp add: ordered_def)
  then show "ordered (filter (\<lambda>b. b \<notin> {a}) block) h' r"
    using ordered_invalidated [OF assms(2,3)] i(3) inb na by (fastforce simp: ordered_def closed_under_args_def)
  show "snd (run (trace_exec orc) h' (filter (\<lambda>b. b \<notin> {a}) block) (\<rho>, s)) = snd (run (trace_exec orc) h block (\<rho>, s))"
  proof (rule trace.run_sim [OF assms(1), where pre = "[]" and X = "{a}", symmetric])
    show "ordered ([] @ block) h r" using assms(2) by simp
    show "length h' = length h" by (rule i(1))
    show "length (args (h' ! b)) = 4" if "b < length h" for b
      using i(3) [OF that] ranked_length [OF rk that] by simp
    show "c \<notin> {a}" if "b \<in> set block" "b \<notin> {a}" "VInst c \<in> set (args (h' ! b))" for b c
      using i(3) [OF inb [OF that(1)]] na [OF inb [OF that(1)]] that(2,3) by auto
    show "same_effect h h' \<rho>' b" if "b \<in> set block" "b \<notin> {a}" "env_before h b D \<rho>'" for b D \<rho>'
      using i(2,3) [OF inb [OF that(1)]] that(2) by (intro same_effect_refl) simp_all
    show "quiet h \<rho>' b" if "b \<in> set block" "b \<in> {a}" "env_before h b D \<rho>'" for b D \<rho>'
      using that(2) assms(5) by (auto simp: quiet_def det_result_def Let_def)
    show "env_rel h' {a} \<rho> \<rho>" by (simp add: env_rel_def)
  qed auto
qed

abbreviation kept :: "heap \<Rightarrow> nat list \<Rightarrow> nat list" where
  "kept h \<equiv> filter (\<lambda>b. opc (h ! b) \<noteq> ''Identity'' \<and> opc (h ! b) \<noteq> ''Void'')"

lemma ordered_distinct: "ordered block h r \<Longrightarrow> distinct block"
  unfolding ordered_def distinct_conv_nth sorted_wrt_iff_nth_less by (metis less_irrefl nat_neq_iff)

lemma clean_invalidated:
  assumes "wf_heap h r" "invalidated h a h1" "x < length h" "clean h x"
  shows "clean h1 x"
proof -
  have rk: "ranked h r" using assms(1) by (simp add: wf_heap_def)
  have "valid_value h v" if "v \<in> set (args (h ! x))" for v
    using ranked_arg [OF rk assms(3)] ranked_length [OF rk assms(3)] that by (metis below_valid in_set_conv_nth)
  moreover have "\<not> IsIdentity h1 v" if "\<not> IsIdentity h v" "valid_value h v" for v
    using that assms(2) by (cases v) (auto simp: IsIdentity_def invalidated_def)
  moreover have "args (h1 ! x) = (if x = a then replicate 4 VEmpty else args (h ! x))"
    using assms(2,3) by (simp add: invalidated_def)
  moreover have "\<not> IsIdentity h1 VEmpty" by (simp add: IsIdentity_def)
  ultimately show ?thesis using assms(4) by (cases "x = a") (auto simp del: IsIdentity_simps simp: clean_def list_all_iff)
qed

lemma clean_unused:
  assumes "wf_heap h r" "a < length h" "\<forall>x<length h. clean h x" "opc (h ! a) = ''Identity'' \<or> opc (h ! a) = ''Void''"
  shows "slots h a = 0"
proof (cases "opc (h ! a) = ''Void''")
  case True
  have "counted h" using assms(1) by (simp add: wf_heap_def)
  then show ?thesis using True assms(2) by (auto simp: counted_def)
next
  case False
  then have "IsIdentity h (VInst a)" using assms(4) by (simp add: IsIdentity_def)
  then show ?thesis using assms(3) unfolding slots_0 clean_def list_all_iff by blast
qed

lemma erase_identities_ok:
  assumes "wf_heap h r" "ordered (pre @ as) h r" "\<forall>x<length h. clean h x"
  shows "\<exists>h'. erase_identities h as = Some (h', kept h as) \<and> wf_heap h' r
    \<and> ordered (pre @ kept h as) h' r
    \<and> (\<forall>orc \<rho> s. snd (run (trace_exec orc) h' (pre @ kept h as) (\<rho>, s))
        = snd (run (trace_exec orc) h (pre @ as) (\<rho>, s)))
    \<and> (\<forall>x<length h. opc (h ! x) \<noteq> ''Identity'' \<longrightarrow> opc (h' ! x) = opc (h ! x)) \<and> length h' = length h \<and> (\<forall>x<length h'. clean h' x)"
  using assms
proof (induction as arbitrary: h pre)
  case Nil
  then show ?case by simp
next
  case (Cons a as)
  have a: "a < length h" using Cons.prems(2) by (auto simp: ordered_def)
  have dist: "distinct (pre @ a # as)"
    by (rule ordered_distinct [OF Cons.prems(2)])
  show ?case
  proof (cases "opc (h ! a) = ''Identity'' \<or> opc (h ! a) = ''Void''")
    case False
    have "ordered ((pre @ [a]) @ as) h r" using Cons.prems(2) by simp
    from Cons.IH [OF Cons.prems(1) this Cons.prems(3)] False show ?thesis by auto
  next
    case True
    have sl: "slots h a = 0" by (rule clean_unused [OF Cons.prems(1) a Cons.prems(3) True])
    obtain h1 where h1: "Invalidate h a = Some h1" "invalidated h a h1" "wf_heap h1 r"
      using Invalidate_wf [OF Cons.prems(1) a sl] by blast
    have i: "length h1 = length h" "\<And>b. b < length h \<Longrightarrow> opc (h1 ! b) = (if b = a then ''Void'' else opc (h ! b))"
      "\<And>b. b < length h \<Longrightarrow> args (h1 ! b) = (if b = a then replicate 4 VEmpty else args (h ! b))"
      using h1(2) unfolding invalidated_def by blast+
    have rest: "filter (\<lambda>b. b \<notin> {a}) (pre @ a # as) = pre @ as" using dist by (auto simp: filter_id_conv intro!: arg_cong2 [of _ _ _ _ append])
    note er = run_erased [OF Cons.prems(1,2) h1(2) sl True, unfolded rest]
    have cl: "\<forall>x<length h1. clean h1 x" using clean_invalidated [OF Cons.prems(1) h1(2)] Cons.prems(3) i(1) by simp
    note IH = Cons.IH [OF h1(3) er(1)]
    have same: "kept h1 as
      = kept h as"
    proof (rule filter_cong [OF refl])
      fix x assume "x \<in> set as"
      then have "opc (h1 ! x) = opc (h ! x)" using i(2) [of x] dist Cons.prems(2) by (auto simp: ordered_def)
      then show "(opc (h1 ! x) \<noteq> ''Identity'' \<and> opc (h1 ! x) \<noteq> ''Void'') = (opc (h ! x) \<noteq> ''Identity'' \<and> opc (h ! x) \<noteq> ''Void'')" by simp
    qed
    obtain h' where "erase_identities h1 as = Some (h', kept h as)"
      "wf_heap h' r" "ordered (pre @ kept h as) h' r"
      "\<forall>orc \<rho> s. snd (run (trace_exec orc) h' (pre @ kept h as) (\<rho>, s))
        = snd (run (trace_exec orc) h1 (pre @ as) (\<rho>, s))"
      "\<forall>x<length h1. opc (h1 ! x) \<noteq> ''Identity'' \<longrightarrow> opc (h' ! x) = opc (h1 ! x)" "length h' = length h1" "\<forall>x<length h'. clean h' x"
      using IH [OF cl] unfolding same by blast
    then show ?thesis using True h1(1) i(1,2) er(2) by auto
  qed
qed

text \<open>
  C4. Identity removal is correct: on every well-formed block with no other live instruction in
  the pool, in which no pseudo-operation refers to an alias, the pass returns, meets no failing
  assertion, and leaves a well-formed pool and a block in order that performs the same side
  effects on every machine.  No instruction of the new block is an alias or void, or has an
  alias as an operand.
\<close>

theorem IdentityRemovalPass_correct:
  assumes "wf_heap h r" "ordered block h r" "\<And>x. x < length h \<Longrightarrow> x \<notin> set block \<Longrightarrow> opc (h ! x) = ''Void''"
    and "\<And>a. a \<in> set block \<Longrightarrow> direct h a"
  shows "\<exists>h' block'. IdentityRemovalPass h block = Some (h', block') \<and> wf_heap h' r \<and> ordered block' h' r
    \<and> (\<forall>orc \<rho> s. snd (run (trace_exec orc) h' block' (\<rho>, s)) = snd (run (trace_exec orc) h block (\<rho>, s)))
    \<and> (\<forall>a\<in>set block'. opc (h' ! a) \<noteq> ''Identity'' \<and> opc (h' ! a) \<noteq> ''Void'' \<and> clean h' a)"
proof -
  obtain h1 where h1: "resolve_block h block = Some h1" "refines block r h h1" "length h1 = length h"
    "\<forall>x<length h. opc (h1 ! x) = opc (h ! x)" "\<forall>a\<in>set block. clean h1 a"
    using resolve_block_ok [OF assms(1,2) subset_refl] assms(4) by auto
  have wf1: "wf_heap h1 r" "ordered ([] @ block) h1 r" using h1(2) by (simp_all add: refines_def)
  have "clean h1 x" if "x < length h1" for x
  proof (cases "x \<in> set block")
    case False
    have "args_typed h1 x" "opc (h1 ! x) = ''Void''"
      using wf1(1) that assms(3) False h1(3,4) by (simp_all add: wf_heap_def typed_def)
    then have "\<forall>i<4. args (h1 ! x) ! i = VEmpty" by (simp add: args_typed_def max_arg_count_def)
    then show ?thesis using ranked_length [of h1 r x] wf1(1) that by (auto simp: clean_def list_all_length wf_heap_def IsIdentity_def)
  qed (use h1(5) in simp)
  then have cl: "\<forall>x<length h1. clean h1 x" by blast
  obtain h' where h': "erase_identities h1 block = Some (h', kept h1 block)" "wf_heap h' r" "ordered (kept h1 block) h' r"
    "\<And>orc \<rho> s. snd (run (trace_exec orc) h' (kept h1 block) (\<rho>, s)) = snd (run (trace_exec orc) h1 block (\<rho>, s))"
    "\<forall>x<length h1. opc (h1 ! x) \<noteq> ''Identity'' \<longrightarrow> opc (h' ! x) = opc (h1 ! x)" "length h' = length h1" "\<forall>x<length h'. clean h' x"
    using erase_identities_ok [OF wf1 cl] by auto
  have "IdentityRemovalPass h block = Some (h', kept h1 block)" using h1(1) h'(1) by (simp add: IdentityRemovalPass_def)
  moreover have "snd (run (trace_exec orc) h' (kept h1 block) (\<rho>, s)) = snd (run (trace_exec orc) h block (\<rho>, s))" for orc \<rho> s
    using h'(4) h1(2) by (simp add: refines_def)
  moreover have "\<forall>a\<in>set (kept h1 block). opc (h' ! a) \<noteq> ''Identity'' \<and> opc (h' ! a) \<noteq> ''Void'' \<and> clean h' a"
    using h'(5-7) wf1(2) by (auto simp: ordered_def)
  ultimately show ?thesis using h'(2,3) by blast
qed

lemma add_chain_aliased_wf: "wf_heap add_chain_aliased id"
proof -
  have all: "(\<forall>i<length add_chain_aliased. P i) \<longleftrightarrow> P 0 \<and> P (Suc 0) \<and> P 2 \<and> P 3" for P
    using all_less_4 [of P] by (simp add: add_chain_aliased_def eval_nat_numeral)
  have two: "(\<forall>i<Suc (Suc 0). P i) \<longleftrightarrow> P 0 \<and> P (Suc 0)" for P by (auto simp: less_Suc_eq)
  have "ranked add_chain_aliased id"
    unfolding ranked_alt all by (simp add: add_chain_aliased_def new_inst_def max_arg_count_def)
  moreover have "counted add_chain_aliased"
    unfolding counted_def all
    by (simp add: add_chain_aliased_def new_inst_def max_arg_count_def slots_def nonimm_def chase_def IsIdentity_def)
  moreover have "typed add_chain_aliased"
    unfolding typed_def all
    by (simp add: args_typed_def add_chain_aliased_def new_inst_def max_arg_count_def register_meta two all_less_3 all_less_4 del: All_less_Suc)
      (simp add: arg_ok_def GetType_def chase_def chase_fuel.simps IsIdentity_def AreTypesCompatible_def GetTypeOf_def register_meta)
  moreover have np: "\<forall>i<length add_chain_aliased. \<not> IsAPseudoOperation (opc (add_chain_aliased ! i)) \<and> next_pseudoop (add_chain_aliased ! i) = None"
    unfolding all by (simp add: add_chain_aliased_def new_inst_def IsAPseudoOperation_def)
  then have "\<not> observes add_chain_aliased b d" for b d by (auto simp: observes_def)
  then have "chained add_chain_aliased" using np unfolding chained_def chain_ok_def by auto
  ultimately show ?thesis by (simp add: wf_heap_def add_chain_aliased_def)
qed


lemma add_chain_aliased_ordered: "ordered [0, 1, 2, 3] add_chain_aliased id"
  by (auto simp: ordered_def closed_under_args_def add_chain_aliased_def new_inst_def max_arg_count_def)

theorem IdentityRemovalPass_correct_witness:
  "\<exists>h' block'. IdentityRemovalPass add_chain_aliased [0, 1, 2, 3] = Some (h', block') \<and> wf_heap h' id
    \<and> (\<forall>orc \<rho> s. snd (run (trace_exec orc) h' block' (\<rho>, s)) = snd (run (trace_exec orc) add_chain_aliased [0, 1, 2, 3] (\<rho>, s)))"
proof -
  have "direct add_chain_aliased a" if "a \<in> set [0, 1, 2, 3]" for a
    using that by (auto simp: direct_def add_chain_aliased_def new_inst_def IsAPseudoOperation_def)
  moreover have "x \<in> set [0, 1, 2, 3]" if "x < length add_chain_aliased" for x
    using that by (auto simp: add_chain_aliased_def less_Suc_eq)
  ultimately show ?thesis
    using IdentityRemovalPass_correct [OF add_chain_aliased_wf add_chain_aliased_ordered] by blast
qed

end
