(* ===== verification/Memory_Reads.thy ===== *)
theory Memory_Reads
  imports Constant_Folding
begin

text \<open>
  Constant memory reads (\<^verbatim>\<open>ir/opt/a32_constant_memory_reads_pass.cpp\<close>): guest reads of read-only memory at
  constant addresses are replaced by what the user's callback returns.  The callbacks are
  parameters; \<open>reads_memory\<close> is what the pass relies on.
\<close>

section \<open>The pass\<close>

text \<open>The callbacks of the user that the pass asks, as functions of the address.\<close>

record user_callbacks =
  IsReadOnlyMemory :: "u32 \<Rightarrow> bool"
  MemoryRead8 :: "u32 \<Rightarrow> u8"
  MemoryRead16 :: "u32 \<Rightarrow> u16"
  MemoryRead32 :: "u32 \<Rightarrow> u32"
  MemoryRead64 :: "u32 \<Rightarrow> u64"

definition memory_value :: "user_callbacks \<Rightarrow> opcode \<Rightarrow> (u32 \<Rightarrow> ir_value) option" where
  "memory_value cb p =
     (if p = ''A32ReadMemory8'' then Some (\<lambda>vaddr. VU8 (MemoryRead8 cb vaddr))
      else if p = ''A32ReadMemory16'' then Some (\<lambda>vaddr. VU16 (MemoryRead16 cb vaddr))
      else if p = ''A32ReadMemory32'' then Some (\<lambda>vaddr. VU32 (MemoryRead32 cb vaddr))
      else if p = ''A32ReadMemory64'' then Some (\<lambda>vaddr. VU64 (MemoryRead64 cb vaddr))
      else None)"

definition constant_read :: "user_callbacks \<Rightarrow> heap \<Rightarrow> nat \<Rightarrow> heap option" where
  "constant_read cb h inst = (case memory_value cb (opc (h ! inst)) of None \<Rightarrow> Some h
     | Some value_from_memory \<Rightarrow> do {
         all \<leftarrow> AreAllArgsImmediates h inst;
         if \<not> all then Some h
         else do {
           v \<leftarrow> GetArg h inst 1; vaddr \<leftarrow> GetU32 h v;
           if IsReadOnlyMemory cb vaddr then ReplaceUsesWith h inst (value_from_memory vaddr) else Some h } })"

fun constant_reads :: "user_callbacks \<Rightarrow> heap \<Rightarrow> nat list \<Rightarrow> heap option" where
  "constant_reads cb h [] = Some h"
| "constant_reads cb h (inst # as) = do { h1 \<leftarrow> constant_read cb h inst; constant_reads cb h1 as }"

definition A32ConstantMemoryReads :: "user_callbacks \<Rightarrow> heap \<Rightarrow> nat list \<Rightarrow> heap option" where
  "A32ConstantMemoryReads cb h block = constant_reads cb h block"

text \<open>What the pass relies on: a guest read of read-only memory returns what the callback returns.\<close>

definition reads_memory :: "user_callbacks \<Rightarrow> (opcode \<Rightarrow> sval list \<Rightarrow> trace \<Rightarrow> result) \<Rightarrow> bool" where
  "reads_memory cb orc \<longleftrightarrow> (\<forall>p f vaddr vs s. memory_value cb p = Some f \<longrightarrow> IsReadOnlyMemory cb vaddr
     \<longrightarrow> vs ! 1 = S32 vaddr \<longrightarrow> rv (orc p vs s) = imm_sval (f vaddr))"

text \<open>No pseudo-operation asks a memory read for flags.\<close>

definition unobserved :: "user_callbacks \<Rightarrow> heap \<Rightarrow> bool" where
  "unobserved cb h \<longleftrightarrow> list_all (\<lambda>b. reads_parent (opc (h ! b)) \<longrightarrow>
     (case args (h ! b) ! 0 of VInst a \<Rightarrow> memory_value cb (opc (h ! a)) = None | _ \<Rightarrow> True)) [0..<length h]"

text \<open>
  What the pass achieves.  A read that can be folded has constant operands and a read-only
  address.  Between two pools an instruction is kept, or is a read that became an alias of the
  callback's value.
\<close>

definition foldable_read :: "user_callbacks \<Rightarrow> heap \<Rightarrow> nat \<Rightarrow> bool" where
  "foldable_read cb h a \<longleftrightarrow> memory_value cb (opc (h ! a)) \<noteq> None \<and> AreAllArgsImmediates h a = Some True
     \<and> (case chase h (args (h ! a) ! 1) of Some (VU32 vaddr) \<Rightarrow> IsReadOnlyMemory cb vaddr | _ \<Rightarrow> False)"

definition kept_or_folded :: "user_callbacks \<Rightarrow> heap \<Rightarrow> heap \<Rightarrow> nat \<Rightarrow> bool" where
  "kept_or_folded cb h h' a \<longleftrightarrow> opc (h' ! a) = opc (h ! a) \<and> args (h' ! a) = args (h ! a)
     \<or> (\<exists>f vaddr. memory_value cb (opc (h ! a)) = Some f \<and> IsReadOnlyMemory cb vaddr
          \<and> opc (h' ! a) = ''Identity'' \<and> args (h' ! a) = [f vaddr, VEmpty, VEmpty, VEmpty])"

lemma memory_metas:
  "opcode_meta ''A32ReadMemory8'' = Some (Type_U8, [Type_U64, Type_U32, Type_AccType])"
  "opcode_meta ''A32ReadMemory16'' = Some (Type_U16, [Type_U64, Type_U32, Type_AccType])"
  "opcode_meta ''A32ReadMemory32'' = Some (Type_U32, [Type_U64, Type_U32, Type_AccType])"
  "opcode_meta ''A32ReadMemory64'' = Some (Type_U64, [Type_U64, Type_U32, Type_AccType])"
  by (simp_all add: opcode_meta_def [unfolded opcode_info_def] table_lookup_append group_lookup cong: table_lookup_weak_cong option.case_cong_weak)

lemma memory_no_effect:
  "\<not> MayHaveSideEffects ''A32ReadMemory8''" "\<not> MayHaveSideEffects ''A32ReadMemory16''"
  "\<not> MayHaveSideEffects ''A32ReadMemory32''" "\<not> MayHaveSideEffects ''A32ReadMemory64''"
  by (simp_all add: effect_eval WritesToFPSRCumulativeSaturationBit_def WritesToFPSRCumulativeExceptionBits_def
      ReadsFromAndWritesToFPSRCumulativeExceptionBits_def cong: if_weak_cong switch_case_weak_cong)

lemma memory_pure: "pure_sem ''A32ReadMemory8'' = None" "pure_sem ''A32ReadMemory16'' = None"
  "pure_sem ''A32ReadMemory32'' = None" "pure_sem ''A32ReadMemory64'' = None"
  by (simp_all add: pure_sem_def pure_table_def)

lemma memory_opcode:
  assumes "memory_value cb p = Some f"
  obtains t where "opcode_meta p = Some (t, [Type_U64, Type_U32, Type_AccType])" "imm_of t (f v)" "sval_ok t (imm_sval (f v))"
    "GetTypeOf p = Some t" "pure_sem p = None" "\<not> reads_parent p" "\<not> MayHaveSideEffects p" "\<not> IsAPseudoOperation p"
    "p \<noteq> ''Identity''" "p \<noteq> ''Void''"
  using assms memory_metas memory_no_effect memory_pure
  by (auto simp: memory_value_def GetTypeOf_def reads_parent_def IsAPseudoOperation_def imm_sval_def sval_ok_def split: if_splits)

lemma unobserved_reads: "unobserved cb h \<Longrightarrow> memory_value cb (opc (h ! a)) = Some f \<Longrightarrow> \<not> reads h a q"
  by (auto simp: unobserved_def list_all_iff reads_def)

lemma unobserved_replaced:
  assumes "unobserved cb h" "replaced h a v h'" "wf_heap h r"
  shows "unobserved cb h'"
  unfolding unobserved_def list_all_iff
proof (intro ballI impI)
  fix b assume "b \<in> set [0..<length h']" and rp: "reads_parent (opc (h' ! b))"
  then have b: "b < length h" using assms(2) by (simp add: replaced_def)
  then have "b \<noteq> a" using assms(2) rp by (auto simp: replaced_def reads_parent_def)
  then have same: "opc (h' ! b) = opc (h ! b)" "args (h' ! b) = args (h ! b)" using assms(2) b by (simp_all add: replaced_def)
  show "case args (h' ! b) ! 0 of VInst a \<Rightarrow> memory_value cb (opc (h' ! a)) = None | _ \<Rightarrow> True"
  proof (cases "args (h ! b) ! 0")
    case (VInst c)
    have "c < length h" using ranked_arg [of h r b 0] assms(3) b VInst by (simp add: wf_heap_def)
    then have "opc (h' ! c) = ''Identity'' \<or> opc (h' ! c) = opc (h ! c)" using assms(2) by (auto simp: replaced_def)
    moreover have "memory_value cb (opc (h ! c)) = None"
      using assms(1) b rp same VInst by (auto simp: unobserved_def list_all_iff)
    moreover have "memory_value cb ''Identity'' = None" by (simp add: memory_value_def)
    ultimately show ?thesis using same VInst by auto
  qed (use same in simp_all)
qed

text \<open>A memory read at a constant read-only address becomes an alias of the value.\<close>

lemma replace_read:
  assumes inst: "inst_in block r h a" and un: "unobserved cb h" and law: "reads_memory cb orc"
    and f: "memory_value cb (opc (h ! a)) = Some f" and ro: "IsReadOnlyMemory cb x"
    and x: "chase h (args (h ! a) ! 1) = Some (VU32 x)"
  shows "\<exists>h'. ReplaceUsesWith h a (f x) = Some h' \<and> refines_on orc block r h h' \<and> unobserved cb h' \<and> replaced h a (f x) h'"
proof -
  note k = inst_inD [OF inst]
  obtain t where m: "opcode_meta (opc (h ! a)) = Some (t, [Type_U64, Type_U32, Type_AccType])" and iv: "imm_of t (f x)" "sval_ok t (imm_sval (f x))"
    and p: "GetTypeOf (opc (h ! a)) = Some t" "pure_sem (opc (h ! a)) = None" "\<not> reads_parent (opc (h ! a))" "\<not> MayHaveSideEffects (opc (h ! a))"
      "\<not> IsAPseudoOperation (opc (h ! a))" "opc (h ! a) \<noteq> ''Identity''" "opc (h ! a) \<noteq> ''Void''"
    by (rule memory_opcode [OF f])
  have ni: "\<forall>b. f x \<noteq> VInst b" "value_type (f x) = t" using iv(1) by (auto simp: imm_of_def)
  have ty: "GetType h (f x) = GetType h (VInst a)" using ni p(1,6) by (auto simp: GetType_def split: ir_value.splits)
  obtain h' where h': "ReplaceUsesWith h a (f x) = Some h'" "replaced h a (f x) h'" "wf_heap h' r"
    using ReplaceUsesWith_wf [OF k(1,4) _ p(6,7) _ ty] p(5) ni by (metis below_simps(2) storable_simps(2))
  have at: "opc (h' ! a) = ''Identity''" "args (h' ! a) = [f x, VEmpty, VEmpty, VEmpty]" "length h' = length h"
    and same: "\<And>b. b < length h \<Longrightarrow> b \<noteq> a \<Longrightarrow> opc (h' ! b) = opc (h ! b) \<and> args (h' ! b) = args (h ! b)"
    using h'(2) k(4) by (auto simp: replaced_def)
  have un': "unobserved cb h'" by (rule unobserved_replaced [OF un h'(2) k(1)])
  have quiet: "\<not> reads h' a q" for q
    using reads_mono [of h' r h a q] h'(3) at(3) k(4) same unobserved_reads [OF un f] by (auto simp: wf_heap_def)
  have "refines_on orc block r h h'"
  proof (rule refines_on_at [OF inst h'(3) at(3) same])
    show "c \<in> set block" if "VInst c \<in> set (args (h' ! a))" for c using that ni(1) by (auto simp: at(2) dest: sym)
    show "same_step (trace_exec orc) h h' \<rho> a" if e: "env_before h a D \<rho>" for D \<rho>
    proof -
      have "arg_values h \<rho> a ! 1 = S32 x"
        using operand_facts(5) [OF inst m, of 1] imm_slot [OF inst _ e x, of Type_U32] by (simp add: imm_sval_def)
      then have "rv (orc (opc (h ! a)) (arg_values h \<rho> a) s) = imm_sval (f x)" for s using law f ro by (simp add: reads_memory_def)
      then have "step_inst (trace_exec orc) h \<rho> s a = (orc (opc (h ! a)) (arg_values h \<rho> a) s, s)" for s
        using p iv(2) by (simp add: step_inst_def det_result_def Let_def trace_exec_def)
      moreover have "step_inst (trace_exec orc) h' \<rho> s a = (plain_result (imm_sval (f x)), s)" for s
        using at ni(1) by (simp add: step_inst_def det_result_def Let_def)
      ultimately show ?thesis
        using quiet \<open>\<And>s. rv (orc (opc (h ! a)) (arg_values h \<rho> a) s) = imm_sval (f x)\<close> by (simp add: same_step_def)
    qed
  qed auto
  with h'(1,2) un' show ?thesis by blast
qed

lemma constant_read_ok:
  assumes inst: "inst_in block r h a" and un: "unobserved cb h" and law: "reads_memory cb orc"
  shows "\<exists>h'. constant_read cb h a = Some h' \<and> refines_on orc block r h h' \<and> unobserved cb h'
    \<and> (h' = h \<and> \<not> foldable_read cb h a
       \<or> (\<exists>f x. memory_value cb (opc (h ! a)) = Some f \<and> IsReadOnlyMemory cb x \<and> replaced h a (f x) h'))"
proof (cases "memory_value cb (opc (h ! a))")
  case None
  then show ?thesis using un inst_inD [OF inst] by (simp add: constant_read_def refines_on_def foldable_read_def)
next
  case (Some f)
  note k = inst_inD [OF inst]
  obtain t where m: "opcode_meta (opc (h ! a)) = Some (t, [Type_U64, Type_U32, Type_AccType])" using memory_opcode [OF Some] by metis
  show ?thesis
  proof (cases "AreAllArgsImmediates h a = Some True")
    case False
    then have "AreAllArgsImmediates h a = Some False" using AreAllArgsImmediates_eq [OF k(1,4) m] by auto
    then show ?thesis using Some un k by (simp add: constant_read_def refines_on_def foldable_read_def)
  next
    case True
    have j: "1 < length [Type_U64, Type_U32, Type_AccType :: ir_type]" by simp
    have "\<not> nonimm h (args (h ! a) ! 1)" using AreAllArgsImmediates_eq [OF k(1,4) m] True j by auto
    then obtain x where x: "chase h (args (h ! a) ! 1) = Some (VU32 x)" using imm_arg [OF k(1,4) m j] by auto
    have g: "GetArg h a 1 = Some (args (h ! a) ! 1)" "GetU32 h (args (h ! a) ! 1) = Some x"
      using operand_facts(2) [OF inst m j] x by (simp_all add: GetU32_def)
    show ?thesis
    proof (cases "IsReadOnlyMemory cb x")
      case ro: True
      then show ?thesis using replace_read [OF inst un law Some ro x] Some True g by (fastforce simp: constant_read_def)
    next
      case False
      then show ?thesis using Some True g un k x by (simp add: constant_read_def refines_on_def foldable_read_def)
    qed
  qed
qed

lemma not_foldable_replaced:
  assumes "replaced h a v h'" "a < length h"
  shows "\<not> foldable_read cb h' a"
  using assms by (simp add: foldable_read_def replaced_def memory_value_def)

text \<open>Folding a later instruction does not change whether an earlier one can be folded.\<close>

lemma foldable_replaced:
  assumes "wf_heap h r" "wf_heap h' r" "replaced h b v h'" "c < length h" "r c < r b"
  shows "foldable_read cb h' c = foldable_read cb h c"
proof (cases "memory_value cb (opc (h ! c))")
  case None
  then show ?thesis using assms(3-5) by (auto simp: foldable_read_def replaced_def)
next
  case (Some f)
  obtain t where m: "opcode_meta (opc (h ! c)) = Some (t, [Type_U64, Type_U32, Type_AccType])" using memory_opcode [OF Some] by metis
  have same: "opc (h' ! c) = opc (h ! c)" "args (h' ! c) = args (h ! c)" "length h' = length h"
    using assms(3-5) by (auto simp: replaced_def)
  have "chase h' (args (h ! c) ! i) = chase h (args (h ! c) ! i)" if "i < 4" for i
  proof (rule chase_below_cong [of h r h' b])
    show "below h r (r b) (args (h ! c) ! i)" 
      using ranked_arg [of h r c i] that assms(1,4,5) by (auto simp: wf_heap_def intro: below_mono)
  qed (use assms(1,3) in \<open>auto simp: wf_heap_def replaced_def\<close>)
  then have ch: "chase h' (args (h ! c) ! i) = chase h (args (h ! c) ! i)" if "i < 3" for i using that by simp
  then have "AreAllArgsImmediates h' c = AreAllArgsImmediates h c"
    using AreAllArgsImmediates_eq [OF assms(1,4) m] AreAllArgsImmediates_eq [OF assms(2), of c t "[Type_U64, Type_U32, Type_AccType]"] assms(4) m same
    by (auto simp: nonimm_def)
  then show ?thesis using ch [of 1] by (simp add: foldable_read_def same)
qed

lemma kept_or_folded_trans:
  assumes "kept_or_folded cb h h1 c" "kept_or_folded cb h1 h2 c"
  shows "kept_or_folded cb h h2 c"
proof -
  have "memory_value cb ''Identity'' = None" by (simp add: memory_value_def)
  then show ?thesis using assms unfolding kept_or_folded_def by (elim disjE exE conjE) auto
qed

lemma constant_reads_ok:
  "wf_heap h r \<Longrightarrow> ordered block h r \<Longrightarrow> set as \<subseteq> set block \<Longrightarrow> sorted_wrt (\<lambda>a b. r a < r b) as \<Longrightarrow> unobserved cb h \<Longrightarrow> reads_memory cb orc
    \<Longrightarrow> \<exists>h'. constant_reads cb h as = Some h' \<and> refines_on orc block r h h' \<and> length h' = length h
      \<and> (\<forall>c<length h. kept_or_folded cb h h' c) \<and> (\<forall>c\<in>set as. \<not> foldable_read cb h' c)
      \<and> (\<forall>c<length h. (\<forall>b\<in>set as. r c < r b) \<longrightarrow> foldable_read cb h' c = foldable_read cb h c)"
proof (induction as arbitrary: h)
  case Nil
  then show ?case by (simp add: refines_on_def kept_or_folded_def)
next
  case (Cons a as)
  then have inst: "inst_in block r h a" by (simp add: inst_in_def)
  obtain h1 where h1: "constant_read cb h a = Some h1" "refines_on orc block r h h1" "unobserved cb h1"
    and step: "h1 = h \<and> \<not> foldable_read cb h a
       \<or> (\<exists>f x. memory_value cb (opc (h ! a)) = Some f \<and> IsReadOnlyMemory cb x \<and> replaced h a (f x) h1)"
    using constant_read_ok [OF inst Cons.prems(5,6)] by blast
  have wf1: "wf_heap h1 r" "ordered block h1 r" using h1(2) by (simp_all add: refines_on_def)
  have len: "length h1 = length h" using step by (auto simp: replaced_def)
  have done_a: "\<not> foldable_read cb h1 a" using step not_foldable_replaced inst_inD(4) [OF inst] by blast
  have kept: "kept_or_folded cb h h1 c" if "c < length h" for c
    using step that by (cases "c = a") (auto simp: kept_or_folded_def replaced_def)
  have early: "foldable_read cb h1 c = foldable_read cb h c" if "c < length h" "r c < r a" for c
    using step foldable_replaced [OF Cons.prems(1) wf1(1) _ that] by blast
  obtain h' where h': "constant_reads cb h1 as = Some h'" "refines_on orc block r h1 h'" "length h' = length h1"
    and IH: "\<forall>c<length h1. kept_or_folded cb h1 h' c" "\<forall>c\<in>set as. \<not> foldable_read cb h' c"
      "\<forall>c<length h1. (\<forall>b\<in>set as. r c < r b) \<longrightarrow> foldable_read cb h' c = foldable_read cb h1 c"
    using Cons.IH [OF wf1 _ _ h1(3) Cons.prems(6)] Cons.prems(3,4) by auto
  have "\<not> foldable_read cb h' a" using IH(3) done_a len inst_inD(4) [OF inst] Cons.prems(4) by simp
  moreover have "\<forall>c<length h. kept_or_folded cb h h' c" using kept_or_folded_trans [OF kept] IH(1) len by simp
  ultimately show ?case using h1(1,2) h' IH(2,3) len early by (auto simp: refines_on_def)
qed

text \<open>A read at a constant address, written to a register, on a machine whose memory holds 7 everywhere.\<close>

definition memory_block :: heap where
  "memory_block =
    [(new_inst ''A32ReadMemory32'')\<lparr>args := [VU64 0, VU32 16, VAccType NORMAL, VEmpty], use_count := 1\<rparr>,
     (new_inst ''A32SetRegister'')\<lparr>args := [VA32Reg 0, VInst 0, VEmpty, VEmpty]\<rparr>]"

definition sevens :: user_callbacks where
  "sevens = \<lparr>IsReadOnlyMemory = (\<lambda>_. True), MemoryRead8 = (\<lambda>_. 7), MemoryRead16 = (\<lambda>_. 7), MemoryRead32 = (\<lambda>_. 7), MemoryRead64 = (\<lambda>_. 7)\<rparr>"

definition memory_machine :: "user_callbacks \<Rightarrow> opcode \<Rightarrow> sval list \<Rightarrow> trace \<Rightarrow> result" where
  "memory_machine cb p vs s = plain_result (case memory_value cb p of Some f \<Rightarrow> imm_sval (f (as32 (vs ! 1))) | None \<Rightarrow> SVoid)"

lemma memory_block_wf: "wf_heap memory_block id"
proof -
  have all: "(\<forall>i<length memory_block. P i) \<longleftrightarrow> P 0 \<and> P (Suc 0)" for P by (auto simp: memory_block_def less_Suc_eq)
  have two: "(\<forall>i<Suc (Suc 0). P i) \<longleftrightarrow> P 0 \<and> P (Suc 0)" for P by (auto simp: less_Suc_eq)
  have three: "(\<forall>i<Suc (Suc (Suc 0)). P i) \<longleftrightarrow> P 0 \<and> P (Suc 0) \<and> P 2" for P by (auto simp: less_Suc_eq numeral_2_eq_2)
  have m: "opcode_meta ''A32SetRegister'' = Some (Type_Void, [Type_A32Reg, Type_U32])"
    by (simp add: opcode_meta_def [unfolded opcode_info_def] table_lookup_append group_lookup cong: table_lookup_weak_cong option.case_cong_weak)
  have "ranked memory_block id" unfolding ranked_alt all by (simp add: memory_block_def new_inst_def max_arg_count_def)
  moreover have "counted memory_block" unfolding counted_def all
    by (simp add: memory_block_def new_inst_def max_arg_count_def slots_def nonimm_def chase_def IsIdentity_def)
  moreover have "typed memory_block" unfolding typed_def all
    by (simp add: args_typed_def memory_block_def new_inst_def max_arg_count_def memory_metas m two three all_less_4 del: All_less_Suc)
      (simp add: arg_ok_def GetType_def chase_def chase_fuel.simps IsIdentity_def AreTypesCompatible_def GetTypeOf_def memory_metas)
  moreover have np: "\<forall>i<length memory_block. \<not> IsAPseudoOperation (opc (memory_block ! i)) \<and> next_pseudoop (memory_block ! i) = None"
    unfolding all by (simp add: memory_block_def new_inst_def IsAPseudoOperation_def)
  then have "\<not> observes memory_block b d" for b d by (auto simp: observes_def)
  then have "chained memory_block" using np unfolding chained_def chain_ok_def by auto
  ultimately show ?thesis by (simp add: wf_heap_def memory_block_def)
qed

text \<open>
  C5. Constant memory reads are folded, and folded correctly.  Take a well-formed block in
  which no pseudo-operation asks a memory read for flags.  The pass meets no failing assertion,
  keeps the pool well formed and the block in order.  Every instruction is either kept, or is a
  memory read that has become an alias of what the user's callback returns for a read-only
  address; afterwards no read with constant operands and a read-only address is left in the
  block.  The block performs the same side effects as before on every machine whose reads of
  read-only memory return what the user's callbacks return.
\<close>

theorem A32ConstantMemoryReads_correct:
  assumes "wf_heap h r" "ordered block h r" "unobserved cb h" "reads_memory cb orc"
  shows "\<exists>h'. A32ConstantMemoryReads cb h block = Some h' \<and> wf_heap h' r \<and> ordered block h' r
    \<and> (\<forall>a<length h. kept_or_folded cb h h' a) \<and> (\<forall>a\<in>set block. \<not> foldable_read cb h' a)
    \<and> (\<forall>\<rho> s. snd (run (trace_exec orc) h' block (\<rho>, s)) = snd (run (trace_exec orc) h block (\<rho>, s)))"
  using constant_reads_ok [OF assms(1,2) subset_refl _ assms(3,4)] assms(2)
  by (auto simp: A32ConstantMemoryReads_def refines_on_def ordered_def)

theorem A32ConstantMemoryReads_correct_witness:
  "\<exists>h'. A32ConstantMemoryReads sevens memory_block [0, 1] = Some h' \<and> wf_heap h' id \<and> \<not> foldable_read sevens h' 0
    \<and> (\<forall>\<rho> s. snd (run (trace_exec (memory_machine sevens)) h' [0, 1] (\<rho>, s))
        = snd (run (trace_exec (memory_machine sevens)) memory_block [0, 1] (\<rho>, s)))"
proof -
  have "ordered [0, 1] memory_block id"
    by (auto simp: ordered_def closed_under_args_def memory_block_def new_inst_def max_arg_count_def)
  moreover have "unobserved sevens memory_block"
    by (auto simp: unobserved_def list_all_iff memory_block_def new_inst_def reads_parent_def less_Suc_eq)
  moreover have "reads_memory sevens (memory_machine sevens)" by (auto simp: reads_memory_def memory_machine_def)
  ultimately show ?thesis using A32ConstantMemoryReads_correct [OF memory_block_wf, of "[0, 1]" sevens "memory_machine sevens"] by auto
qed

end
