(* ===== verification/Status_Registers.thy ===== *)
theory Status_Registers
  imports Bit_Util IR_Types
begin

text \<open>
  The status and control registers the translators and the runtime pass around as packed
  words: the If-Then state and the program status register of AArch32
  (\<^verbatim>\<open>frontend/A32/ITState.h\<close>, \<^verbatim>\<open>frontend/A32/PSR.h\<close>), the AArch32 floating point status and
  control register (\<^verbatim>\<open>frontend/A32/FPSCR.h\<close>) and the AArch64 control and status registers
  (\<^verbatim>\<open>common/fp/fpcr.h\<close>, \<^verbatim>\<open>common/fp/fpsr.h\<close>).  Each class holds one word; its accessors are
  definitions on that word, its constructor clears the reserved bits, and its setters
  are shown to keep them clear and to change no other field.
\<close>

section \<open>If-Then state (ITState.h)\<close>

type_synonym ITState = u8

definition conds :: "cond list" where
  "conds = [EQ, NE, CS, CC, MI, PL, VS, VC, HI, LS, GE, LT, GT, LE, AL, NV]"

definition ITState_Cond :: "ITState \<Rightarrow> cond" where
  "ITState_Cond v = (if v = 0 then AL else conds ! unat (get_bits 4 7 v))"

definition ITState_IsInITBlock :: "ITState \<Rightarrow> bool" where
  "ITState_IsInITBlock v \<longleftrightarrow> get_bits 0 3 v \<noteq> 0"

definition ITState_IsLastInITBlock :: "ITState \<Rightarrow> bool" where
  "ITState_IsLastInITBlock v \<longleftrightarrow> get_bits 0 3 v = 0b1000"

definition ITState_Advance :: "ITState \<Rightarrow> ITState" where
  "ITState_Advance v =
     (if get_bits 0 2 v = 0 then 0 else set_bits_mcl 0 4 v (push_bit 1 (get_bits 0 4 v)))"


section \<open>Program status register (PSR.h)\<close>

type_synonym PSR = u32

datatype PSR_Mode = Mode_User | Mode_FIQ | Mode_IRQ | Mode_Supervisor | Mode_Monitor | Mode_Abort | Mode_Hypervisor
  | Mode_Undefined | Mode_System

primrec PSR_Mode_value :: "PSR_Mode \<Rightarrow> u32" where
  "PSR_Mode_value Mode_User = 0b10000"
| "PSR_Mode_value Mode_FIQ = 0b10001"
| "PSR_Mode_value Mode_IRQ = 0b10010"
| "PSR_Mode_value Mode_Supervisor = 0b10011"
| "PSR_Mode_value Mode_Monitor = 0b10110"
| "PSR_Mode_value Mode_Abort = 0b10111"
| "PSR_Mode_value Mode_Hypervisor = 0b11010"
| "PSR_Mode_value Mode_Undefined = 0b11011"
| "PSR_Mode_value Mode_System = 0b11111"

datatype InstructionSet = ARM | Jazelle | Thumb | ThumbEE

definition PSR_mask :: u32 where
  "PSR_mask = 0xFF0FFFFF"

definition PSR_make :: "u32 \<Rightarrow> PSR" where
  "PSR_make data = data AND PSR_mask"

definition PSR_N :: "PSR \<Rightarrow> bool" where
  "PSR_N v = get_bit 31 v"

definition PSR_set_N :: "PSR \<Rightarrow> bool \<Rightarrow> PSR" where
  "PSR_set_N v b = set_bit_mcl 31 v b"

definition PSR_Z :: "PSR \<Rightarrow> bool" where
  "PSR_Z v = get_bit 30 v"

definition PSR_set_Z :: "PSR \<Rightarrow> bool \<Rightarrow> PSR" where
  "PSR_set_Z v b = set_bit_mcl 30 v b"

definition PSR_C :: "PSR \<Rightarrow> bool" where
  "PSR_C v = get_bit 29 v"

definition PSR_set_C :: "PSR \<Rightarrow> bool \<Rightarrow> PSR" where
  "PSR_set_C v b = set_bit_mcl 29 v b"

definition PSR_V :: "PSR \<Rightarrow> bool" where
  "PSR_V v = get_bit 28 v"

definition PSR_set_V :: "PSR \<Rightarrow> bool \<Rightarrow> PSR" where
  "PSR_set_V v b = set_bit_mcl 28 v b"

definition PSR_Q :: "PSR \<Rightarrow> bool" where
  "PSR_Q v = get_bit 27 v"

definition PSR_set_Q :: "PSR \<Rightarrow> bool \<Rightarrow> PSR" where
  "PSR_set_Q v b = set_bit_mcl 27 v b"

definition PSR_J :: "PSR \<Rightarrow> bool" where
  "PSR_J v = get_bit 24 v"

definition PSR_set_J :: "PSR \<Rightarrow> bool \<Rightarrow> PSR" where
  "PSR_set_J v b = set_bit_mcl 24 v b"

definition PSR_E :: "PSR \<Rightarrow> bool" where
  "PSR_E v = get_bit 9 v"

definition PSR_set_E :: "PSR \<Rightarrow> bool \<Rightarrow> PSR" where
  "PSR_set_E v b = set_bit_mcl 9 v b"

definition PSR_A :: "PSR \<Rightarrow> bool" where
  "PSR_A v = get_bit 8 v"

definition PSR_set_A :: "PSR \<Rightarrow> bool \<Rightarrow> PSR" where
  "PSR_set_A v b = set_bit_mcl 8 v b"

definition PSR_I :: "PSR \<Rightarrow> bool" where
  "PSR_I v = get_bit 7 v"

definition PSR_set_I :: "PSR \<Rightarrow> bool \<Rightarrow> PSR" where
  "PSR_set_I v b = set_bit_mcl 7 v b"

definition PSR_F :: "PSR \<Rightarrow> bool" where
  "PSR_F v = get_bit 6 v"

definition PSR_set_F :: "PSR \<Rightarrow> bool \<Rightarrow> PSR" where
  "PSR_set_F v b = set_bit_mcl 6 v b"

definition PSR_T :: "PSR \<Rightarrow> bool" where
  "PSR_T v = get_bit 5 v"

definition PSR_set_T :: "PSR \<Rightarrow> bool \<Rightarrow> PSR" where
  "PSR_set_T v b = set_bit_mcl 5 v b"

definition PSR_GE :: "PSR \<Rightarrow> u32" where
  "PSR_GE v = get_bits 16 19 v"

definition PSR_set_GE :: "PSR \<Rightarrow> u32 \<Rightarrow> PSR" where
  "PSR_set_GE v data = set_bits_mcl 16 19 v data"

definition PSR_IT :: "PSR \<Rightarrow> ITState" where
  "PSR_IT v = ucast (drop_bit 25 (v AND 0x6000000) OR drop_bit 8 (v AND 0xFC00))"

definition PSR_set_IT :: "PSR \<Rightarrow> ITState \<Rightarrow> PSR" where
  "PSR_set_IT v it_state =
     (let data = (ucast it_state :: u32);
          v' = (v AND NOT 0x000FC00) OR push_bit 8 (data AND 0b11111100)
      in (v' AND NOT 0x6000000) OR push_bit 25 (data AND 0b00000011))"

definition PSR_M :: "PSR \<Rightarrow> u32" where
  "PSR_M v = get_bits 0 4 v"

definition PSR_set_M :: "PSR \<Rightarrow> PSR_Mode \<Rightarrow> PSR" where
  "PSR_set_M v m = set_bits_mcl 0 4 v (PSR_Mode_value m)"

definition PSR_CurrentInstructionSet :: "PSR \<Rightarrow> InstructionSet" where
  "PSR_CurrentInstructionSet v =
     (let j_bit = PSR_J v; t_bit = PSR_T v
      in if j_bit \<and> t_bit then ThumbEE else if t_bit then Thumb else if j_bit then Jazelle else ARM)"

primrec PSR_set_CurrentInstructionSet :: "PSR \<Rightarrow> InstructionSet \<Rightarrow> PSR" where
  "PSR_set_CurrentInstructionSet v ARM = PSR_set_J (PSR_set_T v False) False"
| "PSR_set_CurrentInstructionSet v Jazelle = PSR_set_J (PSR_set_T v False) True"
| "PSR_set_CurrentInstructionSet v Thumb = PSR_set_J (PSR_set_T v True) False"
| "PSR_set_CurrentInstructionSet v ThumbEE = PSR_set_J (PSR_set_T v True) True"

section \<open>Rounding modes (rounding_mode.h)\<close>

datatype RoundingMode = ToNearest_TieEven | TowardsPlusInfinity | TowardsMinusInfinity | TowardsZero
  | ToNearest_TieAwayFromZero | ToOdd

primrec RoundingMode_value :: "RoundingMode \<Rightarrow> u32" where
  "RoundingMode_value ToNearest_TieEven = 0"
| "RoundingMode_value TowardsPlusInfinity = 1"
| "RoundingMode_value TowardsMinusInfinity = 2"
| "RoundingMode_value TowardsZero = 3"
| "RoundingMode_value ToNearest_TieAwayFromZero = 4"
| "RoundingMode_value ToOdd = 5"

text \<open>The cast of a two-bit field to the enumeration.\<close>

definition RoundingMode_of_bits :: "u32 \<Rightarrow> RoundingMode" where
  "RoundingMode_of_bits b = (if b = 0 then ToNearest_TieEven else if b = 1 then TowardsPlusInfinity
     else if b = 2 then TowardsMinusInfinity else TowardsZero)"

section \<open>AArch32 floating point status and control register (FPSCR.h)\<close>

type_synonym FPSCR = u32

definition FPSCR_mask :: u32 where
  "FPSCR_mask = 0xFFF79F9F"

definition FPSCR_make :: "u32 \<Rightarrow> FPSCR" where
  "FPSCR_make data = data AND FPSCR_mask"

definition FPSCR_N :: "FPSCR \<Rightarrow> bool" where
  "FPSCR_N v = get_bit 31 v"

definition FPSCR_Z :: "FPSCR \<Rightarrow> bool" where
  "FPSCR_Z v = get_bit 30 v"

definition FPSCR_C :: "FPSCR \<Rightarrow> bool" where
  "FPSCR_C v = get_bit 29 v"

definition FPSCR_V :: "FPSCR \<Rightarrow> bool" where
  "FPSCR_V v = get_bit 28 v"

definition FPSCR_QC :: "FPSCR \<Rightarrow> bool" where
  "FPSCR_QC v = get_bit 27 v"

definition FPSCR_AHP :: "FPSCR \<Rightarrow> bool" where
  "FPSCR_AHP v = get_bit 26 v"

definition FPSCR_DN :: "FPSCR \<Rightarrow> bool" where
  "FPSCR_DN v = get_bit 25 v"

definition FPSCR_FTZ :: "FPSCR \<Rightarrow> bool" where
  "FPSCR_FTZ v = get_bit 24 v"

definition FPSCR_IDE :: "FPSCR \<Rightarrow> bool" where
  "FPSCR_IDE v = get_bit 15 v"

definition FPSCR_IXE :: "FPSCR \<Rightarrow> bool" where
  "FPSCR_IXE v = get_bit 12 v"

definition FPSCR_UFE :: "FPSCR \<Rightarrow> bool" where
  "FPSCR_UFE v = get_bit 11 v"

definition FPSCR_OFE :: "FPSCR \<Rightarrow> bool" where
  "FPSCR_OFE v = get_bit 10 v"

definition FPSCR_DZE :: "FPSCR \<Rightarrow> bool" where
  "FPSCR_DZE v = get_bit 9 v"

definition FPSCR_IOE :: "FPSCR \<Rightarrow> bool" where
  "FPSCR_IOE v = get_bit 8 v"

definition FPSCR_IDC :: "FPSCR \<Rightarrow> bool" where
  "FPSCR_IDC v = get_bit 7 v"

definition FPSCR_IXC :: "FPSCR \<Rightarrow> bool" where
  "FPSCR_IXC v = get_bit 4 v"

definition FPSCR_UFC :: "FPSCR \<Rightarrow> bool" where
  "FPSCR_UFC v = get_bit 3 v"

definition FPSCR_OFC :: "FPSCR \<Rightarrow> bool" where
  "FPSCR_OFC v = get_bit 2 v"

definition FPSCR_DZC :: "FPSCR \<Rightarrow> bool" where
  "FPSCR_DZC v = get_bit 1 v"

definition FPSCR_IOC :: "FPSCR \<Rightarrow> bool" where
  "FPSCR_IOC v = get_bit 0 v"

definition FPSCR_RMode :: "FPSCR \<Rightarrow> RoundingMode" where
  "FPSCR_RMode v = RoundingMode_of_bits (get_bits 22 23 v)"

definition FPSCR_Stride :: "FPSCR \<Rightarrow> nat option" where
  "FPSCR_Stride v = (let b = get_bits 20 21 v in if b = 0 then Some 1 else if b = 3 then Some 2 else None)"

definition FPSCR_Len :: "FPSCR \<Rightarrow> nat" where
  "FPSCR_Len v = unat (get_bits 16 18 v) + 1"

definition FPSCR_InRunFastMode :: "FPSCR \<Rightarrow> bool" where
  "FPSCR_InRunFastMode v \<longleftrightarrow> v AND 0x03001F00 = 0x03000000"

section \<open>Floating point control register (fpcr.h)\<close>

type_synonym FPCR = u32

definition FPCR_mask :: u32 where
  "FPCR_mask = 0x07FF9F00"

definition FPCR_make :: "u32 \<Rightarrow> FPCR" where
  "FPCR_make data = data AND FPCR_mask"

definition FPCR_AHP :: "FPCR \<Rightarrow> bool" where
  "FPCR_AHP v = get_bit 26 v"

definition FPCR_set_AHP :: "FPCR \<Rightarrow> bool \<Rightarrow> FPCR" where
  "FPCR_set_AHP v b = set_bit_mcl 26 v b"

definition FPCR_DN :: "FPCR \<Rightarrow> bool" where
  "FPCR_DN v = get_bit 25 v"

definition FPCR_set_DN :: "FPCR \<Rightarrow> bool \<Rightarrow> FPCR" where
  "FPCR_set_DN v b = set_bit_mcl 25 v b"

definition FPCR_FZ :: "FPCR \<Rightarrow> bool" where
  "FPCR_FZ v = get_bit 24 v"

definition FPCR_set_FZ :: "FPCR \<Rightarrow> bool \<Rightarrow> FPCR" where
  "FPCR_set_FZ v b = set_bit_mcl 24 v b"

definition FPCR_FZ16 :: "FPCR \<Rightarrow> bool" where
  "FPCR_FZ16 v = get_bit 19 v"

definition FPCR_set_FZ16 :: "FPCR \<Rightarrow> bool \<Rightarrow> FPCR" where
  "FPCR_set_FZ16 v b = set_bit_mcl 19 v b"

definition FPCR_IDE :: "FPCR \<Rightarrow> bool" where
  "FPCR_IDE v = get_bit 15 v"

definition FPCR_set_IDE :: "FPCR \<Rightarrow> bool \<Rightarrow> FPCR" where
  "FPCR_set_IDE v b = set_bit_mcl 15 v b"

definition FPCR_IXE :: "FPCR \<Rightarrow> bool" where
  "FPCR_IXE v = get_bit 12 v"

definition FPCR_set_IXE :: "FPCR \<Rightarrow> bool \<Rightarrow> FPCR" where
  "FPCR_set_IXE v b = set_bit_mcl 12 v b"

definition FPCR_UFE :: "FPCR \<Rightarrow> bool" where
  "FPCR_UFE v = get_bit 11 v"

definition FPCR_set_UFE :: "FPCR \<Rightarrow> bool \<Rightarrow> FPCR" where
  "FPCR_set_UFE v b = set_bit_mcl 11 v b"

definition FPCR_OFE :: "FPCR \<Rightarrow> bool" where
  "FPCR_OFE v = get_bit 10 v"

definition FPCR_set_OFE :: "FPCR \<Rightarrow> bool \<Rightarrow> FPCR" where
  "FPCR_set_OFE v b = set_bit_mcl 10 v b"

definition FPCR_DZE :: "FPCR \<Rightarrow> bool" where
  "FPCR_DZE v = get_bit 9 v"

definition FPCR_set_DZE :: "FPCR \<Rightarrow> bool \<Rightarrow> FPCR" where
  "FPCR_set_DZE v b = set_bit_mcl 9 v b"

definition FPCR_IOE :: "FPCR \<Rightarrow> bool" where
  "FPCR_IOE v = get_bit 8 v"

definition FPCR_set_IOE :: "FPCR \<Rightarrow> bool \<Rightarrow> FPCR" where
  "FPCR_set_IOE v b = set_bit_mcl 8 v b"

definition FPCR_RMode :: "FPCR \<Rightarrow> RoundingMode" where
  "FPCR_RMode v = RoundingMode_of_bits (get_bits 22 23 v)"

definition FPCR_Stride :: "FPCR \<Rightarrow> nat option" where
  "FPCR_Stride v = (let b = get_bits 20 21 v in if b = 0 then Some 1 else if b = 3 then Some 2 else None)"

definition FPCR_Len :: "FPCR \<Rightarrow> nat" where
  "FPCR_Len v = unat (get_bits 16 18 v) + 1"

text \<open>The setters of the fields check their argument.\<close>

definition FPCR_set_RMode :: "FPCR \<Rightarrow> RoundingMode \<Rightarrow> FPCR option" where
  "FPCR_set_RMode v m =
     (if RoundingMode_value m \<le> 3 then Some (set_bits_mcl 22 23 v (RoundingMode_value m)) else None)"

definition FPCR_set_Stride :: "FPCR \<Rightarrow> nat \<Rightarrow> FPCR option" where
  "FPCR_set_Stride v stride =
     (if 1 \<le> stride \<and> stride \<le> 2 then Some (set_bits_mcl 20 21 v (if stride = 1 then 0 else 3)) else None)"

definition FPCR_set_Len :: "FPCR \<Rightarrow> nat \<Rightarrow> FPCR option" where
  "FPCR_set_Len v len =
     (if 1 \<le> len \<and> len \<le> 8 then Some (set_bits_mcl 16 18 v (of_nat (len - 1))) else None)"

definition FPCR_ASIMDStandardValue :: "FPCR \<Rightarrow> FPCR" where
  "FPCR_ASIMDStandardValue v =
     FPCR_set_DN (FPCR_set_FZ (FPCR_set_FZ16 (FPCR_set_AHP 0 (FPCR_AHP v)) (FPCR_FZ16 v)) True) True"

section \<open>Floating point status register (fpsr.h)\<close>

type_synonym FPSR = u32

definition FPSR_mask :: u32 where
  "FPSR_mask = 0xF800009F"

definition FPSR_make :: "u32 \<Rightarrow> FPSR" where
  "FPSR_make data = data AND FPSR_mask"

definition FPSR_N :: "FPSR \<Rightarrow> bool" where
  "FPSR_N v = get_bit 31 v"

definition FPSR_set_N :: "FPSR \<Rightarrow> bool \<Rightarrow> FPSR" where
  "FPSR_set_N v b = set_bit_mcl 31 v b"

definition FPSR_Z :: "FPSR \<Rightarrow> bool" where
  "FPSR_Z v = get_bit 30 v"

definition FPSR_set_Z :: "FPSR \<Rightarrow> bool \<Rightarrow> FPSR" where
  "FPSR_set_Z v b = set_bit_mcl 30 v b"

definition FPSR_C :: "FPSR \<Rightarrow> bool" where
  "FPSR_C v = get_bit 29 v"

definition FPSR_set_C :: "FPSR \<Rightarrow> bool \<Rightarrow> FPSR" where
  "FPSR_set_C v b = set_bit_mcl 29 v b"

definition FPSR_V :: "FPSR \<Rightarrow> bool" where
  "FPSR_V v = get_bit 28 v"

definition FPSR_set_V :: "FPSR \<Rightarrow> bool \<Rightarrow> FPSR" where
  "FPSR_set_V v b = set_bit_mcl 28 v b"

definition FPSR_QC :: "FPSR \<Rightarrow> bool" where
  "FPSR_QC v = get_bit 27 v"

definition FPSR_set_QC :: "FPSR \<Rightarrow> bool \<Rightarrow> FPSR" where
  "FPSR_set_QC v b = set_bit_mcl 27 v b"

definition FPSR_IDC :: "FPSR \<Rightarrow> bool" where
  "FPSR_IDC v = get_bit 7 v"

definition FPSR_set_IDC :: "FPSR \<Rightarrow> bool \<Rightarrow> FPSR" where
  "FPSR_set_IDC v b = set_bit_mcl 7 v b"

definition FPSR_IXC :: "FPSR \<Rightarrow> bool" where
  "FPSR_IXC v = get_bit 4 v"

definition FPSR_set_IXC :: "FPSR \<Rightarrow> bool \<Rightarrow> FPSR" where
  "FPSR_set_IXC v b = set_bit_mcl 4 v b"

definition FPSR_UFC :: "FPSR \<Rightarrow> bool" where
  "FPSR_UFC v = get_bit 3 v"

definition FPSR_set_UFC :: "FPSR \<Rightarrow> bool \<Rightarrow> FPSR" where
  "FPSR_set_UFC v b = set_bit_mcl 3 v b"

definition FPSR_OFC :: "FPSR \<Rightarrow> bool" where
  "FPSR_OFC v = get_bit 2 v"

definition FPSR_set_OFC :: "FPSR \<Rightarrow> bool \<Rightarrow> FPSR" where
  "FPSR_set_OFC v b = set_bit_mcl 2 v b"

definition FPSR_DZC :: "FPSR \<Rightarrow> bool" where
  "FPSR_DZC v = get_bit 1 v"

definition FPSR_set_DZC :: "FPSR \<Rightarrow> bool \<Rightarrow> FPSR" where
  "FPSR_set_DZC v b = set_bit_mcl 1 v b"

definition FPSR_IOC :: "FPSR \<Rightarrow> bool" where
  "FPSR_IOC v = get_bit 0 v"

definition FPSR_set_IOC :: "FPSR \<Rightarrow> bool \<Rightarrow> FPSR" where
  "FPSR_set_IOC v b = set_bit_mcl 0 v b"

section \<open>Flags of a register\<close>

text \<open>
  The contract of a one-bit field: the getter reads one bit of the word and the setter
  changes that bit only.  A field outside the reserved bits keeps the register valid.
\<close>

locale register_flag =
  fixes pos :: nat and valid_mask :: u32 and get :: "u32 \<Rightarrow> bool" and put :: "u32 \<Rightarrow> bool \<Rightarrow> u32"
  assumes get_bit_pos: "get v \<longleftrightarrow> bit v pos"
    and bit_set: "bit (put v b) n \<longleftrightarrow> (if n = pos then b else bit v n)"
    and in_mask: "bit valid_mask pos"
begin

lemma get_set: "get (put v b) = b"
  by (simp add: get_bit_pos bit_set)

lemma set_get: "put v (get v) = v"
  by (rule bit_word_eqI) (simp add: get_bit_pos bit_set)

lemma set_set: "put (put v b) c = put v c"
  by (rule bit_word_eqI) (simp add: bit_set)

lemma keeps_valid: "v AND valid_mask = v \<Longrightarrow> put v b AND valid_mask = put v b"
proof (rule bit_word_eqI)
  fix n assume "v AND valid_mask = v" "n < LENGTH(32)"
  then have "bit v n \<Longrightarrow> bit valid_mask n" by (metis bit_and_iff)
  then show "bit (put v b AND valid_mask) n = bit (put v b) n" using in_mask by (auto simp: bit_and_iff bit_set)
qed

end


interpretation PSR_N_flag: register_flag 31 PSR_mask PSR_N PSR_set_N
  by unfold_locales (simp_all add: PSR_N_def PSR_set_N_def PSR_mask_def umbra_bits)

interpretation PSR_Z_flag: register_flag 30 PSR_mask PSR_Z PSR_set_Z
  by unfold_locales (simp_all add: PSR_Z_def PSR_set_Z_def PSR_mask_def umbra_bits)

interpretation PSR_C_flag: register_flag 29 PSR_mask PSR_C PSR_set_C
  by unfold_locales (simp_all add: PSR_C_def PSR_set_C_def PSR_mask_def umbra_bits)

interpretation PSR_V_flag: register_flag 28 PSR_mask PSR_V PSR_set_V
  by unfold_locales (simp_all add: PSR_V_def PSR_set_V_def PSR_mask_def umbra_bits)

interpretation PSR_Q_flag: register_flag 27 PSR_mask PSR_Q PSR_set_Q
  by unfold_locales (simp_all add: PSR_Q_def PSR_set_Q_def PSR_mask_def umbra_bits)

interpretation PSR_J_flag: register_flag 24 PSR_mask PSR_J PSR_set_J
  by unfold_locales (simp_all add: PSR_J_def PSR_set_J_def PSR_mask_def umbra_bits)

interpretation PSR_E_flag: register_flag 9 PSR_mask PSR_E PSR_set_E
  by unfold_locales (simp_all add: PSR_E_def PSR_set_E_def PSR_mask_def umbra_bits)

interpretation PSR_A_flag: register_flag 8 PSR_mask PSR_A PSR_set_A
  by unfold_locales (simp_all add: PSR_A_def PSR_set_A_def PSR_mask_def umbra_bits)

interpretation PSR_I_flag: register_flag 7 PSR_mask PSR_I PSR_set_I
  by unfold_locales (simp_all add: PSR_I_def PSR_set_I_def PSR_mask_def umbra_bits)

interpretation PSR_F_flag: register_flag 6 PSR_mask PSR_F PSR_set_F
  by unfold_locales (simp_all add: PSR_F_def PSR_set_F_def PSR_mask_def umbra_bits)

interpretation PSR_T_flag: register_flag 5 PSR_mask PSR_T PSR_set_T
  by unfold_locales (simp_all add: PSR_T_def PSR_set_T_def PSR_mask_def umbra_bits)

interpretation FPCR_AHP_flag: register_flag 26 FPCR_mask FPCR_AHP FPCR_set_AHP
  by unfold_locales (simp_all add: FPCR_AHP_def FPCR_set_AHP_def FPCR_mask_def umbra_bits)

interpretation FPCR_DN_flag: register_flag 25 FPCR_mask FPCR_DN FPCR_set_DN
  by unfold_locales (simp_all add: FPCR_DN_def FPCR_set_DN_def FPCR_mask_def umbra_bits)

interpretation FPCR_FZ_flag: register_flag 24 FPCR_mask FPCR_FZ FPCR_set_FZ
  by unfold_locales (simp_all add: FPCR_FZ_def FPCR_set_FZ_def FPCR_mask_def umbra_bits)

interpretation FPCR_FZ16_flag: register_flag 19 FPCR_mask FPCR_FZ16 FPCR_set_FZ16
  by unfold_locales (simp_all add: FPCR_FZ16_def FPCR_set_FZ16_def FPCR_mask_def umbra_bits)

interpretation FPCR_IDE_flag: register_flag 15 FPCR_mask FPCR_IDE FPCR_set_IDE
  by unfold_locales (simp_all add: FPCR_IDE_def FPCR_set_IDE_def FPCR_mask_def umbra_bits)

interpretation FPCR_IXE_flag: register_flag 12 FPCR_mask FPCR_IXE FPCR_set_IXE
  by unfold_locales (simp_all add: FPCR_IXE_def FPCR_set_IXE_def FPCR_mask_def umbra_bits)

interpretation FPCR_UFE_flag: register_flag 11 FPCR_mask FPCR_UFE FPCR_set_UFE
  by unfold_locales (simp_all add: FPCR_UFE_def FPCR_set_UFE_def FPCR_mask_def umbra_bits)

interpretation FPCR_OFE_flag: register_flag 10 FPCR_mask FPCR_OFE FPCR_set_OFE
  by unfold_locales (simp_all add: FPCR_OFE_def FPCR_set_OFE_def FPCR_mask_def umbra_bits)

interpretation FPCR_DZE_flag: register_flag 9 FPCR_mask FPCR_DZE FPCR_set_DZE
  by unfold_locales (simp_all add: FPCR_DZE_def FPCR_set_DZE_def FPCR_mask_def umbra_bits)

interpretation FPCR_IOE_flag: register_flag 8 FPCR_mask FPCR_IOE FPCR_set_IOE
  by unfold_locales (simp_all add: FPCR_IOE_def FPCR_set_IOE_def FPCR_mask_def umbra_bits)

interpretation FPSR_N_flag: register_flag 31 FPSR_mask FPSR_N FPSR_set_N
  by unfold_locales (simp_all add: FPSR_N_def FPSR_set_N_def FPSR_mask_def umbra_bits)

interpretation FPSR_Z_flag: register_flag 30 FPSR_mask FPSR_Z FPSR_set_Z
  by unfold_locales (simp_all add: FPSR_Z_def FPSR_set_Z_def FPSR_mask_def umbra_bits)

interpretation FPSR_C_flag: register_flag 29 FPSR_mask FPSR_C FPSR_set_C
  by unfold_locales (simp_all add: FPSR_C_def FPSR_set_C_def FPSR_mask_def umbra_bits)

interpretation FPSR_V_flag: register_flag 28 FPSR_mask FPSR_V FPSR_set_V
  by unfold_locales (simp_all add: FPSR_V_def FPSR_set_V_def FPSR_mask_def umbra_bits)

interpretation FPSR_QC_flag: register_flag 27 FPSR_mask FPSR_QC FPSR_set_QC
  by unfold_locales (simp_all add: FPSR_QC_def FPSR_set_QC_def FPSR_mask_def umbra_bits)

interpretation FPSR_IDC_flag: register_flag 7 FPSR_mask FPSR_IDC FPSR_set_IDC
  by unfold_locales (simp_all add: FPSR_IDC_def FPSR_set_IDC_def FPSR_mask_def umbra_bits)

interpretation FPSR_IXC_flag: register_flag 4 FPSR_mask FPSR_IXC FPSR_set_IXC
  by unfold_locales (simp_all add: FPSR_IXC_def FPSR_set_IXC_def FPSR_mask_def umbra_bits)

interpretation FPSR_UFC_flag: register_flag 3 FPSR_mask FPSR_UFC FPSR_set_UFC
  by unfold_locales (simp_all add: FPSR_UFC_def FPSR_set_UFC_def FPSR_mask_def umbra_bits)

interpretation FPSR_OFC_flag: register_flag 2 FPSR_mask FPSR_OFC FPSR_set_OFC
  by unfold_locales (simp_all add: FPSR_OFC_def FPSR_set_OFC_def FPSR_mask_def umbra_bits)

interpretation FPSR_DZC_flag: register_flag 1 FPSR_mask FPSR_DZC FPSR_set_DZC
  by unfold_locales (simp_all add: FPSR_DZC_def FPSR_set_DZC_def FPSR_mask_def umbra_bits)

interpretation FPSR_IOC_flag: register_flag 0 FPSR_mask FPSR_IOC FPSR_set_IOC
  by unfold_locales (simp_all add: FPSR_IOC_def FPSR_set_IOC_def FPSR_mask_def umbra_bits)

lemmas PSR_flag_bits =
  PSR_N_flag.get_bit_pos PSR_N_flag.bit_set
  PSR_Z_flag.get_bit_pos PSR_Z_flag.bit_set
  PSR_C_flag.get_bit_pos PSR_C_flag.bit_set
  PSR_V_flag.get_bit_pos PSR_V_flag.bit_set
  PSR_Q_flag.get_bit_pos PSR_Q_flag.bit_set
  PSR_J_flag.get_bit_pos PSR_J_flag.bit_set
  PSR_E_flag.get_bit_pos PSR_E_flag.bit_set
  PSR_A_flag.get_bit_pos PSR_A_flag.bit_set
  PSR_I_flag.get_bit_pos PSR_I_flag.bit_set
  PSR_F_flag.get_bit_pos PSR_F_flag.bit_set
  PSR_T_flag.get_bit_pos PSR_T_flag.bit_set

lemmas PSR_flag_valid =
  PSR_N_flag.keeps_valid
  PSR_Z_flag.keeps_valid
  PSR_C_flag.keeps_valid
  PSR_V_flag.keeps_valid
  PSR_Q_flag.keeps_valid
  PSR_J_flag.keeps_valid
  PSR_E_flag.keeps_valid
  PSR_A_flag.keeps_valid
  PSR_I_flag.keeps_valid
  PSR_F_flag.keeps_valid
  PSR_T_flag.keeps_valid

lemmas FPCR_flag_bits =
  FPCR_AHP_flag.get_bit_pos FPCR_AHP_flag.bit_set
  FPCR_DN_flag.get_bit_pos FPCR_DN_flag.bit_set
  FPCR_FZ_flag.get_bit_pos FPCR_FZ_flag.bit_set
  FPCR_FZ16_flag.get_bit_pos FPCR_FZ16_flag.bit_set
  FPCR_IDE_flag.get_bit_pos FPCR_IDE_flag.bit_set
  FPCR_IXE_flag.get_bit_pos FPCR_IXE_flag.bit_set
  FPCR_UFE_flag.get_bit_pos FPCR_UFE_flag.bit_set
  FPCR_OFE_flag.get_bit_pos FPCR_OFE_flag.bit_set
  FPCR_DZE_flag.get_bit_pos FPCR_DZE_flag.bit_set
  FPCR_IOE_flag.get_bit_pos FPCR_IOE_flag.bit_set

lemmas FPCR_flag_valid =
  FPCR_AHP_flag.keeps_valid
  FPCR_DN_flag.keeps_valid
  FPCR_FZ_flag.keeps_valid
  FPCR_FZ16_flag.keeps_valid
  FPCR_IDE_flag.keeps_valid
  FPCR_IXE_flag.keeps_valid
  FPCR_UFE_flag.keeps_valid
  FPCR_OFE_flag.keeps_valid
  FPCR_DZE_flag.keeps_valid
  FPCR_IOE_flag.keeps_valid

lemmas FPSR_flag_bits =
  FPSR_N_flag.get_bit_pos FPSR_N_flag.bit_set
  FPSR_Z_flag.get_bit_pos FPSR_Z_flag.bit_set
  FPSR_C_flag.get_bit_pos FPSR_C_flag.bit_set
  FPSR_V_flag.get_bit_pos FPSR_V_flag.bit_set
  FPSR_QC_flag.get_bit_pos FPSR_QC_flag.bit_set
  FPSR_IDC_flag.get_bit_pos FPSR_IDC_flag.bit_set
  FPSR_IXC_flag.get_bit_pos FPSR_IXC_flag.bit_set
  FPSR_UFC_flag.get_bit_pos FPSR_UFC_flag.bit_set
  FPSR_OFC_flag.get_bit_pos FPSR_OFC_flag.bit_set
  FPSR_DZC_flag.get_bit_pos FPSR_DZC_flag.bit_set
  FPSR_IOC_flag.get_bit_pos FPSR_IOC_flag.bit_set

lemmas FPSR_flag_valid =
  FPSR_N_flag.keeps_valid
  FPSR_Z_flag.keeps_valid
  FPSR_C_flag.keeps_valid
  FPSR_V_flag.keeps_valid
  FPSR_QC_flag.keeps_valid
  FPSR_IDC_flag.keeps_valid
  FPSR_IXC_flag.keeps_valid
  FPSR_UFC_flag.keeps_valid
  FPSR_OFC_flag.keeps_valid
  FPSR_DZC_flag.keeps_valid
  FPSR_IOC_flag.keeps_valid

definition PSR_flags :: "(PSR \<Rightarrow> bool) list \<times> (PSR \<Rightarrow> bool \<Rightarrow> PSR) list" where
  "PSR_flags = ([PSR_N, PSR_Z, PSR_C, PSR_V, PSR_Q, PSR_J, PSR_E, PSR_A, PSR_I, PSR_F, PSR_T],
    [PSR_set_N, PSR_set_Z, PSR_set_C, PSR_set_V, PSR_set_Q, PSR_set_J, PSR_set_E, PSR_set_A, PSR_set_I, PSR_set_F, PSR_set_T])"

text \<open>The fields of a program status register, the reserved bits included.\<close>

record PSR_view =
  view_flags :: "bool list"
  view_GE :: u32
  view_IT :: ITState
  view_M :: u32
  view_reserved :: u32

definition PSR_fields :: "PSR \<Rightarrow> PSR_view" where
  "PSR_fields v = \<lparr>view_flags = map (\<lambda>get. get v) (fst PSR_flags), view_GE = PSR_GE v, view_IT = PSR_IT v,
     view_M = PSR_M v, view_reserved = get_bits 20 23 v\<rparr>"

definition FPCR_flags :: "(FPCR \<Rightarrow> bool) list \<times> (FPCR \<Rightarrow> bool \<Rightarrow> FPCR) list" where
  "FPCR_flags = ([FPCR_AHP, FPCR_DN, FPCR_FZ, FPCR_FZ16, FPCR_IDE, FPCR_IXE, FPCR_UFE, FPCR_OFE, FPCR_DZE, FPCR_IOE],
    [FPCR_set_AHP, FPCR_set_DN, FPCR_set_FZ, FPCR_set_FZ16, FPCR_set_IDE, FPCR_set_IXE, FPCR_set_UFE, FPCR_set_OFE, FPCR_set_DZE, FPCR_set_IOE])"

definition FPSR_flags :: "(FPSR \<Rightarrow> bool) list \<times> (FPSR \<Rightarrow> bool \<Rightarrow> FPSR) list" where
  "FPSR_flags = ([FPSR_N, FPSR_Z, FPSR_C, FPSR_V, FPSR_QC, FPSR_IDC, FPSR_IXC, FPSR_UFC, FPSR_OFC, FPSR_DZC, FPSR_IOC],
    [FPSR_set_N, FPSR_set_Z, FPSR_set_C, FPSR_set_V, FPSR_set_QC, FPSR_set_IDC, FPSR_set_IXC, FPSR_set_UFC, FPSR_set_OFC, FPSR_set_DZC, FPSR_set_IOC])"

section \<open>Program status register\<close>

lemma IT_masks:
  "(0x000FC00 :: u32) = mask_range 10 15" "(0x6000000 :: u32) = mask_range 25 26"
  "(0b11111100 :: u32) = mask_range 2 7" "(0b00000011 :: u32) = mask_range 0 1"
  by (simp_all add: mask_range_def ones_def mask_eq_exp_minus_1 push_bit_eq_mult)

lemma bit_PSR_set_IT [umbra_bits]:
  "n < 32 \<Longrightarrow> bit (PSR_set_IT v it) n \<longleftrightarrow>
     (if 10 \<le> n \<and> n < 16 then bit it (n - 8) else if n = 25 \<or> n = 26 then bit it (n - 25) else bit v n)"
  unfolding PSR_set_IT_def IT_masks Let_def
  by (auto simp: umbra_bits bit_and_iff bit_or_iff bit_not_iff bit_push_bit_iff bit_unsigned_iff)

lemma bit_PSR_IT [umbra_bits]: "n < 8 \<Longrightarrow> bit (PSR_IT v) n \<longleftrightarrow> (if n < 2 then bit v (n + 25) else bit v (n + 8))"
  unfolding PSR_IT_def IT_masks Let_def
  by (auto simp: umbra_bits bit_and_iff bit_or_iff bit_drop_bit_eq bit_unsigned_iff add.commute)

text \<open>The words a program status register can hold: built by the constructor and changed by setters.\<close>

inductive PSR_reachable :: "PSR \<Rightarrow> bool" where
  make: "PSR_reachable (PSR_make data)"
| flag: "PSR_reachable v \<Longrightarrow> put \<in> set (snd PSR_flags) \<Longrightarrow> PSR_reachable (put v b)"
| GE: "PSR_reachable v \<Longrightarrow> PSR_reachable (PSR_set_GE v data)"
| IT: "PSR_reachable v \<Longrightarrow> PSR_reachable (PSR_set_IT v it)"
| M: "PSR_reachable v \<Longrightarrow> PSR_reachable (PSR_set_M v m)"
| CurrentInstructionSet: "PSR_reachable v \<Longrightarrow> PSR_reachable (PSR_set_CurrentInstructionSet v is)"

lemma valid_iff_bits: "v AND m = v \<longleftrightarrow> (\<forall>n<32. bit (v::u32) n \<longrightarrow> bit m n)"
  by (auto simp: bit_eq_iff bit_and_iff)

lemma PSR_mask_range: "PSR_mask = NOT (mask_range 20 23)"
  by (simp add: PSR_mask_def mask_range_def ones_def mask_eq_exp_minus_1 push_bit_eq_mult)

lemma bit_PSR_mask: "n < 32 \<Longrightarrow> bit PSR_mask n \<longleftrightarrow> \<not> (20 \<le> n \<and> n < 24)"
  by (auto simp: PSR_mask_range bit_not_iff umbra_bits)

lemma PSR_reserved_bits_clear: "PSR_reachable v \<Longrightarrow> v AND PSR_mask = v"
proof (induction rule: PSR_reachable.induct)
  case (make data)
  then show ?case by (simp add: PSR_make_def)
next
  case (flag v put b)
  from flag.hyps(2) show ?case by (auto simp: PSR_flags_def intro: PSR_flag_valid flag.IH)
next
  case (GE v data)
  then show ?case by (auto simp: valid_iff_bits bit_PSR_mask PSR_set_GE_def umbra_bits)
next
  case (IT v it)
  then show ?case by (auto simp: valid_iff_bits bit_PSR_mask umbra_bits split: if_splits)
next
  case (M v m)
  then show ?case by (auto simp: valid_iff_bits bit_PSR_mask PSR_set_M_def umbra_bits split: if_splits)
next
  case (CurrentInstructionSet v "is")
  then show ?case by (cases "is") (simp_all add: PSR_flag_valid)
qed

text \<open>
  C29. The reserved bits 20 to 23 of a program status register are clear whatever
  sequence of setters is applied to a freshly constructed one.
\<close>

theorem PSR_reachable_reserved:
  assumes "PSR_reachable v"
  shows "get_bits 20 23 v = 0"
proof (rule bit_word_eqI)
  fix n assume "n < LENGTH(32)"
  with PSR_reserved_bits_clear [OF assms] show "bit (get_bits 20 23 v) n = bit (0::u32) n"
    by (auto simp: valid_iff_bits bit_PSR_mask umbra_bits dest!: spec [of _ "20 + n"])
qed

theorem PSR_reachable_reserved_witness:
  "get_bits 20 23 (PSR_set_IT (PSR_set_T (PSR_make 0xFFFFFFFF) False) 0xA8) = 0"
proof (rule PSR_reachable_reserved)
  have "PSR_reachable (PSR_set_T (PSR_make 0xFFFFFFFF) False)"
    by (rule PSR_reachable.flag [OF PSR_reachable.make]) (simp add: PSR_flags_def)
  then show "PSR_reachable (PSR_set_IT (PSR_set_T (PSR_make 0xFFFFFFFF) False) 0xA8)"
    by (rule PSR_reachable.IT)
qed

lemma PSR_field_eqI:
  "(\<And>n. n < 4 \<Longrightarrow> bit v (16 + n) = bit w (16 + n)) \<Longrightarrow> PSR_GE v = PSR_GE w"
  "(\<And>n. n < 2 \<Longrightarrow> bit v (n + 25) = bit w (n + 25)) \<Longrightarrow> (\<And>n. 2 \<le> n \<Longrightarrow> n < 8 \<Longrightarrow> bit v (n + 8) = bit w (n + 8)) \<Longrightarrow> PSR_IT v = PSR_IT w"
  "(\<And>n. n < 5 \<Longrightarrow> bit v n = bit w n) \<Longrightarrow> PSR_M v = PSR_M w"
  "(\<And>n. n < 4 \<Longrightarrow> bit v (20 + n) = bit w (20 + n)) \<Longrightarrow> get_bits 20 23 v = get_bits 20 23 w"
  for v w :: u32
  by (rule bit_word_eqI; auto simp: PSR_GE_def PSR_M_def umbra_bits)+

lemma PSR_fields_flag:
  assumes "i < 11"
  shows "PSR_fields ((snd PSR_flags ! i) v b) = (PSR_fields v)\<lparr>view_flags := (view_flags (PSR_fields v))[i := b]\<rparr>"
proof -
  have "\<forall>i<16. i < 11 \<longrightarrow> PSR_fields ((snd PSR_flags ! i) v b) = (PSR_fields v)\<lparr>view_flags := (view_flags (PSR_fields v))[i := b]\<rparr>"
    unfolding all_less_16 all_less_8 PSR_fields_def
    by (simp add: PSR_flags_def PSR_flag_bits; intro conjI PSR_field_eqI; simp add: PSR_flag_bits)
  with assms show ?thesis by simp
qed

lemma PSR_fields_GE: "PSR_fields (PSR_set_GE v data) = (PSR_fields v)\<lparr>view_GE := take_bit 4 data\<rparr>"
proof -
  have "PSR_GE (PSR_set_GE v data) = take_bit 4 data"
    by (rule bit_word_eqI) (auto simp: PSR_GE_def PSR_set_GE_def umbra_bits bit_take_bit_iff)
  then show ?thesis unfolding PSR_fields_def
    by (simp add: PSR_flags_def PSR_flag_bits; intro conjI PSR_field_eqI; simp add: PSR_set_GE_def umbra_bits)
qed

lemma PSR_fields_IT: "PSR_fields (PSR_set_IT v it) = (PSR_fields v)\<lparr>view_IT := it\<rparr>"
proof -
  have "PSR_IT (PSR_set_IT v it) = it" by (rule bit_word_eqI) (simp add: umbra_bits)
  then show ?thesis unfolding PSR_fields_def
    by (simp add: PSR_flags_def PSR_flag_bits; intro conjI PSR_field_eqI; simp add: umbra_bits)
qed

lemma PSR_fields_M: "PSR_fields (PSR_set_M v m) = (PSR_fields v)\<lparr>view_M := PSR_Mode_value m\<rparr>"
proof -
  have "PSR_M (PSR_set_M v m) = take_bit 5 (PSR_Mode_value m)"
    by (rule bit_word_eqI) (auto simp: PSR_M_def PSR_set_M_def umbra_bits bit_take_bit_iff)
  then have "PSR_M (PSR_set_M v m) = PSR_Mode_value m" by (cases m) simp_all
  then show ?thesis unfolding PSR_fields_def
    by (simp add: PSR_flags_def PSR_flag_bits; intro conjI PSR_field_eqI; simp add: PSR_set_M_def umbra_bits)
qed

lemma PSR_fields_inject: "PSR_fields v = PSR_fields w \<longleftrightarrow> v = w"
proof
  assume eq: "PSR_fields v = PSR_fields w"
  have flags: "map (\<lambda>get. get v) (fst PSR_flags) = map (\<lambda>get. get w) (fst PSR_flags)"
    and ge: "PSR_GE v = PSR_GE w" and it: "PSR_IT v = PSR_IT w" and m: "PSR_M v = PSR_M w"
    and r: "get_bits 20 23 v = get_bits 20 23 w" using eq by (simp_all add: PSR_fields_def)
  have low: "bit v n = bit w n" if "n < 5" for n
    using that arg_cong [OF m, of "\<lambda>x. bit x n"] by (simp add: PSR_M_def umbra_bits)
  have mid: "bit v (16 + n) = bit w (16 + n)" "bit v (20 + n) = bit w (20 + n)" if "n < 4" for n
    using that arg_cong [OF ge, of "\<lambda>x. bit x n"] arg_cong [OF r, of "\<lambda>x. bit x n"] by (simp_all add: PSR_GE_def umbra_bits)
  have its: "bit v (if n < 2 then n + 25 else n + 8) = bit w (if n < 2 then n + 25 else n + 8)" if "n < 8" for n
    using that arg_cong [OF it, of "\<lambda>x. bit x n"] by (simp add: umbra_bits split: if_splits)
  have "\<forall>n<8. bit v (if n < 2 then n + 25 else n + 8) = bit w (if n < 2 then n + 25 else n + 8)" using its by blast
  then show "v = w" unfolding bits32 all_less_8 using flags mid [of 0] mid [of 1] mid [of 2] mid [of 3]
    by (simp add: PSR_flags_def PSR_flag_bits low)
qed simp

text \<open>
  C30. The fields of a program status register are independent.  A setter of one of the
  eleven flags changes that flag and leaves every other flag, GE, the If-Then state, the
  mode and the reserved bits as they were; the setters of GE, of the If-Then state and of
  the mode change that field only.  The fields make up the register: two registers with
  the same fields are the same word.
\<close>

theorem PSR_flags_independent:
  assumes "i < length (snd PSR_flags)"
  shows "PSR_fields ((snd PSR_flags ! i) v b) = (PSR_fields v)\<lparr>view_flags := (view_flags (PSR_fields v))[i := b]\<rparr>
    \<and> PSR_fields (PSR_set_GE v data) = (PSR_fields v)\<lparr>view_GE := take_bit 4 data\<rparr>
    \<and> PSR_fields (PSR_set_IT v it) = (PSR_fields v)\<lparr>view_IT := it\<rparr>
    \<and> PSR_fields (PSR_set_M v m) = (PSR_fields v)\<lparr>view_M := PSR_Mode_value m\<rparr>
    \<and> (PSR_fields v = PSR_fields w \<longleftrightarrow> v = w)"
  using assms PSR_fields_flag [of i v b]
  by (simp add: PSR_fields_GE PSR_fields_IT PSR_fields_M PSR_fields_inject PSR_flags_def)

theorem PSR_flags_independent_witness:
  "PSR_fields (PSR_set_E 0x600FFC10 True) = (PSR_fields 0x600FFC10)\<lparr>view_flags :=
      [False, True, True, False, False, False, True, False, False, False, False]\<rparr>"
  using PSR_flags_independent [of 6 "0x600FFC10" True]
  by (simp add: PSR_fields_def PSR_flags_def PSR_flag_bits)

text \<open>
  C31. The split IT field and the instruction set state can be written and read back:
  setting the If-Then state stores all eight bits, leaves every flag alone and writing
  back the current state changes nothing; the instruction set that was selected is the
  current one.
\<close>

theorem PSR_IT_roundtrip:
  "PSR_IT (PSR_set_IT v it) = it \<and> PSR_set_IT v (PSR_IT v) = v
     \<and> map (\<lambda>get. get (PSR_set_IT v it)) (fst PSR_flags) = map (\<lambda>get. get v) (fst PSR_flags)
     \<and> PSR_GE (PSR_set_IT v it) = PSR_GE v
     \<and> PSR_CurrentInstructionSet (PSR_set_CurrentInstructionSet v is) = is"
proof (intro conjI)
  show "PSR_IT (PSR_set_IT v it) = it" by (rule bit_word_eqI) (simp add: umbra_bits)
  show "PSR_set_IT v (PSR_IT v) = v" unfolding bits32 by (simp add: umbra_bits)
  show "map (\<lambda>get. get (PSR_set_IT v it)) (fst PSR_flags) = map (\<lambda>get. get v) (fst PSR_flags)"
    by (simp add: PSR_flags_def PSR_flag_bits umbra_bits)
  show "PSR_GE (PSR_set_IT v it) = PSR_GE v" by (rule bit_word_eqI) (auto simp: PSR_GE_def umbra_bits)
  show "PSR_CurrentInstructionSet (PSR_set_CurrentInstructionSet v is) = is"
    by (cases "is") (simp_all add: PSR_CurrentInstructionSet_def Let_def PSR_flag_bits)
qed

section \<open>If-Then state\<close>

lemma bit_times_2: "bit (w * 2 :: 'a::len word) n \<longleftrightarrow> n < LENGTH('a) \<and> n \<noteq> 0 \<and> bit w (n - 1)"
  using bit_double_iff [of w n] by (auto simp: mult.commute)

lemma ITState_ends_iff: "get_bits 0 2 (v :: ITState) = 0 \<longleftrightarrow> \<not> (bit v 0 \<or> bit v 1 \<or> bit v 2)"
  unfolding bits8 by (simp add: umbra_bits) (simp add: numeral_2_eq_2)

lemma ITState_Advance_zero: "\<not> bit v 0 \<Longrightarrow> \<not> bit v 1 \<Longrightarrow> \<not> bit v 2 \<Longrightarrow> ITState_Advance v = 0"
  by (simp add: ITState_Advance_def ITState_ends_iff)

lemma bit_ITState_Advance:
  "n < 8 \<Longrightarrow> bit (ITState_Advance v) n \<longleftrightarrow>
     (bit v 0 \<or> bit v 1 \<or> bit v 2) \<and> (if n < 5 then n \<noteq> 0 \<and> bit v (n - 1) else bit v n)"
proof -
  have "\<forall>n<8. bit (set_bits_mcl 0 4 v (push_bit 1 (get_bits 0 4 v))) n \<longleftrightarrow>
      (if n < 5 then n \<noteq> 0 \<and> bit v (n - 1) else bit v n)"
    unfolding all_less_8 by (simp add: umbra_bits bit_times_2) (simp add: numeral_2_eq_2)
  then show "n < 8 \<Longrightarrow> ?thesis" by (simp add: ITState_Advance_def ITState_ends_iff)
qed

lemma ITState_IsLast_bits: "ITState_IsLastInITBlock v \<longleftrightarrow> \<not> bit v 0 \<and> \<not> bit v 1 \<and> \<not> bit v 2 \<and> bit v 3"
  unfolding ITState_IsLastInITBlock_def bits8 by (simp add: umbra_bits) (simp add: numeral_2_eq_2)

lemma ITState_IsIn_bits: "ITState_IsInITBlock v \<longleftrightarrow> bit v 0 \<or> bit v 1 \<or> bit v 2 \<or> bit v 3"
  unfolding ITState_IsInITBlock_def bits8 by (simp add: umbra_bits) (simp add: numeral_2_eq_2)

text \<open>
  C32. An IT block ends: advancing the If-Then state four times leaves the block whatever
  the state, the instruction after the one recognised as last is outside the block, and
  while the block goes on the three upper bits of its condition are kept.
\<close>

theorem ITState_block_ends:
  "(ITState_Advance ^^ 4) v = 0 \<and> (ITState_IsLastInITBlock v \<longrightarrow> ITState_Advance v = 0)
     \<and> (ITState_Advance v \<noteq> 0 \<longrightarrow> ITState_IsInITBlock (ITState_Advance v)
          \<and> get_bits 5 7 (ITState_Advance v) = get_bits 5 7 v)"
proof (intro conjI impI)
  show "(ITState_Advance ^^ 4) v = 0"
  proof -
    have step: "bit (ITState_Advance x) (Suc n) \<Longrightarrow> n < 4 \<Longrightarrow> bit x n" "\<not> bit (ITState_Advance x) 0" for x n
      by (simp_all add: bit_ITState_Advance)
    let ?w = "ITState_Advance (ITState_Advance (ITState_Advance v))"
    have "\<not> bit ?w 0" by (rule step(2))
    moreover have "\<not> bit ?w 1" using step(1) [of _ 0] step(2) by fastforce
    moreover have "\<not> bit ?w 2" using step(1) [of _ 1] step(1) [of _ 0] step(2) by (fastforce simp: numeral_2_eq_2)
    ultimately have "ITState_Advance ?w = 0" by (rule ITState_Advance_zero)
    then show ?thesis by (simp add: eval_nat_numeral)
  qed
  show "ITState_Advance v = 0" if "ITState_IsLastInITBlock v"
    using that by (simp add: ITState_Advance_zero ITState_IsLast_bits)
  assume "ITState_Advance v \<noteq> 0"
  then have nz: "bit v 0 \<or> bit v 1 \<or> bit v 2" using ITState_Advance_zero by blast
  then show "ITState_IsInITBlock (ITState_Advance v)"
    by (auto simp: ITState_IsIn_bits bit_ITState_Advance)
  from nz show "get_bits 5 7 (ITState_Advance v) = get_bits 5 7 v"
    unfolding bits8 by (simp add: umbra_bits bit_ITState_Advance)
qed

theorem ITState_block_ends_witness:
  "ITState_IsLastInITBlock 0x18 \<and> ITState_Advance 0x18 = 0 \<and> ITState_IsInITBlock (ITState_Advance 0x16)"
  using ITState_block_ends [of "0x18"] ITState_block_ends [of "0x16"]
  by (simp add: ITState_IsLast_bits ITState_IsIn_bits bit_ITState_Advance)

section \<open>Floating point control registers\<close>

lemma RMode_bits: "RoundingMode_value m \<le> 3 \<longleftrightarrow> m \<notin> {ToNearest_TieAwayFromZero, ToOdd}"
  by (cases m) simp_all

lemma get_set_bits_mcl:
  "b \<le> e \<Longrightarrow> e < LENGTH('a) \<Longrightarrow> get_bits b e (set_bits_mcl b e (v :: 'a::len word) w) = take_bit (e - b + 1) w"
  by (rule bit_word_eqI) (auto simp: umbra_bits bit_take_bit_iff less_Suc_eq_le dest: bit_imp_le_length)

lemma set_bits_mcl_valid:
  assumes "b \<le> e" "e < 32" "\<And>n. b \<le> n \<Longrightarrow> n \<le> e \<Longrightarrow> bit m n" "v AND m = v"
  shows "set_bits_mcl b e v w AND m = (set_bits_mcl b e v w :: u32)"
  using assms unfolding valid_iff_bits by (auto simp: umbra_bits)

lemma FPCR_mask_bits: "16 \<le> n \<Longrightarrow> n \<le> 23 \<Longrightarrow> bit FPCR_mask n"
proof -
  have "\<forall>n<32. 16 \<le> n \<longrightarrow> n \<le> 23 \<longrightarrow> bit FPCR_mask n"
    unfolding all_less_32 all_less_16 all_less_8 by (simp add: FPCR_mask_def)
  then show "16 \<le> n \<Longrightarrow> n \<le> 23 \<Longrightarrow> bit FPCR_mask n" by simp
qed

lemma FPCR_field_valid:
  assumes "v AND FPCR_mask = v"
  shows "set_bits_mcl 22 23 v w AND FPCR_mask = set_bits_mcl 22 23 v w"
    "set_bits_mcl 20 21 v w AND FPCR_mask = set_bits_mcl 20 21 v w"
    "set_bits_mcl 16 18 v w AND FPCR_mask = set_bits_mcl 16 18 v w"
  by (rule set_bits_mcl_valid [OF _ _ FPCR_mask_bits assms]; simp)+

lemma FPCR_RMode_get_set: "RoundingMode_value m \<le> 3 \<Longrightarrow> FPCR_RMode (set_bits_mcl 22 23 v (RoundingMode_value m)) = m"
proof -
  have "get_bits 22 23 (set_bits_mcl 22 23 v (RoundingMode_value m)) = take_bit 2 (RoundingMode_value m)"
    using get_set_bits_mcl [of 22 23 v] by (simp add: numeral_2_eq_2)
  then show "RoundingMode_value m \<le> 3 \<Longrightarrow> ?thesis"
    by (cases m) (simp_all add: FPCR_RMode_def RoundingMode_of_bits_def)
qed

lemma FPCR_Stride_get_set:
  "FPCR_Stride (set_bits_mcl 20 21 v 0) = Some 1" "FPCR_Stride (set_bits_mcl 20 21 v 3) = Some 2"
proof -
  have "get_bits 20 21 (set_bits_mcl 20 21 v w) = take_bit 2 w" for w
    using get_set_bits_mcl [of 20 21 v w] by (simp add: numeral_2_eq_2)
  then show "FPCR_Stride (set_bits_mcl 20 21 v 0) = Some 1" "FPCR_Stride (set_bits_mcl 20 21 v 3) = Some 2"
    by (simp_all add: FPCR_Stride_def)
qed

lemma FPCR_Len_get_set:
  assumes "1 \<le> l" "l \<le> 8"
  shows "FPCR_Len (set_bits_mcl 16 18 v (of_nat (l - 1))) = l"
proof -
  have "k < 8 \<Longrightarrow> unat (take_bit 3 (of_nat k :: u32)) = k" for k
    by (simp add: unsigned_take_bit_eq unat_of_nat take_bit_nat_eq_self)
  then have "unat (take_bit 3 (of_nat (l - 1) :: u32)) = l - 1"
    using assms by (simp del: of_nat_diff)
  moreover have "get_bits 16 18 (set_bits_mcl 16 18 v w) = take_bit 3 w" for w
    using get_set_bits_mcl [of 16 18 v w] by (simp add: numeral_3_eq_3)
  ultimately show ?thesis using assms by (simp add: FPCR_Len_def)
qed

text \<open>
  C33. The checked setters of the floating point control register reject exactly the
  values their field cannot hold (the two rounding modes with no encoding, a stride other
  than 1 or 2, a length outside 1 to 8); otherwise the value is read back and the reserved
  bits stay clear.
\<close>

theorem FPCR_checked_setters:
  assumes "v AND FPCR_mask = v"
  shows "(if m \<in> {ToNearest_TieAwayFromZero, ToOdd} then FPCR_set_RMode v m = None
          else \<exists>w. FPCR_set_RMode v m = Some w \<and> FPCR_RMode w = m \<and> w AND FPCR_mask = w)
       \<and> (if s \<in> {1, 2} then \<exists>w. FPCR_set_Stride v s = Some w \<and> FPCR_Stride w = Some s \<and> w AND FPCR_mask = w
          else FPCR_set_Stride v s = None)
       \<and> (if 1 \<le> l \<and> l \<le> 8 then \<exists>w. FPCR_set_Len v l = Some w \<and> FPCR_Len w = l \<and> w AND FPCR_mask = w
          else FPCR_set_Len v l = None)"
  using FPCR_field_valid [OF assms] FPCR_RMode_get_set FPCR_Len_get_set
  by (auto simp: FPCR_set_RMode_def FPCR_set_Stride_def FPCR_set_Len_def RMode_bits FPCR_Stride_get_set)

theorem FPCR_checked_setters_witness:
  "(\<exists>w. FPCR_set_RMode 0x01000000 TowardsZero = Some w \<and> FPCR_RMode w = TowardsZero)
     \<and> FPCR_set_RMode 0x01000000 ToOdd = None \<and> FPCR_set_Stride 0x01000000 3 = None \<and> FPCR_set_Len 0x01000000 9 = None"
  using FPCR_checked_setters [of "0x01000000" TowardsZero 3 9] FPCR_checked_setters [of "0x01000000" ToOdd 3 9]
  by (auto simp: FPCR_mask_def)

text \<open>
  C35. RunFast mode requires flush-to-zero, default NaNs and five of the six trap enable
  bits clear: the enable of the input denormal trap does not take part in the test.
\<close>

theorem FPSCR_RunFast_fields:
  "FPSCR_InRunFastMode v \<longleftrightarrow> FPSCR_FTZ v \<and> FPSCR_DN v
     \<and> \<not> FPSCR_IXE v \<and> \<not> FPSCR_UFE v \<and> \<not> FPSCR_OFE v \<and> \<not> FPSCR_DZE v \<and> \<not> FPSCR_IOE v"
  unfolding FPSCR_InRunFastMode_def bits32
  by (simp add: bit_and_iff FPSCR_FTZ_def FPSCR_DN_def FPSCR_IXE_def FPSCR_UFE_def FPSCR_OFE_def FPSCR_DZE_def
      FPSCR_IOE_def umbra_bits) blast

text \<open>
  C34. The standard value for AArch32 Advanced SIMD takes the two half-precision controls
  from the register, flushes denormals, uses the default NaN, rounds to nearest even and
  traps nothing.
\<close>

theorem FPCR_ASIMDStandardValue_fields:
  "let w = FPCR_ASIMDStandardValue v in
     FPCR_AHP w = FPCR_AHP v \<and> FPCR_FZ16 w = FPCR_FZ16 v \<and> FPCR_FZ w \<and> FPCR_DN w
     \<and> FPCR_RMode w = ToNearest_TieEven \<and> FPCR_Len w = 1 \<and> FPCR_Stride w = Some 1
     \<and> get_bits 0 15 w = 0 \<and> w AND FPCR_mask = w"
proof -
  let ?w = "FPCR_ASIMDStandardValue v"
  have b: "bit ?w n \<longleftrightarrow> (n = 26 \<and> FPCR_AHP v) \<or> (n = 19 \<and> FPCR_FZ16 v) \<or> n = 24 \<or> n = 25" for n
    by (auto simp: FPCR_ASIMDStandardValue_def FPCR_flag_bits)
  have z: "get_bits 22 23 ?w = 0" "get_bits 20 21 ?w = 0" "get_bits 16 18 ?w = 0" "get_bits 0 15 ?w = 0"
    by (rule bit_word_eqI, auto simp: umbra_bits b)+
  have "?w AND FPCR_mask = ?w"
    unfolding FPCR_ASIMDStandardValue_def by (intro FPCR_flag_valid) simp
  then show ?thesis
    by (simp add: Let_def b FPCR_RMode_def FPCR_Len_def FPCR_Stride_def z RoundingMode_of_bits_def FPCR_flag_bits(1,3,5,7))
qed

end
