(* ===== verification/Location.thy ===== *)
theory Location
  imports Status_Registers
begin

text \<open>
  Block locations: a basic block is identified by the program counter and the processor
  state its translation depends on.  The AArch32 and AArch64 descriptors
  (\<^verbatim>\<open>frontend/A32/a32_location_descriptor.h\<close>, \<^verbatim>\<open>frontend/A64/a64_location_descriptor.h\<close>) are
  packed into the 64-bit value of \<^verbatim>\<open>ir/location_descriptor.h\<close>, which is the key of the block
  cache and of the return stack buffer: the packing has to be reversible.
\<close>

section \<open>AArch32\<close>

type_synonym IR_LocationDescriptor = u64

record A32_LocationDescriptor =
  arm_pc :: u32
  cpsr :: PSR
  fpscr :: FPSCR
  a32_single_stepping :: bool

definition CPSR_MODE_MASK :: u32 where
  "CPSR_MODE_MASK = 0x0600FE20"

definition FPSCR_MODE_MASK :: u32 where
  "FPSCR_MODE_MASK = 0x07F70000"

definition A32_make :: "u32 \<Rightarrow> PSR \<Rightarrow> FPSCR \<Rightarrow> bool \<Rightarrow> A32_LocationDescriptor" where
  "A32_make pc psr fp single =
     \<lparr>arm_pc = pc, cpsr = PSR_make (psr AND CPSR_MODE_MASK), fpscr = FPSCR_make (fp AND FPSCR_MODE_MASK),
      a32_single_stepping = single\<rparr>"

text \<open>The members start from their default values (both registers zero).\<close>

definition A32_of_IR :: "IR_LocationDescriptor \<Rightarrow> A32_LocationDescriptor" where
  "A32_of_IR loc =
     (let c1 = PSR_set_T 0 (drop_bit 32 loc AND 1 \<noteq> 0);
          c2 = PSR_set_E c1 (drop_bit 32 loc AND 2 \<noteq> 0);
          f = FPSCR_make (ucast (drop_bit 32 loc AND ucast FPSCR_MODE_MASK));
          c3 = PSR_set_IT c2 (ucast (drop_bit 40 loc))
      in \<lparr>arm_pc = ucast loc, cpsr = c3, fpscr = f, a32_single_stepping = (drop_bit 32 loc AND 4 \<noteq> 0)\<rparr>)"

definition A32_PC :: "A32_LocationDescriptor \<Rightarrow> u32" where
  "A32_PC d = arm_pc d"

definition A32_TFlag :: "A32_LocationDescriptor \<Rightarrow> bool" where
  "A32_TFlag d = PSR_T (cpsr d)"

definition A32_EFlag :: "A32_LocationDescriptor \<Rightarrow> bool" where
  "A32_EFlag d = PSR_E (cpsr d)"

definition A32_IT :: "A32_LocationDescriptor \<Rightarrow> ITState" where
  "A32_IT d = PSR_IT (cpsr d)"

definition A32_SetPC :: "A32_LocationDescriptor \<Rightarrow> u32 \<Rightarrow> A32_LocationDescriptor" where
  "A32_SetPC d new_arm_pc = A32_make new_arm_pc (cpsr d) (fpscr d) (a32_single_stepping d)"

definition A32_AdvancePC :: "A32_LocationDescriptor \<Rightarrow> int \<Rightarrow> A32_LocationDescriptor" where
  "A32_AdvancePC d amount = A32_make (arm_pc d + of_int amount) (cpsr d) (fpscr d) (a32_single_stepping d)"

definition A32_SetTFlag :: "A32_LocationDescriptor \<Rightarrow> bool \<Rightarrow> A32_LocationDescriptor" where
  "A32_SetTFlag d b = A32_make (arm_pc d) (PSR_set_T (cpsr d) b) (fpscr d) (a32_single_stepping d)"

definition A32_SetEFlag :: "A32_LocationDescriptor \<Rightarrow> bool \<Rightarrow> A32_LocationDescriptor" where
  "A32_SetEFlag d b = A32_make (arm_pc d) (PSR_set_E (cpsr d) b) (fpscr d) (a32_single_stepping d)"

definition A32_SetFPSCR :: "A32_LocationDescriptor \<Rightarrow> u32 \<Rightarrow> A32_LocationDescriptor" where
  "A32_SetFPSCR d new_fpscr =
     A32_make (arm_pc d) (cpsr d) (FPSCR_make (new_fpscr AND FPSCR_MODE_MASK)) (a32_single_stepping d)"

definition A32_SetIT :: "A32_LocationDescriptor \<Rightarrow> ITState \<Rightarrow> A32_LocationDescriptor" where
  "A32_SetIT d new_it = A32_make (arm_pc d) (PSR_set_IT (cpsr d) new_it) (fpscr d) (a32_single_stepping d)"

definition A32_AdvanceIT :: "A32_LocationDescriptor \<Rightarrow> A32_LocationDescriptor" where
  "A32_AdvanceIT d = A32_SetIT d (ITState_Advance (A32_IT d))"

definition A32_SetSingleStepping :: "A32_LocationDescriptor \<Rightarrow> bool \<Rightarrow> A32_LocationDescriptor" where
  "A32_SetSingleStepping d b = A32_make (arm_pc d) (cpsr d) (fpscr d) b"

definition A32_UniqueHash :: "A32_LocationDescriptor \<Rightarrow> IR_LocationDescriptor" where
  "A32_UniqueHash d =
     (let pc_u64 = (ucast (arm_pc d) :: u64);
          fpscr_u64 = (ucast (fpscr d) :: u64);
          t_u64 = (if PSR_T (cpsr d) then 1 else 0 :: u64);
          e_u64 = (if PSR_E (cpsr d) then 2 else 0 :: u64);
          single_stepping_u64 = (if a32_single_stepping d then 4 else 0 :: u64);
          it_u64 = push_bit 8 (ucast (PSR_IT (cpsr d)) :: u64);
          up = push_bit 32 (fpscr_u64 OR t_u64 OR e_u64 OR single_stepping_u64 OR it_u64)
      in pc_u64 OR up)"

section \<open>AArch64\<close>

record A64_LocationDescriptor =
  a64_pc :: u64
  fpcr :: FPCR
  a64_single_stepping :: bool

definition pc_bit_count :: nat where
  "pc_bit_count = 56"

definition pc_mask :: u64 where
  "pc_mask = ones pc_bit_count"

definition fpcr_mask :: u32 where
  "fpcr_mask = 0x07C80000"

definition fpcr_shift :: nat where
  "fpcr_shift = 37"

definition single_stepping_bit :: nat where
  "single_stepping_bit = 57"

definition A64_make :: "u64 \<Rightarrow> FPCR \<Rightarrow> bool \<Rightarrow> A64_LocationDescriptor" where
  "A64_make p f single =
     \<lparr>a64_pc = p AND pc_mask, fpcr = FPCR_make (f AND fpcr_mask), a64_single_stepping = single\<rparr>"

definition A64_of_IR :: "IR_LocationDescriptor \<Rightarrow> A64_LocationDescriptor" where
  "A64_of_IR loc =
     \<lparr>a64_pc = loc AND pc_mask, fpcr = FPCR_make (ucast (drop_bit fpcr_shift loc AND ucast fpcr_mask)),
      a64_single_stepping = get_bit single_stepping_bit loc\<rparr>"

definition A64_PC :: "A64_LocationDescriptor \<Rightarrow> u64" where
  "A64_PC d = sign_extend pc_bit_count (a64_pc d)"

definition A64_SetPC :: "A64_LocationDescriptor \<Rightarrow> u64 \<Rightarrow> A64_LocationDescriptor" where
  "A64_SetPC d new_pc = A64_make new_pc (fpcr d) (a64_single_stepping d)"

definition A64_AdvancePC :: "A64_LocationDescriptor \<Rightarrow> int \<Rightarrow> A64_LocationDescriptor" where
  "A64_AdvancePC d amount = A64_make (a64_pc d + of_int amount) (fpcr d) (a64_single_stepping d)"

definition A64_SetSingleStepping :: "A64_LocationDescriptor \<Rightarrow> bool \<Rightarrow> A64_LocationDescriptor" where
  "A64_SetSingleStepping d b = A64_make (a64_pc d) (fpcr d) b"

definition A64_UniqueHash :: "A64_LocationDescriptor \<Rightarrow> IR_LocationDescriptor" where
  "A64_UniqueHash d =
     (let fpcr_u64 = push_bit fpcr_shift (ucast (fpcr d) :: u64);
          single_stepping_u64 = push_bit single_stepping_bit (if a64_single_stepping d then 1 else 0 :: u64)
      in a64_pc d OR fpcr_u64 OR single_stepping_u64)"

section \<open>Packing and unpacking\<close>

text \<open>
  The interface of a packed location: descriptors that satisfy an invariant are recovered
  from their hash, so the hash identifies them.
\<close>

locale packed_location =
  fixes valid :: "'d \<Rightarrow> bool" and hash :: "'d \<Rightarrow> u64" and unpack :: "u64 \<Rightarrow> 'd"
  assumes unpack_hash: "valid d \<Longrightarrow> unpack (hash d) = d"
    and valid_unpack: "valid (unpack u)"
begin

lemma hash_unique: "valid d \<Longrightarrow> valid e \<Longrightarrow> hash d = hash e \<longleftrightarrow> d = e"
  by (metis unpack_hash)

lemma hash_unpack_idem: "hash (unpack (hash (unpack u))) = hash (unpack u)"
  by (simp add: unpack_hash valid_unpack)

end

definition A32_valid :: "A32_LocationDescriptor \<Rightarrow> bool" where
  "A32_valid d \<longleftrightarrow> cpsr d AND CPSR_MODE_MASK = cpsr d \<and> fpscr d AND FPSCR_MODE_MASK = fpscr d"

definition A64_valid :: "A64_LocationDescriptor \<Rightarrow> bool" where
  "A64_valid d \<longleftrightarrow> a64_pc d AND pc_mask = a64_pc d \<and> fpcr d AND fpcr_mask = fpcr d"

lemma mode_mask_ranges:
  "CPSR_MODE_MASK = mask_range 5 5 OR mask_range 9 15 OR mask_range 25 26"
  "FPSCR_MODE_MASK = mask_range 16 18 OR mask_range 20 26"
  "fpcr_mask = mask_range 19 19 OR mask_range 22 26"
  "pc_mask = mask_range 0 55"
  by (simp_all add: CPSR_MODE_MASK_def FPSCR_MODE_MASK_def fpcr_mask_def pc_mask_def pc_bit_count_def
      mask_range_def ones_def mask_eq_exp_minus_1 push_bit_eq_mult)

lemma bit_mode_masks:
  "bit CPSR_MODE_MASK n \<longleftrightarrow> n = 5 \<or> (9 \<le> n \<and> n \<le> 15) \<or> n = 25 \<or> n = 26"
  "bit FPSCR_MODE_MASK n \<longleftrightarrow> (16 \<le> n \<and> n \<le> 18) \<or> (20 \<le> n \<and> n \<le> 26)"
  "bit fpcr_mask n \<longleftrightarrow> n = 19 \<or> (22 \<le> n \<and> n \<le> 26)"
  "bit pc_mask n \<longleftrightarrow> n \<le> 55"
  by (auto simp: mode_mask_ranges bit_or_iff umbra_bits)

lemma make_masks:
  "PSR_make (v AND CPSR_MODE_MASK) = v AND CPSR_MODE_MASK"
  "FPSCR_make (v AND FPSCR_MODE_MASK) = v AND FPSCR_MODE_MASK"
  "FPCR_make (v AND fpcr_mask) = v AND fpcr_mask"
  by (simp_all add: PSR_make_def FPSCR_make_def FPCR_make_def PSR_mask_def FPSCR_mask_def FPCR_mask_def
      CPSR_MODE_MASK_def FPSCR_MODE_MASK_def fpcr_mask_def and.assoc)

lemma FPSCR_make_cast: "FPSCR_make (ucast ((x :: u64) AND ucast FPSCR_MODE_MASK)) = ucast x AND FPSCR_MODE_MASK"
proof -
  have "(ucast (x AND ucast FPSCR_MODE_MASK) :: u32) = ucast x AND FPSCR_MODE_MASK"
    by (rule bit_word_eqI) (simp add: bit_unsigned_iff bit_and_iff)
  then show ?thesis by (simp add: make_masks)
qed

lemma FPCR_make_cast: "FPCR_make (ucast ((x :: u64) AND ucast fpcr_mask)) = ucast x AND fpcr_mask"
proof -
  have "(ucast (x AND ucast fpcr_mask) :: u32) = ucast x AND fpcr_mask"
    by (rule bit_word_eqI) (simp add: bit_unsigned_iff bit_and_iff)
  then show ?thesis by (simp add: make_masks)
qed

lemma A32_make_valid: "A32_valid (A32_make pc psr fp single)"
  by (simp add: A32_valid_def A32_make_def make_masks and.assoc)

lemma A64_make_valid: "A64_valid (A64_make p f single)"
  by (simp add: A64_valid_def A64_make_def make_masks and.assoc)

lemma A32_make_keep: "A32_valid d \<Longrightarrow> A32_make p (cpsr d) (fpscr d) b = d\<lparr>arm_pc := p, a32_single_stepping := b\<rparr>"
  using make_masks(1) [of "cpsr d"] make_masks(2) [of "fpscr d"] by (simp add: A32_valid_def A32_make_def)

lemma A64_make_id: "A64_valid d \<Longrightarrow> A64_make (a64_pc d) (fpcr d) (a64_single_stepping d) = d"
  using make_masks(3) [of "fpcr d"] by (simp add: A64_valid_def A64_make_def)

lemma bit_A32_UniqueHash:
  "bit (A32_UniqueHash d) n \<longleftrightarrow> n < 64 \<and>
     (if n < 32 then bit (arm_pc d) n
      else bit (fpscr d) (n - 32) \<or> (n = 32 \<and> PSR_T (cpsr d)) \<or> (n = 33 \<and> PSR_E (cpsr d))
        \<or> (n = 34 \<and> a32_single_stepping d) \<or> (40 \<le> n \<and> bit (PSR_IT (cpsr d)) (n - 40)))"
proof -
  have c: "bit (1::u64) k \<longleftrightarrow> k = 0" "bit (2::u64) k \<longleftrightarrow> k = 1" "bit (4::u64) k \<longleftrightarrow> k = 2" for k
    using bit_exp_iff [of 0 k, where 'a = "64 word"] bit_exp_iff [of 1 k, where 'a = "64 word"]
      bit_exp_iff [of 2 k, where 'a = "64 word"] by auto
  have i: "bit (if b then 1 else 0 :: u64) k \<longleftrightarrow> b \<and> k = 0" "bit (if b then 2 else 0 :: u64) k \<longleftrightarrow> b \<and> k = 1"
    "bit (if b then 4 else 0 :: u64) k \<longleftrightarrow> b \<and> k = 2" for b k using c [of k] by (auto simp only: bit_0_eq split: if_splits)
  have s: "n - 32 = 0 \<longleftrightarrow> n = 32" "n - 32 = 1 \<longleftrightarrow> n = 33" "n - 32 = 2 \<longleftrightarrow> n = 34" "8 \<le> n - 32 \<longleftrightarrow> 40 \<le> n"
    if "\<not> n < 32" using that by auto
  show ?thesis
    unfolding A32_UniqueHash_def Let_def
    by (cases "n < 32"; cases "n < 64")
       (simp_all add: bit_or_iff bit_push_bit_iff bit_unsigned_iff i s del: if_split, auto)
qed

lemma word_and_pow2: "(w :: 'a::len word) AND 1 \<noteq> 0 \<longleftrightarrow> bit w 0" "w AND 2 \<noteq> 0 \<longleftrightarrow> 1 < LENGTH('a) \<and> bit w 1" "w AND 4 \<noteq> 0 \<longleftrightarrow> 2 < LENGTH('a) \<and> bit w 2"
proof -
  have "w AND 2 ^ k \<noteq> 0 \<longleftrightarrow> k < LENGTH('a) \<and> bit w k" for k
    by (auto simp: word_eq_0_bits bit_and_iff bit_exp_iff)
  from this [of 0] this [of 1] this [of 2]
  show "w AND 1 \<noteq> 0 \<longleftrightarrow> bit w 0" "w AND 2 \<noteq> 0 \<longleftrightarrow> 1 < LENGTH('a) \<and> bit w 1" "w AND 4 \<noteq> 0 \<longleftrightarrow> 2 < LENGTH('a) \<and> bit w 2"
    by simp_all
qed

lemma A32_of_IR_hash:
  assumes "A32_valid d"
  shows "A32_of_IR (A32_UniqueHash d) = d"
proof (rule A32_LocationDescriptor.equality)
  have fb: "bit (fpscr d) n \<Longrightarrow> (16 \<le> n \<and> n \<le> 18) \<or> (20 \<le> n \<and> n \<le> 26)" for n
    using assms unfolding A32_valid_def by (metis bit_and_iff bit_mode_masks(2))
  have cb: "bit (cpsr d) n \<Longrightarrow> n = 5 \<or> (9 \<le> n \<and> n \<le> 15) \<or> n = 25 \<or> n = 26" for n
    using assms unfolding A32_valid_def by (metis bit_and_iff bit_mode_masks(1))
  note h = A32_of_IR_def Let_def bit_A32_UniqueHash bit_unsigned_iff bit_drop_bit_eq word_and_pow2
  show "arm_pc (A32_of_IR (A32_UniqueHash d)) = arm_pc d"
    by (rule bit_word_eqI) (simp add: h)
  show "a32_single_stepping (A32_of_IR (A32_UniqueHash d)) = a32_single_stepping d"
    using fb [of 2] by (auto simp: h)
  have "bit (fpscr (A32_of_IR (A32_UniqueHash d))) n = bit (fpscr d) n" if "n < 32" for n
    using fb [of n] that
    by (auto simp: h FPSCR_make_cast bit_and_iff bit_mode_masks)
  then show "fpscr (A32_of_IR (A32_UniqueHash d)) = fpscr d" by (intro bit_word_eqI) simp
  have T: "PSR_T (cpsr d) \<longleftrightarrow> bit (cpsr d) 5" "PSR_E (cpsr d) \<longleftrightarrow> bit (cpsr d) 9" by (simp_all add: PSR_flag_bits)
  have "bit (cpsr (A32_of_IR (A32_UniqueHash d))) n = bit (cpsr d) n" if "n < 32" for n
  proof -
    consider "n = 5" | "n = 9" | "10 \<le> n" "n < 16" | "n = 25" | "n = 26"
      | "n \<noteq> 5" "n \<noteq> 9" "\<not> (10 \<le> n \<and> n < 16)" "n \<noteq> 25" "n \<noteq> 26" by blast
    then show ?thesis
    proof cases
      case 3
      then show ?thesis using fb [of n] by (auto simp: h bit_PSR_set_IT bit_PSR_IT)
    next
      case 6
      moreover have "\<not> bit (cpsr d) n" using 6 cb [of n] by auto
      ultimately show ?thesis using that by (auto simp: h bit_PSR_set_IT PSR_flag_bits)
    qed (use fb [of 0] fb [of 1] fb [of 8] fb [of 9] in \<open>auto simp: h bit_PSR_set_IT bit_PSR_IT PSR_flag_bits\<close>)
  qed
  then show "cpsr (A32_of_IR (A32_UniqueHash d)) = cpsr d" by (intro bit_word_eqI) simp
qed simp

lemma bit_A64_UniqueHash:
  "bit (A64_UniqueHash d) n \<longleftrightarrow> bit (a64_pc d) n \<or> (n < 64 \<and> 37 \<le> n \<and> bit (fpcr d) (n - 37))
     \<or> (n = 57 \<and> a64_single_stepping d)"
  by (auto simp: A64_UniqueHash_def Let_def fpcr_shift_def single_stepping_bit_def bit_or_iff bit_push_bit_iff
      bit_unsigned_iff bit_1_iff dest: bit_imp_le_length)

lemma A64_of_IR_hash:
  assumes "A64_valid d"
  shows "A64_of_IR (A64_UniqueHash d) = d"
proof (rule A64_LocationDescriptor.equality)
  have fb: "bit (fpcr d) n \<Longrightarrow> n = 19 \<or> (22 \<le> n \<and> n \<le> 26)" for n
    using assms unfolding A64_valid_def by (metis bit_and_iff bit_mode_masks(3))
  have pb: "bit (a64_pc d) n \<Longrightarrow> n \<le> 55" for n
    using assms unfolding A64_valid_def by (metis bit_and_iff bit_mode_masks(4))
  note h = A64_of_IR_def bit_A64_UniqueHash bit_unsigned_iff bit_drop_bit_eq bit_and_iff bit_mode_masks
  show "a64_pc (A64_of_IR (A64_UniqueHash d)) = a64_pc d"
    by (rule bit_word_eqI) (auto simp: h dest: fb pb)
  show "a64_single_stepping (A64_of_IR (A64_UniqueHash d)) = a64_single_stepping d"
    by (auto simp: h single_stepping_bit_def umbra_bits dest: fb pb)
  show "fpcr (A64_of_IR (A64_UniqueHash d)) = fpcr d"
    by (rule bit_word_eqI) (auto simp: h FPCR_make_cast fpcr_shift_def add.commute dest: fb pb)
qed simp

lemma A32_of_IR_valid: "A32_valid (A32_of_IR u)"
proof -
  have "v AND CPSR_MODE_MASK = v" if "\<And>n. bit v n \<Longrightarrow> bit CPSR_MODE_MASK n" for v
    using that by (auto simp: bit_eq_iff bit_and_iff)
  moreover have "bit (PSR_set_IT (PSR_set_E (PSR_set_T 0 t) e) it) n \<Longrightarrow> bit CPSR_MODE_MASK n" for t e it n
    by (cases "n < 32") (auto simp: bit_mode_masks bit_PSR_set_IT PSR_flag_bits split: if_splits)
  ultimately show ?thesis
    by (simp add: A32_valid_def A32_of_IR_def Let_def FPSCR_make_cast and.assoc)
qed

lemma A64_of_IR_valid: "A64_valid (A64_of_IR u)"
  by (simp add: A64_valid_def A64_of_IR_def FPCR_make_cast and.assoc)

interpretation A32_location: packed_location A32_valid A32_UniqueHash A32_of_IR
  by unfold_locales (simp_all add: A32_of_IR_hash A32_of_IR_valid)

interpretation A64_location: packed_location A64_valid A64_UniqueHash A64_of_IR
  by unfold_locales (simp_all add: A64_of_IR_hash A64_of_IR_valid)

text \<open>
  C18. An AArch32 location is recovered from its 64-bit hash: whatever program counter,
  status registers and single-stepping flag it is built from, unpacking the hash gives
  the descriptor back, so two locations with the same hash are the same location.
\<close>

theorem A32_location_roundtrip:
  "A32_of_IR (A32_UniqueHash (A32_make pc psr fp single)) = A32_make pc psr fp single
   \<and> (A32_UniqueHash (A32_make pc psr fp single) = A32_UniqueHash (A32_make pc' psr' fp' single')
      \<longleftrightarrow> A32_make pc psr fp single = A32_make pc' psr' fp' single')"
  using A32_location.unpack_hash [OF A32_make_valid] A32_location.hash_unique [OF A32_make_valid A32_make_valid]
  by blast

text \<open>
  C19. An AArch64 location is recovered from its hash, and its program counter is the
  sign extension of the low 56 bits it was given.
\<close>

theorem A64_location_roundtrip:
  "A64_of_IR (A64_UniqueHash (A64_make pc f single)) = A64_make pc f single
   \<and> A64_PC (A64_make pc f single) = sign_extend 56 pc
   \<and> (A64_UniqueHash (A64_make pc f single) = A64_UniqueHash (A64_make pc' f' single')
      \<longleftrightarrow> A64_make pc f single = A64_make pc' f' single')"
proof (intro conjI)
  show "A64_PC (A64_make pc f single) = sign_extend 56 pc"
    by (rule bit_word_eqI)
       (auto simp: A64_PC_def A64_make_def pc_bit_count_def umbra_bits bit_and_iff bit_mode_masks)
qed (use A64_location.unpack_hash [OF A64_make_valid] A64_location.hash_unique [OF A64_make_valid A64_make_valid]
     in blast)+

lemma CPSR_mode_closed:
  assumes "v AND CPSR_MODE_MASK = v"
  shows "PSR_set_T v b AND CPSR_MODE_MASK = PSR_set_T v b" "PSR_set_E v b AND CPSR_MODE_MASK = PSR_set_E v b"
    "PSR_set_IT v it AND CPSR_MODE_MASK = PSR_set_IT v it"
  using assms unfolding valid_iff_bits by (auto simp: bit_mode_masks PSR_flag_bits bit_PSR_set_IT)

lemma A32_make_cpsr:
  "A32_valid d \<Longrightarrow> c AND CPSR_MODE_MASK = c \<Longrightarrow> A32_make (arm_pc d) c (fpscr d) (a32_single_stepping d) = d\<lparr>cpsr := c\<rparr>"
  using make_masks(1) [of c] make_masks(2) [of "fpscr d"] by (simp add: A32_valid_def A32_make_def)

lemma A32_updates:
  assumes "A32_valid d"
  shows "A32_SetPC d p = d\<lparr>arm_pc := p\<rparr>" "A32_AdvancePC d i = d\<lparr>arm_pc := arm_pc d + of_int i\<rparr>"
    "A32_SetTFlag d b = d\<lparr>cpsr := PSR_set_T (cpsr d) b\<rparr>" "A32_SetEFlag d b = d\<lparr>cpsr := PSR_set_E (cpsr d) b\<rparr>"
    "A32_SetIT d it = d\<lparr>cpsr := PSR_set_IT (cpsr d) it\<rparr>"
    "A32_SetFPSCR d f = d\<lparr>fpscr := f AND FPSCR_MODE_MASK\<rparr>"
    "A32_SetSingleStepping d b = d\<lparr>a32_single_stepping := b\<rparr>"
proof -
  have c: "cpsr d AND CPSR_MODE_MASK = cpsr d" using assms by (simp add: A32_valid_def)
  show "A32_SetTFlag d b = d\<lparr>cpsr := PSR_set_T (cpsr d) b\<rparr>" "A32_SetEFlag d b = d\<lparr>cpsr := PSR_set_E (cpsr d) b\<rparr>"
    "A32_SetIT d it = d\<lparr>cpsr := PSR_set_IT (cpsr d) it\<rparr>"
    unfolding A32_SetTFlag_def A32_SetEFlag_def A32_SetIT_def
    by (rule A32_make_cpsr [OF assms]; rule CPSR_mode_closed [OF c])+
  show "A32_SetFPSCR d f = d\<lparr>fpscr := f AND FPSCR_MODE_MASK\<rparr>"
    using make_masks(1) [of "cpsr d"] c by (simp add: A32_SetFPSCR_def A32_make_def make_masks and.assoc)
qed (simp_all add: A32_SetPC_def A32_AdvancePC_def A32_SetSingleStepping_def A32_make_keep [OF assms])

text \<open>
  C28. The update operations of an AArch32 location change the component they name and no
  other.  Setting or advancing the program counter, which wraps around, setting the
  floating point mode and setting the single-stepping flag replace that component of the
  descriptor.  The setters of the thumb flag, the endian flag and the If-Then state, and
  the advance of the If-Then state, write that field of the status register and leave the
  program counter, the floating point mode and the single-stepping flag, and the other two
  fields of the status register, as they were.  Advances of the program counter compose.
\<close>

theorem A32_location_updates:
  assumes "A32_valid d"
  shows "A32_SetPC d p = d\<lparr>arm_pc := p\<rparr>
     \<and> A32_AdvancePC d i = d\<lparr>arm_pc := arm_pc d + of_int i\<rparr>
     \<and> A32_SetFPSCR d f = d\<lparr>fpscr := f AND FPSCR_MODE_MASK\<rparr>
     \<and> A32_SetSingleStepping d b = d\<lparr>a32_single_stepping := b\<rparr>
     \<and> A32_SetTFlag d b = d\<lparr>cpsr := PSR_set_T (cpsr d) b\<rparr>
     \<and> A32_TFlag (A32_SetTFlag d b) = b \<and> A32_EFlag (A32_SetTFlag d b) = A32_EFlag d \<and> A32_IT (A32_SetTFlag d b) = A32_IT d
     \<and> A32_SetEFlag d b = d\<lparr>cpsr := PSR_set_E (cpsr d) b\<rparr>
     \<and> A32_EFlag (A32_SetEFlag d b) = b \<and> A32_TFlag (A32_SetEFlag d b) = A32_TFlag d \<and> A32_IT (A32_SetEFlag d b) = A32_IT d
     \<and> A32_SetIT d it = d\<lparr>cpsr := PSR_set_IT (cpsr d) it\<rparr>
     \<and> A32_IT (A32_SetIT d it) = it \<and> A32_TFlag (A32_SetIT d it) = A32_TFlag d \<and> A32_EFlag (A32_SetIT d it) = A32_EFlag d
     \<and> A32_AdvanceIT d = d\<lparr>cpsr := PSR_set_IT (cpsr d) (ITState_Advance (A32_IT d))\<rparr>
     \<and> A32_AdvancePC (A32_AdvancePC d i) j = A32_AdvancePC d (i + j) \<and> A32_AdvancePC d 0 = d
     \<and> A32_AdvancePC (A32_AdvancePC d i) (- i) = d"
proof -
  have IT: "PSR_IT (PSR_set_T v b) = PSR_IT v" "PSR_IT (PSR_set_E v b) = PSR_IT v" "PSR_IT (PSR_set_IT v it) = it" for v
    by (rule bit_word_eqI, simp add: bit_PSR_IT PSR_flag_bits bit_PSR_set_IT)+
  have "A32_valid (d\<lparr>arm_pc := q\<rparr>)" for q using assms by (simp add: A32_valid_def)
  then have "A32_AdvancePC (d\<lparr>arm_pc := q\<rparr>) k = d\<lparr>arm_pc := q + of_int k\<rparr>" for q k by (simp add: A32_updates(2))
  then show ?thesis
    by (simp add: A32_updates [OF assms] A32_AdvanceIT_def A32_TFlag_def A32_EFlag_def A32_IT_def IT
        PSR_flag_bits bit_PSR_set_IT add.assoc)
qed

theorem A32_location_updates_witness:
  "A32_SetTFlag (A32_make 0x1000 0x20 0 True) False = (A32_make 0x1000 0x20 0 True)\<lparr>cpsr := PSR_set_T 0x20 False\<rparr>
     \<and> A32_AdvancePC (A32_AdvancePC (A32_make 0x1000 0x20 0 True) 4) (- 4) = A32_make 0x1000 0x20 0 True"
proof -
  have c: "cpsr (A32_make 0x1000 0x20 0 True) = 0x20" by (simp add: A32_make_def PSR_make_def PSR_mask_def CPSR_MODE_MASK_def)
  show ?thesis
    using A32_location_updates [OF A32_make_valid, of "0x1000" "0x20" 0 True 0 4 0 False 0 "- 4"] unfolding c by blast
qed

end
