(* ===== verification/Crypto.thy ===== *)
theory Crypto
  imports Bit_Util
begin

text \<open>
  The software fallbacks of the cryptographic instructions (\<^verbatim>\<open>common/crypto/\<close>): table-driven
  CRC32 with the Castagnoli and ISO polynomials, the AES round functions and the SM4
  substitution box.  The CRC tables are related to bitwise division by the reflected
  polynomial, the AES operations to their inverses.
\<close>

section \<open>CRC32 (crc32.cpp)\<close>

definition castagnoli_table :: "u32 list" where
  "castagnoli_table =
    [0x00000000, 0xF26B8303, 0xE13B70F7, 0x1350F3F4, 0xC79A971F, 0x35F1141C, 0x26A1E7E8, 0xD4CA64EB,
     0x8AD958CF, 0x78B2DBCC, 0x6BE22838, 0x9989AB3B, 0x4D43CFD0, 0xBF284CD3, 0xAC78BF27, 0x5E133C24,
     0x105EC76F, 0xE235446C, 0xF165B798, 0x030E349B, 0xD7C45070, 0x25AFD373, 0x36FF2087, 0xC494A384,
     0x9A879FA0, 0x68EC1CA3, 0x7BBCEF57, 0x89D76C54, 0x5D1D08BF, 0xAF768BBC, 0xBC267848, 0x4E4DFB4B,
     0x20BD8EDE, 0xD2D60DDD, 0xC186FE29, 0x33ED7D2A, 0xE72719C1, 0x154C9AC2, 0x061C6936, 0xF477EA35,
     0xAA64D611, 0x580F5512, 0x4B5FA6E6, 0xB93425E5, 0x6DFE410E, 0x9F95C20D, 0x8CC531F9, 0x7EAEB2FA,
     0x30E349B1, 0xC288CAB2, 0xD1D83946, 0x23B3BA45, 0xF779DEAE, 0x05125DAD, 0x1642AE59, 0xE4292D5A,
     0xBA3A117E, 0x4851927D, 0x5B016189, 0xA96AE28A, 0x7DA08661, 0x8FCB0562, 0x9C9BF696, 0x6EF07595,
     0x417B1DBC, 0xB3109EBF, 0xA0406D4B, 0x522BEE48, 0x86E18AA3, 0x748A09A0, 0x67DAFA54, 0x95B17957,
     0xCBA24573, 0x39C9C670, 0x2A993584, 0xD8F2B687, 0x0C38D26C, 0xFE53516F, 0xED03A29B, 0x1F682198,
     0x5125DAD3, 0xA34E59D0, 0xB01EAA24, 0x42752927, 0x96BF4DCC, 0x64D4CECF, 0x77843D3B, 0x85EFBE38,
     0xDBFC821C, 0x2997011F, 0x3AC7F2EB, 0xC8AC71E8, 0x1C661503, 0xEE0D9600, 0xFD5D65F4, 0x0F36E6F7,
     0x61C69362, 0x93AD1061, 0x80FDE395, 0x72966096, 0xA65C047D, 0x5437877E, 0x4767748A, 0xB50CF789,
     0xEB1FCBAD, 0x197448AE, 0x0A24BB5A, 0xF84F3859, 0x2C855CB2, 0xDEEEDFB1, 0xCDBE2C45, 0x3FD5AF46,
     0x7198540D, 0x83F3D70E, 0x90A324FA, 0x62C8A7F9, 0xB602C312, 0x44694011, 0x5739B3E5, 0xA55230E6,
     0xFB410CC2, 0x092A8FC1, 0x1A7A7C35, 0xE811FF36, 0x3CDB9BDD, 0xCEB018DE, 0xDDE0EB2A, 0x2F8B6829,
     0x82F63B78, 0x709DB87B, 0x63CD4B8F, 0x91A6C88C, 0x456CAC67, 0xB7072F64, 0xA457DC90, 0x563C5F93,
     0x082F63B7, 0xFA44E0B4, 0xE9141340, 0x1B7F9043, 0xCFB5F4A8, 0x3DDE77AB, 0x2E8E845F, 0xDCE5075C,
     0x92A8FC17, 0x60C37F14, 0x73938CE0, 0x81F80FE3, 0x55326B08, 0xA759E80B, 0xB4091BFF, 0x466298FC,
     0x1871A4D8, 0xEA1A27DB, 0xF94AD42F, 0x0B21572C, 0xDFEB33C7, 0x2D80B0C4, 0x3ED04330, 0xCCBBC033,
     0xA24BB5A6, 0x502036A5, 0x4370C551, 0xB11B4652, 0x65D122B9, 0x97BAA1BA, 0x84EA524E, 0x7681D14D,
     0x2892ED69, 0xDAF96E6A, 0xC9A99D9E, 0x3BC21E9D, 0xEF087A76, 0x1D63F975, 0x0E330A81, 0xFC588982,
     0xB21572C9, 0x407EF1CA, 0x532E023E, 0xA145813D, 0x758FE5D6, 0x87E466D5, 0x94B49521, 0x66DF1622,
     0x38CC2A06, 0xCAA7A905, 0xD9F75AF1, 0x2B9CD9F2, 0xFF56BD19, 0x0D3D3E1A, 0x1E6DCDEE, 0xEC064EED,
     0xC38D26C4, 0x31E6A5C7, 0x22B65633, 0xD0DDD530, 0x0417B1DB, 0xF67C32D8, 0xE52CC12C, 0x1747422F,
     0x49547E0B, 0xBB3FFD08, 0xA86F0EFC, 0x5A048DFF, 0x8ECEE914, 0x7CA56A17, 0x6FF599E3, 0x9D9E1AE0,
     0xD3D3E1AB, 0x21B862A8, 0x32E8915C, 0xC083125F, 0x144976B4, 0xE622F5B7, 0xF5720643, 0x07198540,
     0x590AB964, 0xAB613A67, 0xB831C993, 0x4A5A4A90, 0x9E902E7B, 0x6CFBAD78, 0x7FAB5E8C, 0x8DC0DD8F,
     0xE330A81A, 0x115B2B19, 0x020BD8ED, 0xF0605BEE, 0x24AA3F05, 0xD6C1BC06, 0xC5914FF2, 0x37FACCF1,
     0x69E9F0D5, 0x9B8273D6, 0x88D28022, 0x7AB90321, 0xAE7367CA, 0x5C18E4C9, 0x4F48173D, 0xBD23943E,
     0xF36E6F75, 0x0105EC76, 0x12551F82, 0xE03E9C81, 0x34F4F86A, 0xC69F7B69, 0xD5CF889D, 0x27A40B9E,
     0x79B737BA, 0x8BDCB4B9, 0x988C474D, 0x6AE7C44E, 0xBE2DA0A5, 0x4C4623A6, 0x5F16D052, 0xAD7D5351]"

definition iso_table :: "u32 list" where
  "iso_table =
    [0x00000000, 0x77073096, 0xEE0E612C, 0x990951BA, 0x076DC419, 0x706AF48F, 0xE963A535, 0x9E6495A3,
     0x0EDB8832, 0x79DCB8A4, 0xE0D5E91E, 0x97D2D988, 0x09B64C2B, 0x7EB17CBD, 0xE7B82D07, 0x90BF1D91,
     0x1DB71064, 0x6AB020F2, 0xF3B97148, 0x84BE41DE, 0x1ADAD47D, 0x6DDDE4EB, 0xF4D4B551, 0x83D385C7,
     0x136C9856, 0x646BA8C0, 0xFD62F97A, 0x8A65C9EC, 0x14015C4F, 0x63066CD9, 0xFA0F3D63, 0x8D080DF5,
     0x3B6E20C8, 0x4C69105E, 0xD56041E4, 0xA2677172, 0x3C03E4D1, 0x4B04D447, 0xD20D85FD, 0xA50AB56B,
     0x35B5A8FA, 0x42B2986C, 0xDBBBC9D6, 0xACBCF940, 0x32D86CE3, 0x45DF5C75, 0xDCD60DCF, 0xABD13D59,
     0x26D930AC, 0x51DE003A, 0xC8D75180, 0xBFD06116, 0x21B4F4B5, 0x56B3C423, 0xCFBA9599, 0xB8BDA50F,
     0x2802B89E, 0x5F058808, 0xC60CD9B2, 0xB10BE924, 0x2F6F7C87, 0x58684C11, 0xC1611DAB, 0xB6662D3D,
     0x76DC4190, 0x01DB7106, 0x98D220BC, 0xEFD5102A, 0x71B18589, 0x06B6B51F, 0x9FBFE4A5, 0xE8B8D433,
     0x7807C9A2, 0x0F00F934, 0x9609A88E, 0xE10E9818, 0x7F6A0DBB, 0x086D3D2D, 0x91646C97, 0xE6635C01,
     0x6B6B51F4, 0x1C6C6162, 0x856530D8, 0xF262004E, 0x6C0695ED, 0x1B01A57B, 0x8208F4C1, 0xF50FC457,
     0x65B0D9C6, 0x12B7E950, 0x8BBEB8EA, 0xFCB9887C, 0x62DD1DDF, 0x15DA2D49, 0x8CD37CF3, 0xFBD44C65,
     0x4DB26158, 0x3AB551CE, 0xA3BC0074, 0xD4BB30E2, 0x4ADFA541, 0x3DD895D7, 0xA4D1C46D, 0xD3D6F4FB,
     0x4369E96A, 0x346ED9FC, 0xAD678846, 0xDA60B8D0, 0x44042D73, 0x33031DE5, 0xAA0A4C5F, 0xDD0D7CC9,
     0x5005713C, 0x270241AA, 0xBE0B1010, 0xC90C2086, 0x5768B525, 0x206F85B3, 0xB966D409, 0xCE61E49F,
     0x5EDEF90E, 0x29D9C998, 0xB0D09822, 0xC7D7A8B4, 0x59B33D17, 0x2EB40D81, 0xB7BD5C3B, 0xC0BA6CAD,
     0xEDB88320, 0x9ABFB3B6, 0x03B6E20C, 0x74B1D29A, 0xEAD54739, 0x9DD277AF, 0x04DB2615, 0x73DC1683,
     0xE3630B12, 0x94643B84, 0x0D6D6A3E, 0x7A6A5AA8, 0xE40ECF0B, 0x9309FF9D, 0x0A00AE27, 0x7D079EB1,
     0xF00F9344, 0x8708A3D2, 0x1E01F268, 0x6906C2FE, 0xF762575D, 0x806567CB, 0x196C3671, 0x6E6B06E7,
     0xFED41B76, 0x89D32BE0, 0x10DA7A5A, 0x67DD4ACC, 0xF9B9DF6F, 0x8EBEEFF9, 0x17B7BE43, 0x60B08ED5,
     0xD6D6A3E8, 0xA1D1937E, 0x38D8C2C4, 0x4FDFF252, 0xD1BB67F1, 0xA6BC5767, 0x3FB506DD, 0x48B2364B,
     0xD80D2BDA, 0xAF0A1B4C, 0x36034AF6, 0x41047A60, 0xDF60EFC3, 0xA867DF55, 0x316E8EEF, 0x4669BE79,
     0xCB61B38C, 0xBC66831A, 0x256FD2A0, 0x5268E236, 0xCC0C7795, 0xBB0B4703, 0x220216B9, 0x5505262F,
     0xC5BA3BBE, 0xB2BD0B28, 0x2BB45A92, 0x5CB36A04, 0xC2D7FFA7, 0xB5D0CF31, 0x2CD99E8B, 0x5BDEAE1D,
     0x9B64C2B0, 0xEC63F226, 0x756AA39C, 0x026D930A, 0x9C0906A9, 0xEB0E363F, 0x72076785, 0x05005713,
     0x95BF4A82, 0xE2B87A14, 0x7BB12BAE, 0x0CB61B38, 0x92D28E9B, 0xE5D5BE0D, 0x7CDCEFB7, 0x0BDBDF21,
     0x86D3D2D4, 0xF1D4E242, 0x68DDB3F8, 0x1FDA836E, 0x81BE16CD, 0xF6B9265B, 0x6FB077E1, 0x18B74777,
     0x88085AE6, 0xFF0F6A70, 0x66063BCA, 0x11010B5C, 0x8F659EFF, 0xF862AE69, 0x616BFFD3, 0x166CCF45,
     0xA00AE278, 0xD70DD2EE, 0x4E048354, 0x3903B3C2, 0xA7672661, 0xD06016F7, 0x4969474D, 0x3E6E77DB,
     0xAED16A4A, 0xD9D65ADC, 0x40DF0B66, 0x37D83BF0, 0xA9BCAE53, 0xDEBB9EC5, 0x47B2CF7F, 0x30B5FFE9,
     0xBDBDF21C, 0xCABAC28A, 0x53B39330, 0x24B4A3A6, 0xBAD03605, 0xCDD70693, 0x54DE5729, 0x23D967BF,
     0xB3667A2E, 0xC4614AB8, 0x5D681B02, 0x2A6F2B94, 0xB40BBE37, 0xC30C8EA1, 0x5A05DF1B, 0x2D02EF8D]"

text \<open>
  The loop of \<^verbatim>\<open>ComputeCRC32\<close> walks the bytes of its 64-bit argument in memory order, which
  is from the least significant byte on the little-endian hosts the recompiler supports.
  A length above eight reads past the argument and is an error of the model.
\<close>

fun ComputeCRC32_loop :: "u32 list \<Rightarrow> u32 \<Rightarrow> u64 \<Rightarrow> nat \<Rightarrow> nat \<Rightarrow> u32" where
  "ComputeCRC32_loop table crc v i 0 = crc"
| "ComputeCRC32_loop table crc v i (Suc n) =
     ComputeCRC32_loop table
       (drop_bit 8 crc XOR table ! unat ((crc XOR ucast (ucast (drop_bit (8 * i) v) :: u8)) AND 0xFF)) v (Suc i) n"

definition ComputeCRC32 :: "u32 list \<Rightarrow> u32 \<Rightarrow> u64 \<Rightarrow> int \<Rightarrow> u32 option" where
  "ComputeCRC32 table crc v len = (if 8 < len then None else Some (ComputeCRC32_loop table crc v 0 (nat len)))"

definition ComputeCRC32Castagnoli :: "u32 \<Rightarrow> u64 \<Rightarrow> int \<Rightarrow> u32 option" where
  "ComputeCRC32Castagnoli crc v len = ComputeCRC32 castagnoli_table crc v len"

definition ComputeCRC32ISO :: "u32 \<Rightarrow> u64 \<Rightarrow> int \<Rightarrow> u32 option" where
  "ComputeCRC32ISO crc v len = ComputeCRC32 iso_table crc v len"

section \<open>AES (aes.cpp)\<close>

definition substitution_box :: "u8 list" where
  "substitution_box =
    [0x63, 0x7C, 0x77, 0x7B, 0xF2, 0x6B, 0x6F, 0xC5, 0x30, 0x01, 0x67, 0x2B, 0xFE, 0xD7, 0xAB, 0x76,
     0xCA, 0x82, 0xC9, 0x7D, 0xFA, 0x59, 0x47, 0xF0, 0xAD, 0xD4, 0xA2, 0xAF, 0x9C, 0xA4, 0x72, 0xC0,
     0xB7, 0xFD, 0x93, 0x26, 0x36, 0x3F, 0xF7, 0xCC, 0x34, 0xA5, 0xE5, 0xF1, 0x71, 0xD8, 0x31, 0x15,
     0x04, 0xC7, 0x23, 0xC3, 0x18, 0x96, 0x05, 0x9A, 0x07, 0x12, 0x80, 0xE2, 0xEB, 0x27, 0xB2, 0x75,
     0x09, 0x83, 0x2C, 0x1A, 0x1B, 0x6E, 0x5A, 0xA0, 0x52, 0x3B, 0xD6, 0xB3, 0x29, 0xE3, 0x2F, 0x84,
     0x53, 0xD1, 0x00, 0xED, 0x20, 0xFC, 0xB1, 0x5B, 0x6A, 0xCB, 0xBE, 0x39, 0x4A, 0x4C, 0x58, 0xCF,
     0xD0, 0xEF, 0xAA, 0xFB, 0x43, 0x4D, 0x33, 0x85, 0x45, 0xF9, 0x02, 0x7F, 0x50, 0x3C, 0x9F, 0xA8,
     0x51, 0xA3, 0x40, 0x8F, 0x92, 0x9D, 0x38, 0xF5, 0xBC, 0xB6, 0xDA, 0x21, 0x10, 0xFF, 0xF3, 0xD2,
     0xCD, 0x0C, 0x13, 0xEC, 0x5F, 0x97, 0x44, 0x17, 0xC4, 0xA7, 0x7E, 0x3D, 0x64, 0x5D, 0x19, 0x73,
     0x60, 0x81, 0x4F, 0xDC, 0x22, 0x2A, 0x90, 0x88, 0x46, 0xEE, 0xB8, 0x14, 0xDE, 0x5E, 0x0B, 0xDB,
     0xE0, 0x32, 0x3A, 0x0A, 0x49, 0x06, 0x24, 0x5C, 0xC2, 0xD3, 0xAC, 0x62, 0x91, 0x95, 0xE4, 0x79,
     0xE7, 0xC8, 0x37, 0x6D, 0x8D, 0xD5, 0x4E, 0xA9, 0x6C, 0x56, 0xF4, 0xEA, 0x65, 0x7A, 0xAE, 0x08,
     0xBA, 0x78, 0x25, 0x2E, 0x1C, 0xA6, 0xB4, 0xC6, 0xE8, 0xDD, 0x74, 0x1F, 0x4B, 0xBD, 0x8B, 0x8A,
     0x70, 0x3E, 0xB5, 0x66, 0x48, 0x03, 0xF6, 0x0E, 0x61, 0x35, 0x57, 0xB9, 0x86, 0xC1, 0x1D, 0x9E,
     0xE1, 0xF8, 0x98, 0x11, 0x69, 0xD9, 0x8E, 0x94, 0x9B, 0x1E, 0x87, 0xE9, 0xCE, 0x55, 0x28, 0xDF,
     0x8C, 0xA1, 0x89, 0x0D, 0xBF, 0xE6, 0x42, 0x68, 0x41, 0x99, 0x2D, 0x0F, 0xB0, 0x54, 0xBB, 0x16]"

definition inverse_substitution_box :: "u8 list" where
  "inverse_substitution_box =
    [0x52, 0x09, 0x6A, 0xD5, 0x30, 0x36, 0xA5, 0x38, 0xBF, 0x40, 0xA3, 0x9E, 0x81, 0xF3, 0xD7, 0xFB,
     0x7C, 0xE3, 0x39, 0x82, 0x9B, 0x2F, 0xFF, 0x87, 0x34, 0x8E, 0x43, 0x44, 0xC4, 0xDE, 0xE9, 0xCB,
     0x54, 0x7B, 0x94, 0x32, 0xA6, 0xC2, 0x23, 0x3D, 0xEE, 0x4C, 0x95, 0x0B, 0x42, 0xFA, 0xC3, 0x4E,
     0x08, 0x2E, 0xA1, 0x66, 0x28, 0xD9, 0x24, 0xB2, 0x76, 0x5B, 0xA2, 0x49, 0x6D, 0x8B, 0xD1, 0x25,
     0x72, 0xF8, 0xF6, 0x64, 0x86, 0x68, 0x98, 0x16, 0xD4, 0xA4, 0x5C, 0xCC, 0x5D, 0x65, 0xB6, 0x92,
     0x6C, 0x70, 0x48, 0x50, 0xFD, 0xED, 0xB9, 0xDA, 0x5E, 0x15, 0x46, 0x57, 0xA7, 0x8D, 0x9D, 0x84,
     0x90, 0xD8, 0xAB, 0x00, 0x8C, 0xBC, 0xD3, 0x0A, 0xF7, 0xE4, 0x58, 0x05, 0xB8, 0xB3, 0x45, 0x06,
     0xD0, 0x2C, 0x1E, 0x8F, 0xCA, 0x3F, 0x0F, 0x02, 0xC1, 0xAF, 0xBD, 0x03, 0x01, 0x13, 0x8A, 0x6B,
     0x3A, 0x91, 0x11, 0x41, 0x4F, 0x67, 0xDC, 0xEA, 0x97, 0xF2, 0xCF, 0xCE, 0xF0, 0xB4, 0xE6, 0x73,
     0x96, 0xAC, 0x74, 0x22, 0xE7, 0xAD, 0x35, 0x85, 0xE2, 0xF9, 0x37, 0xE8, 0x1C, 0x75, 0xDF, 0x6E,
     0x47, 0xF1, 0x1A, 0x71, 0x1D, 0x29, 0xC5, 0x89, 0x6F, 0xB7, 0x62, 0x0E, 0xAA, 0x18, 0xBE, 0x1B,
     0xFC, 0x56, 0x3E, 0x4B, 0xC6, 0xD2, 0x79, 0x20, 0x9A, 0xDB, 0xC0, 0xFE, 0x78, 0xCD, 0x5A, 0xF4,
     0x1F, 0xDD, 0xA8, 0x33, 0x88, 0x07, 0xC7, 0x31, 0xB1, 0x12, 0x10, 0x59, 0x27, 0x80, 0xEC, 0x5F,
     0x60, 0x51, 0x7F, 0xA9, 0x19, 0xB5, 0x4A, 0x0D, 0x2D, 0xE5, 0x7A, 0x9F, 0x93, 0xC9, 0x9C, 0xEF,
     0xA0, 0xE0, 0x3B, 0x4D, 0xAE, 0x2A, 0xF5, 0xB0, 0xC8, 0xEB, 0xBB, 0x3C, 0x83, 0x53, 0x99, 0x61,
     0x17, 0x2B, 0x04, 0x7E, 0xBA, 0x77, 0xD6, 0x26, 0xE1, 0x69, 0x14, 0x63, 0x55, 0x21, 0x0C, 0x7D]"

definition xtime :: "u8 \<Rightarrow> u8" where
  "xtime x = push_bit 1 x XOR ((drop_bit 7 x AND 1) * 0x1B)"

definition Multiply :: "u8 \<Rightarrow> u8 \<Rightarrow> u8" where
  "Multiply x y =
     ((y AND 1) * x)
     XOR ((drop_bit 1 y AND 1) * xtime x)
     XOR ((drop_bit 2 y AND 1) * xtime (xtime x))
     XOR ((drop_bit 3 y AND 1) * xtime (xtime (xtime x)))
     XOR ((drop_bit 4 y AND 1) * xtime (xtime (xtime (xtime x))))"

text \<open>The 16-byte state; the operations write a second state.\<close>

type_synonym aes_state = "u8 list"

definition ShiftRows :: "aes_state \<Rightarrow> aes_state \<Rightarrow> aes_state" where
  "ShiftRows out state =
     out[0 := state ! 0, 4 := state ! 4, 8 := state ! 8, 12 := state ! 12,
         1 := state ! 5, 5 := state ! 9, 9 := state ! 13, 13 := state ! 1,
         2 := state ! 10, 10 := state ! 2, 6 := state ! 14, 14 := state ! 6,
         3 := state ! 15, 15 := state ! 11, 11 := state ! 7, 7 := state ! 3]"

definition InverseShiftRows :: "aes_state \<Rightarrow> aes_state \<Rightarrow> aes_state" where
  "InverseShiftRows out state =
     out[0 := state ! 0, 4 := state ! 4, 8 := state ! 8, 12 := state ! 12,
         13 := state ! 9, 9 := state ! 5, 5 := state ! 1, 1 := state ! 13,
         2 := state ! 10, 10 := state ! 2, 6 := state ! 14, 14 := state ! 6,
         3 := state ! 7, 7 := state ! 11, 11 := state ! 15, 15 := state ! 3]"

text \<open>The nested loops visit every byte of the state once.\<close>

fun SubBytes_loop :: "aes_state \<Rightarrow> u8 list \<Rightarrow> nat list \<Rightarrow> aes_state" where
  "SubBytes_loop state table [] = state"
| "SubBytes_loop state table (k # ks) = SubBytes_loop (state[k := table ! unat (state ! k)]) table ks"

definition SubBytes :: "aes_state \<Rightarrow> u8 list \<Rightarrow> aes_state" where
  "SubBytes state table = SubBytes_loop state table [4 * i + j. i \<leftarrow> [0..<4], j \<leftarrow> [0..<4]]"

definition DecryptSingleRound :: "aes_state \<Rightarrow> aes_state \<Rightarrow> aes_state" where
  "DecryptSingleRound out state = SubBytes (InverseShiftRows out state) inverse_substitution_box"

definition EncryptSingleRound :: "aes_state \<Rightarrow> aes_state \<Rightarrow> aes_state" where
  "EncryptSingleRound out state = SubBytes (ShiftRows out state) substitution_box"

fun MixColumns_loop :: "aes_state \<Rightarrow> aes_state \<Rightarrow> nat list \<Rightarrow> aes_state" where
  "MixColumns_loop out state [] = out"
| "MixColumns_loop out state (i # is) =
     (let a = state ! i; b = state ! (i + 1); c = state ! (i + 2); d = state ! (i + 3);
          tmp = a XOR b XOR c XOR d
      in MixColumns_loop
           (out[i := a XOR xtime (a XOR b) XOR tmp, i + 1 := b XOR xtime (b XOR c) XOR tmp,
                i + 2 := c XOR xtime (c XOR d) XOR tmp, i + 3 := d XOR xtime (d XOR a) XOR tmp]) state is)"

definition MixColumns :: "aes_state \<Rightarrow> aes_state \<Rightarrow> aes_state" where
  "MixColumns out state = MixColumns_loop out state [0, 4, 8, 12]"

fun InverseMixColumns_loop :: "aes_state \<Rightarrow> aes_state \<Rightarrow> nat list \<Rightarrow> aes_state" where
  "InverseMixColumns_loop out state [] = out"
| "InverseMixColumns_loop out state (i # is) =
     (let a = state ! i; b = state ! (i + 1); c = state ! (i + 2); d = state ! (i + 3)
      in InverseMixColumns_loop
           (out[i := Multiply a 0x0E XOR Multiply b 0x0B XOR Multiply c 0x0D XOR Multiply d 0x09,
                i + 1 := Multiply a 0x09 XOR Multiply b 0x0E XOR Multiply c 0x0B XOR Multiply d 0x0D,
                i + 2 := Multiply a 0x0D XOR Multiply b 0x09 XOR Multiply c 0x0E XOR Multiply d 0x0B,
                i + 3 := Multiply a 0x0B XOR Multiply b 0x0D XOR Multiply c 0x09 XOR Multiply d 0x0E]) state is)"

definition InverseMixColumns :: "aes_state \<Rightarrow> aes_state \<Rightarrow> aes_state" where
  "InverseMixColumns out state = InverseMixColumns_loop out state [0, 4, 8, 12]"

section \<open>SM4 (sm4.cpp)\<close>

definition sm4_substitution_box :: "u8 list" where
  "sm4_substitution_box =
    [0xD6, 0x90, 0xE9, 0xFE, 0xCC, 0xE1, 0x3D, 0xB7, 0x16, 0xB6, 0x14, 0xC2, 0x28, 0xFB, 0x2C, 0x05,
     0x2B, 0x67, 0x9A, 0x76, 0x2A, 0xBE, 0x04, 0xC3, 0xAA, 0x44, 0x13, 0x26, 0x49, 0x86, 0x06, 0x99,
     0x9C, 0x42, 0x50, 0xF4, 0x91, 0xEF, 0x98, 0x7A, 0x33, 0x54, 0x0B, 0x43, 0xED, 0xCF, 0xAC, 0x62,
     0xE4, 0xB3, 0x1C, 0xA9, 0xC9, 0x08, 0xE8, 0x95, 0x80, 0xDF, 0x94, 0xFA, 0x75, 0x8F, 0x3F, 0xA6,
     0x47, 0x07, 0xA7, 0xFC, 0xF3, 0x73, 0x17, 0xBA, 0x83, 0x59, 0x3C, 0x19, 0xE6, 0x85, 0x4F, 0xA8,
     0x68, 0x6B, 0x81, 0xB2, 0x71, 0x64, 0xDA, 0x8B, 0xF8, 0xEB, 0x0F, 0x4B, 0x70, 0x56, 0x9D, 0x35,
     0x1E, 0x24, 0x0E, 0x5E, 0x63, 0x58, 0xD1, 0xA2, 0x25, 0x22, 0x7C, 0x3B, 0x01, 0x21, 0x78, 0x87,
     0xD4, 0x00, 0x46, 0x57, 0x9F, 0xD3, 0x27, 0x52, 0x4C, 0x36, 0x02, 0xE7, 0xA0, 0xC4, 0xC8, 0x9E,
     0xEA, 0xBF, 0x8A, 0xD2, 0x40, 0xC7, 0x38, 0xB5, 0xA3, 0xF7, 0xF2, 0xCE, 0xF9, 0x61, 0x15, 0xA1,
     0xE0, 0xAE, 0x5D, 0xA4, 0x9B, 0x34, 0x1A, 0x55, 0xAD, 0x93, 0x32, 0x30, 0xF5, 0x8C, 0xB1, 0xE3,
     0x1D, 0xF6, 0xE2, 0x2E, 0x82, 0x66, 0xCA, 0x60, 0xC0, 0x29, 0x23, 0xAB, 0x0D, 0x53, 0x4E, 0x6F,
     0xD5, 0xDB, 0x37, 0x45, 0xDE, 0xFD, 0x8E, 0x2F, 0x03, 0xFF, 0x6A, 0x72, 0x6D, 0x6C, 0x5B, 0x51,
     0x8D, 0x1B, 0xAF, 0x92, 0xBB, 0xDD, 0xBC, 0x7F, 0x11, 0xD9, 0x5C, 0x41, 0x1F, 0x10, 0x5A, 0xD8,
     0x0A, 0xC1, 0x31, 0x88, 0xA5, 0xCD, 0x7B, 0xBD, 0x2D, 0x74, 0xD0, 0x12, 0xB8, 0xE5, 0xB4, 0xB0,
     0x89, 0x69, 0x97, 0x4A, 0x0C, 0x96, 0x77, 0x7E, 0x65, 0xB9, 0xF1, 0x09, 0xC5, 0x6E, 0xC6, 0x84,
     0x18, 0xF0, 0x7D, 0xEC, 0x3A, 0xDC, 0x4D, 0x20, 0x79, 0xEE, 0x5F, 0x3E, 0xD7, 0xCB, 0x39, 0x48]"

definition AccessSubstitutionBox :: "u8 \<Rightarrow> u8" where
  "AccessSubstitutionBox index = sm4_substitution_box ! unat index"

section \<open>CRC tables\<close>

text \<open>
  One step of the bitwise algorithm with the bit-reflected polynomial, and eight steps.
\<close>

definition crc_step :: "u32 \<Rightarrow> u32 \<Rightarrow> u32" where
  "crc_step poly c = drop_bit 1 c XOR (if bit c 0 then poly else 0)"

definition crc_byte :: "u32 \<Rightarrow> u32 \<Rightarrow> u32" where
  "crc_byte poly c = (crc_step poly ^^ 8) c"

fun crc_bitwise :: "u32 \<Rightarrow> u32 \<Rightarrow> u64 \<Rightarrow> nat \<Rightarrow> nat \<Rightarrow> u32" where
  "crc_bitwise poly crc v i 0 = crc"
| "crc_bitwise poly crc v i (Suc n) =
     crc_bitwise poly (crc_byte poly (crc XOR ucast (ucast (drop_bit (8 * i) v) :: u8))) v (Suc i) n"

text \<open>The bitwise step is linear, and a byte-sized table is built from its values at the powers of two.\<close>

lemma crc_step_xor: "crc_step p (a XOR b) = crc_step p a XOR crc_step p b"
  by (rule bit_word_eqI) (auto simp: crc_step_def bit_simps)

lemma crc_steps_xor: "(crc_step p ^^ n) (a XOR b) = (crc_step p ^^ n) a XOR (crc_step p ^^ n) b"
  by (induction n) (simp_all add: crc_step_xor)

lemma crc_steps_high: "\<forall>k<n. \<not> bit a k \<Longrightarrow> (crc_step p ^^ n) a = drop_bit n a"
proof (induction n arbitrary: a)
  case (Suc n)
  have "crc_step p a = drop_bit 1 a" using Suc.prems by (simp add: crc_step_def)
  moreover have "(crc_step p ^^ n) (drop_bit 1 a) = drop_bit n (drop_bit 1 a)"
    using Suc.prems by (intro Suc.IH) (simp add: bit_drop_bit_eq)
  ultimately show ?case by (simp add: funpow_swap1 [symmetric] funpow_Suc_right del: funpow.simps)
qed simp

lemma crc_byte_split: "crc_byte p c = drop_bit 8 c XOR crc_byte p (c AND 0xFF)"
proof -
  have "c = (c AND NOT 0xFF) XOR (c AND 0xFF)" by (rule bit_word_eqI) (auto simp: bit_simps)
  then have "crc_byte p c = crc_byte p (c AND NOT 0xFF) XOR crc_byte p (c AND 0xFF)"
    unfolding crc_byte_def by (metis crc_steps_xor)
  moreover have "\<forall>k<8. \<not> bit (c AND NOT 0xFF) k" unfolding all_less_8 by (simp add: bit_and_iff bit_not_iff)
  then have "crc_byte p (c AND NOT 0xFF) = drop_bit 8 (c AND NOT 0xFF)"
    unfolding crc_byte_def by (rule crc_steps_high)
  moreover have "drop_bit 8 (c AND NOT 0xFF) = drop_bit 8 c"
  proof (rule bit_word_eqI)
    fix n
    have m: "NOT (0xFF :: u32) = NOT (mask 8)" by (simp add: mask_eq_exp_minus_1)
    show "bit (drop_bit 8 (c AND NOT 0xFF)) n = bit (drop_bit 8 c) n"
      unfolding m by (auto simp: bit_drop_bit_eq bit_and_iff bit_not_iff bit_mask_iff dest: bit_imp_le_length)
  qed
  ultimately show ?thesis by simp
qed

definition xor_double :: "u32 list \<Rightarrow> u32 \<Rightarrow> u32 list" where
  "xor_double xs c = xs @ map (\<lambda>x. c XOR x) xs"

lemma power_xor_below:
  assumes "i < 2 ^ m" "m < 32"
  shows "(2 ^ m :: u32) XOR of_nat i = of_nat (2 ^ m + i)"
proof -
  have nb: "\<not> bit i m" using assms(1) by (simp add: bit_iff_odd)
  have d: "\<not> bit (2 ^ m :: u32) n \<or> \<not> bit (of_nat i :: u32) n" for n
    using nb by (auto simp: bit_exp_iff bit_of_nat_iff)
  have "(of_nat (2 ^ m + i) :: u32) = 2 ^ m + of_nat i" by simp
  also have "\<dots> = 2 ^ m OR of_nat i" by (rule disjunctive_add) (use d in blast)
  also have "\<dots> = 2 ^ m XOR of_nat i" by (rule bit_word_eqI) (use d in \<open>auto simp: bit_or_iff bit_xor_iff\<close>)
  finally show ?thesis by simp
qed

lemma xor_doubling:
  fixes f :: "u32 \<Rightarrow> u32"
  assumes lin: "\<And>a b. f (a XOR b) = f a XOR f b" and "m \<le> 32"
  shows "foldl xor_double [0] (map (\<lambda>k. f (2 ^ k)) [0..<m]) = map (\<lambda>i. f (of_nat i)) [0..<2 ^ m]"
  using assms(2)
proof (induction m)
  case 0
  have "f 0 = 0" using lin [of 0 0] by simp
  then show ?case by simp
next
  case (Suc m)
  have "map (\<lambda>i. f (2 ^ m) XOR f (of_nat i)) [0..<2 ^ m] = map (\<lambda>i. f (of_nat (2 ^ m + i))) [0..<2 ^ m]"
    using Suc.prems by (intro map_cong) (simp_all add: lin [symmetric] power_xor_below del: of_nat_add)
  moreover have "[0..<2 ^ Suc m] = [0..<2 ^ m] @ map (\<lambda>i. 2 ^ m + i) [0..<2 ^ m :: nat]"
    using upt_add_eq_append [of 0 "2 ^ m" "2 ^ m"] map_add_upt [of "2 ^ m" "2 ^ m"]
    by (simp add: add.commute mult_2)
  ultimately show ?case using Suc by (simp add: xor_double_def o_def del: of_nat_add)
qed

lemma crc_byte_xor: "crc_byte p (a XOR b) = crc_byte p a XOR crc_byte p b"
  by (simp add: crc_byte_def crc_steps_xor)

lemma castagnoli_basis:
  "map (crc_byte 0x82F63B78) [1, 2, 4, 8, 16, 32, 64, 128] =
     [0xF26B8303, 0xE13B70F7, 0xC79A971F, 0x8AD958CF, 0x105EC76F, 0x20BD8EDE, 0x417B1DBC, 0x82F63B78]"
  by code_simp

lemma iso_basis:
  "map (crc_byte 0xEDB88320) [1, 2, 4, 8, 16, 32, 64, 128] =
     [0x77073096, 0xEE0E612C, 0x076DC419, 0x0EDB8832, 0x1DB71064, 0x3B6E20C8, 0x76DC4190, 0xEDB88320]"
  by code_simp

lemma byte_table:
  assumes "t = foldl xor_double [0] bs" "map (crc_byte p) [1, 2, 4, 8, 16, 32, 64, 128] = bs" "i < 256"
  shows "t ! i = crc_byte p (of_nat i)"
proof -
  have "bs = map (\<lambda>k. crc_byte p (2 ^ k)) [0..<8]"
    using assms(2) by (simp add: upt_rec [of _ 8])
  then have "t = map (\<lambda>i. crc_byte p (of_nat i)) [0..<2 ^ 8]"
    using assms(1) xor_doubling [of "crc_byte p" 8, OF crc_byte_xor] by simp
  with assms(3) show ?thesis by simp
qed

lemma castagnoli_table_nth: "i < 256 \<Longrightarrow> castagnoli_table ! i = crc_byte 0x82F63B78 (of_nat i)"
  by (rule byte_table [OF _ castagnoli_basis]) (simp_all add: castagnoli_table_def xor_double_def)

lemma iso_table_nth: "i < 256 \<Longrightarrow> iso_table ! i = crc_byte 0xEDB88320 (of_nat i)"
  by (rule byte_table [OF _ iso_basis]) (simp_all add: iso_table_def xor_double_def)

lemma ComputeCRC32_loop_bitwise:
  assumes "\<And>i. i < 256 \<Longrightarrow> t ! i = crc_byte p (of_nat i)"
  shows "ComputeCRC32_loop t crc v i n = crc_bitwise p crc v i n"
proof (induction n arbitrary: crc i)
  case (Suc n)
  let ?b = "ucast (ucast (drop_bit (8 * i) v) :: u8) :: u32"
  let ?x = "(crc XOR ?b) AND 0xFF"
  have ff: "(0xFF :: u32) = mask 8" by (simp add: mask_eq_exp_minus_1)
  have "?x = take_bit 8 (crc XOR ?b)" by (simp only: ff take_bit_eq_mask)
  then have "unat ?x < 2 ^ 8" by (simp only: unsigned_take_bit_eq take_bit_nat_less_exp)
  then have t: "t ! unat ?x = crc_byte p ?x" using assms [of "unat ?x"] by simp
  have "drop_bit 8 ?b = 0" by (rule bit_word_eqI) (simp add: bit_drop_bit_eq bit_unsigned_iff)
  then have "drop_bit 8 (crc XOR ?b) = drop_bit 8 crc" by (simp add: drop_bit_xor)
  then have "drop_bit 8 crc XOR t ! unat ?x = crc_byte p (crc XOR ?b)"
    using crc_byte_split [of p "crc XOR ?b"] t by simp
  then show ?case by (simp add: Suc.IH)
qed simp

text \<open>
  C20. The table-driven CRC32 routines compute, for up to eight bytes, what the bitwise
  algorithm computes with the reflected Castagnoli and ISO polynomials; a longer length
  would read past the operand.
\<close>

theorem ComputeCRC32_bitwise:
  "ComputeCRC32Castagnoli crc v len
     = (if len \<le> 8 then Some (crc_bitwise 0x82F63B78 crc v 0 (nat len)) else None)
   \<and> ComputeCRC32ISO crc v len
     = (if len \<le> 8 then Some (crc_bitwise 0xEDB88320 crc v 0 (nat len)) else None)"
  by (simp add: ComputeCRC32Castagnoli_def ComputeCRC32ISO_def ComputeCRC32_def
      ComputeCRC32_loop_bitwise castagnoli_table_nth iso_table_nth)

section \<open>AES rounds\<close>

lemma nth_weak_cong: "i = j \<Longrightarrow> xs ! i = xs ! j"
  by simp

lemmas box_nth =
  arg_cong [OF substitution_box_def, of nth, THEN fun_cong]
  arg_cong [OF inverse_substitution_box_def, of nth, THEN fun_cong]

fun counts_from :: "u8 \<Rightarrow> u8 list \<Rightarrow> bool" where
  "counts_from k [] = True"
| "counts_from k (x # xs) = (x = k \<and> counts_from (k + 1) xs)"

lemma counts_from_nth: "counts_from k xs \<Longrightarrow> i < length xs \<Longrightarrow> xs ! i = k + of_nat i"
  by (induction k xs arbitrary: i rule: counts_from.induct) (auto simp: nth_Cons split: nat.split)

lemma length_boxes: "length substitution_box = 256" "length inverse_substitution_box = 256"
  by (simp_all add: substitution_box_def inverse_substitution_box_def)

lemma inverse_after_box: "counts_from 0 (map (\<lambda>x. inverse_substitution_box ! unat x) substitution_box)"
  by (simp add: box_nth substitution_box_def cong: nth_weak_cong)

lemma box_after_inverse: "counts_from 0 (map (\<lambda>x. substitution_box ! unat x) inverse_substitution_box)"
  by (simp add: box_nth inverse_substitution_box_def cong: nth_weak_cong)

lemma boxes_inverse:
  "inverse_substitution_box ! unat (substitution_box ! unat x) = x"
  "substitution_box ! unat (inverse_substitution_box ! unat x) = x"
proof -
  have "unat x < 256" using unsigned_less [of x] by simp
  then show "inverse_substitution_box ! unat (substitution_box ! unat x) = x"
    "substitution_box ! unat (inverse_substitution_box ! unat x) = x"
    using counts_from_nth [OF inverse_after_box, of "unat x"] counts_from_nth [OF box_after_inverse, of "unat x"]
    by (simp_all add: length_boxes)
qed

lemma length_16_cases:
  assumes "length xs = 16"
  obtains a0 a1 a2 a3 a4 a5 a6 a7 a8 a9 a10 a11 a12 a13 a14 a15
  where "xs = [a0, a1, a2, a3, a4, a5, a6, a7, a8, a9, a10, a11, a12, a13, a14, a15]"
  using assms by (auto simp: numeral_eq_Suc length_Suc_conv)

lemma SubBytes_map: "length st = 16 \<Longrightarrow> SubBytes st t = map (\<lambda>x. t ! unat x) st"
  by (erule length_16_cases) (simp add: SubBytes_def upt_rec)

lemma ShiftRows_list:
  assumes "length out = 16" "length st = 16"
  shows "ShiftRows out st = map (\<lambda>i. st ! i) [0, 5, 10, 15, 4, 9, 14, 3, 8, 13, 2, 7, 12, 1, 6, 11]"
    "InverseShiftRows out st = map (\<lambda>i. st ! i) [0, 13, 10, 7, 4, 1, 14, 11, 8, 5, 2, 15, 12, 9, 6, 3]"
  using assms(1) by (auto elim!: length_16_cases simp: ShiftRows_def InverseShiftRows_def)

lemma xtime_alt: "xtime x = push_bit 1 x XOR (if bit x 7 then 0x1B else 0)"
proof -
  have "drop_bit 7 x AND 1 = (if bit x 7 then 1 else 0)"
  proof (rule bit_word_eqI)
    fix n assume "n < LENGTH(8)"
    then show "bit (drop_bit 7 x AND 1) n = bit (if bit x 7 then 1 else 0 :: u8) n"
      by (cases n) (simp_all add: bit_simps)
  qed
  then show ?thesis by (simp add: xtime_def)
qed

lemma xtime_xor: "xtime (a XOR b) = xtime a XOR xtime b"
  by (rule bit_word_eqI) (auto simp: xtime_alt bit_xor_iff bit_push_bit_iff)

lemma Multiply_coefficients:
  "Multiply x 0x0E = xtime x XOR xtime (xtime x) XOR xtime (xtime (xtime x))"
  "Multiply x 0x0B = x XOR xtime x XOR xtime (xtime (xtime x))"
  "Multiply x 0x0D = x XOR xtime (xtime x) XOR xtime (xtime (xtime x))"
  "Multiply x 0x09 = x XOR xtime (xtime (xtime x))"
  by (simp_all add: Multiply_def)

lemma xor_cancel: "(a :: u8) XOR (a XOR b) = b"
  by (simp flip: xor.assoc)

lemmas xor_ring = xtime_xor xor.assoc xor.commute xor.left_commute xor_cancel

lemma mix_inverse_column:
  fixes a b c d :: u8
  assumes "m0 = a XOR xtime (a XOR b) XOR (a XOR b XOR c XOR d)" "m1 = b XOR xtime (b XOR c) XOR (a XOR b XOR c XOR d)"
    "m2 = c XOR xtime (c XOR d) XOR (a XOR b XOR c XOR d)" "m3 = d XOR xtime (d XOR a) XOR (a XOR b XOR c XOR d)"
  shows "Multiply m0 0x0E XOR Multiply m1 0x0B XOR Multiply m2 0x0D XOR Multiply m3 0x09 = a"
    "Multiply m0 0x09 XOR Multiply m1 0x0E XOR Multiply m2 0x0B XOR Multiply m3 0x0D = b"
    "Multiply m0 0x0D XOR Multiply m1 0x09 XOR Multiply m2 0x0E XOR Multiply m3 0x0B = c"
    "Multiply m0 0x0B XOR Multiply m1 0x0D XOR Multiply m2 0x09 XOR Multiply m3 0x0E = d"
  unfolding assms Multiply_coefficients by (simp_all add: xor_ring)

text \<open>
  C21. The AES round functions undo each other: a decryption round after an encryption
  round, and the inverse column mixing after the column mixing, give the state back,
  whatever the two output buffers held.
\<close>

theorem aes_rounds_inverse:
  assumes "length state = 16" "length out1 = 16" "length out2 = 16"
  shows "DecryptSingleRound out1 (EncryptSingleRound out2 state) = state
     \<and> EncryptSingleRound out1 (DecryptSingleRound out2 state) = state
     \<and> InverseMixColumns out1 (MixColumns out2 state) = state"
proof (intro conjI)
  show "DecryptSingleRound out1 (EncryptSingleRound out2 state) = state"
    "EncryptSingleRound out1 (DecryptSingleRound out2 state) = state"
    using assms(1)
    by (auto elim!: length_16_cases
        simp: DecryptSingleRound_def EncryptSingleRound_def ShiftRows_list assms(2,3) SubBytes_map boxes_inverse)
  show "InverseMixColumns out1 (MixColumns out2 state) = state"
    using assms
    by (elim length_16_cases)
       (simp add: MixColumns_def InverseMixColumns_def Let_def mix_inverse_column [OF refl refl refl refl])
qed

theorem aes_rounds_inverse_witness:
  "DecryptSingleRound (replicate 16 0) (EncryptSingleRound (replicate 16 0xFF) (map of_nat [0..<16])) = map of_nat [0..<16]"
  using aes_rounds_inverse [of "map of_nat [0..<16]" "replicate 16 0" "replicate 16 0xFF"] by simp

end
