(* ===== verification/U128.thy ===== *)
theory U128
  imports Bit_Util
begin

text \<open>
  The 128-bit integer of \<^verbatim>\<open>src/umbra/common/u128.h\<close> and \<^verbatim>\<open>u128.cpp\<close>, built from two 64-bit
  halves, with the carry, borrow and cross-half shifts written out as the source has
  them.  The abstraction \<open>W128\<close> reads the pair as a 128-bit word; the lemmas show that
  every operation implements the operation of 128-bit words, and that the sticky right
  shift records every bit it drops in the least significant one.
\<close>

section \<open>The type and its operations\<close>

record u128 =
  lower :: u64
  upper :: u64

definition u128_of_u64 :: "u64 \<Rightarrow> u128" where
  "u128_of_u64 v = \<lparr>lower = v, upper = 0\<rparr>"

definition u128_Bit :: "nat \<Rightarrow> u128 \<Rightarrow> bool" where
  "u128_Bit bit_position x =
     (if bit_position < 64 then get_bit bit_position (lower x) else get_bit (bit_position - 64) (upper x))"

definition u128_add :: "u128 \<Rightarrow> u128 \<Rightarrow> u128" where
  "u128_add a b =
     (let rl = lower a + lower b
      in \<lparr>lower = rl, upper = upper a + upper b + (if rl < lower a then 1 else 0)\<rparr>)"

definition u128_sub :: "u128 \<Rightarrow> u128 \<Rightarrow> u128" where
  "u128_sub a b =
     (let rl = lower a - lower b
      in \<lparr>lower = rl, upper = upper a - upper b - (if lower a < rl then 1 else 0)\<rparr>)"

definition u128_less :: "u128 \<Rightarrow> u128 \<Rightarrow> bool" where
  "u128_less a b = (upper a < upper b \<or> (upper a = upper b \<and> lower a < lower b))"

definition u128_greater :: "u128 \<Rightarrow> u128 \<Rightarrow> bool" where
  "u128_greater a b = u128_less b a"

definition u128_less_eq :: "u128 \<Rightarrow> u128 \<Rightarrow> bool" where
  "u128_less_eq a b = (\<not> u128_greater a b)"

definition u128_greater_eq :: "u128 \<Rightarrow> u128 \<Rightarrow> bool" where
  "u128_greater_eq a b = (\<not> u128_less a b)"

definition u128_equal :: "u128 \<Rightarrow> u128 \<Rightarrow> bool" where
  "u128_equal a b = (upper a = upper b \<and> lower a = lower b)"

definition Multiply64To128 :: "u64 \<Rightarrow> u64 \<Rightarrow> u128" where
  "Multiply64To128 a b =
     (let a0 = (ucast a :: u32);
          b0 = (ucast b :: u32);
          a1 = (ucast (drop_bit 32 a) :: u32);
          b1 = (ucast (drop_bit 32 b) :: u32);
          c0 = (ucast a0 :: u64) * ucast b0;
          c1_0 = (ucast a1 :: u64) * ucast b0;
          c1_1 = (ucast a0 :: u64) * ucast b1;
          c2 = (ucast a1 :: u64) * ucast b1;
          c1 = c1_0 + c1_1;
          c1_overflow = (if c1 < c1_0 then 1 else 0 :: u64);
          lo = c0 + push_bit 32 c1;
          lower_overflow = (if lo < c0 then 1 else 0 :: u64);
          up = lower_overflow + drop_bit 32 c1 + push_bit 32 c1_overflow + c2
      in \<lparr>lower = lo, upper = up\<rparr>)"

text \<open>
  The two shift operators call each other on a negative amount.  The amount is an
  unbounded integer here and an \<^verbatim>\<open>int\<close> in the source, where the negation of the smallest
  \<^verbatim>\<open>int\<close> would be undefined; the callers pass differences of exponents, which are far from it.
\<close>

function u128_shl :: "u128 \<Rightarrow> int \<Rightarrow> u128" and u128_shr :: "u128 \<Rightarrow> int \<Rightarrow> u128" where
  "u128_shl operand amount =
     (if amount < 0 then u128_shr operand (- amount)
      else if amount = 0 then operand
      else if amount < 64 then
        \<lparr>lower = push_bit (nat amount) (lower operand),
         upper = push_bit (nat amount) (upper operand) OR drop_bit (nat (64 - amount)) (lower operand)\<rparr>
      else if amount < 128 then
        \<lparr>lower = 0, upper = push_bit (nat (amount - 64)) (lower operand)\<rparr>
      else \<lparr>lower = 0, upper = 0\<rparr>)"
| "u128_shr operand amount =
     (if amount < 0 then u128_shl operand (- amount)
      else if amount = 0 then operand
      else if amount < 64 then
        \<lparr>lower = drop_bit (nat amount) (lower operand) OR push_bit (nat (64 - amount)) (upper operand),
         upper = drop_bit (nat amount) (upper operand)\<rparr>
      else if amount < 128 then
        \<lparr>lower = drop_bit (nat (amount - 64)) (upper operand), upper = 0\<rparr>
      else \<lparr>lower = 0, upper = 0\<rparr>)"
  by pat_completeness auto
termination
  by (relation "measure (\<lambda>z. case z of Inl (v, s) \<Rightarrow> if s < 0 then 1 else 0
                                    | Inr (v, s) \<Rightarrow> if s < 0 then 1 else 0)") auto

declare u128_shl.simps [simp del] u128_shr.simps [simp del]

definition StickyLogicalShiftRight :: "u128 \<Rightarrow> int \<Rightarrow> u128" where
  "StickyLogicalShiftRight operand amount =
     (if amount < 0 then u128_shl operand (- amount)
      else if amount = 0 then operand
      else if amount < 64 then
        (let rl = drop_bit (nat amount) (lower operand) OR push_bit (nat (64 - amount)) (upper operand)
         in \<lparr>lower = (if push_bit (nat (64 - amount)) (lower operand) \<noteq> 0 then rl OR 1 else rl),
             upper = drop_bit (nat amount) (upper operand)\<rparr>)
      else if amount = 64 then
        \<lparr>lower = (if lower operand \<noteq> 0 then upper operand OR 1 else upper operand), upper = 0\<rparr>
      else if amount < 128 then
        (let rl = drop_bit (nat (amount - 64)) (upper operand);
             rl' = (if lower operand \<noteq> 0 then rl OR 1 else rl)
         in \<lparr>lower = (if push_bit (nat (128 - amount)) (upper operand) \<noteq> 0 then rl' OR 1 else rl'), upper = 0\<rparr>)
      else if lower operand \<noteq> 0 \<or> upper operand \<noteq> 0 then u128_of_u64 1
      else \<lparr>lower = 0, upper = 0\<rparr>)"

section \<open>Refinement of 128-bit words\<close>

definition W128 :: "u128 \<Rightarrow> 128 word" where
  "W128 x = push_bit 64 (ucast (upper x)) OR ucast (lower x)"

lemma bit_W128 [umbra_bits]:
  "bit (W128 x) n \<longleftrightarrow> (if n < 64 then bit (lower x) n else bit (upper x) (n - 64))"
proof (cases "n < 128")
  case True
  then show ?thesis by (auto simp: W128_def bit_simps)
qed simp

definition hi128 :: "int \<Rightarrow> 128 word" where
  "hi128 k = word_of_int (k * 2 ^ 64)"

lemma W128_alt: "W128 x = hi128 (uint (upper x)) + word_of_int (uint (lower x))"
proof -
  have "push_bit 64 (ucast (upper x) :: 128 word) AND ucast (lower x) = 0"
    by (rule bit_word_eqI) (auto simp: bit_simps)
  then have "W128 x = push_bit 64 (ucast (upper x)) + ucast (lower x)"
    unfolding W128_def by (simp add: disjunctive_add_eq_or)
  then show ?thesis by (simp add: push_bit_eq_mult hi128_def)
qed

lemma hi128_mod: "hi128 (k mod 2 ^ 64) = hi128 k"
proof -
  have "k mod 2 ^ 64 * 2 ^ 64 = (k * 2 ^ 64) mod (2 ^ 64 * 2 ^ 64)"
    by (rule mod_mult_mult2 [symmetric])
  then have "take_bit LENGTH(128) (k mod 2 ^ 64 * 2 ^ 64) = take_bit LENGTH(128) (k * 2 ^ 64)"
    by (simp add: take_bit_eq_mod)
  then show ?thesis
    unfolding hi128_def by (simp only: word_of_int_eq_iff)
qed

lemma uint_W128: "uint (W128 x) = uint (upper x) * 2 ^ 64 + uint (lower x)"
proof -
  have b: "uint (upper x) < 2 ^ 64" "uint (lower x) < 2 ^ 64"
    using uint_lt2p [of "upper x"] uint_lt2p [of "lower x"] by simp_all
  have "uint (W128 x) = (uint (upper x) * 2 ^ 64 + uint (lower x)) mod 2 ^ 128"
    unfolding W128_alt hi128_def wi_hom_add uint_word_of_int by simp
  also have "\<dots> = uint (upper x) * 2 ^ 64 + uint (lower x)"
    using b by (intro mod_pos_pos_trivial) auto
  finally show ?thesis .
qed

lemma W128_of_int: "W128 x = word_of_int (uint (upper x) * 2 ^ 64 + uint (lower x))"
  unfolding W128_alt hi128_def wi_hom_add ..

lemma W128_eqI:
  assumes "uint (upper x) = k mod 2 ^ 64" "k * 2 ^ 64 + uint (lower x) = m"
  shows "W128 x = word_of_int m"
proof -
  have "W128 x = hi128 k + word_of_int (uint (lower x))"
    unfolding W128_alt assms(1) hi128_mod ..
  also have "\<dots> = word_of_int m"
    unfolding hi128_def wi_hom_add assms(2) ..
  finally show ?thesis .
qed

lemma W128_inject: "W128 x = W128 y \<longleftrightarrow> x = y"
proof
  assume "W128 x = W128 y"
  then have b: "bit (W128 x) n = bit (W128 y) n" for n by simp
  have "bit (lower x) n = bit (lower y) n" if "n < 64" for n
    using b [of n] that by (simp add: umbra_bits)
  moreover have "bit (upper x) n = bit (upper y) n" for n
    using b [of "n + 64"] by (simp add: umbra_bits)
  ultimately show "x = y"
    by (intro u128.equality) (auto intro!: bit_word_eqI)
qed simp

lemma W128_of_u64: "W128 (u128_of_u64 v) = ucast v"
  by (rule bit_word_eqI) (auto simp: umbra_bits u128_of_u64_def bit_simps)

lemma u128_Bit_refines: "n < 128 \<Longrightarrow> u128_Bit n x \<longleftrightarrow> bit (W128 x) n"
  by (auto simp: u128_Bit_def umbra_bits)

lemma lex_less_halves:
  fixes h l h' l' :: int
  assumes "0 \<le> l" "l < 2 ^ 64" "0 \<le> l'" "l' < 2 ^ 64"
  shows "h < h' \<or> (h = h' \<and> l < l') \<longleftrightarrow> h * 2 ^ 64 + l < h' * 2 ^ 64 + l'"
proof (cases h h' rule: linorder_cases)
  case less
  then have "h + 1 \<le> h'" by simp
  with assms show ?thesis by auto
next
  case greater
  then have "h' + 1 \<le> h" by simp
  with assms show ?thesis by auto
qed simp

lemma u128_less_refines: "u128_less a b \<longleftrightarrow> W128 a < W128 b"
  unfolding u128_less_def word_less_def uint_W128 word_uint_eq_iff
  by (rule lex_less_halves) (use uint_lt2p [of "lower a"] uint_lt2p [of "lower b"] in simp_all)

lemma u128_equal_refines: "u128_equal a b \<longleftrightarrow> W128 a = W128 b"
  unfolding W128_inject u128_equal_def by (auto intro: u128.equality)

lemmas u128_compare_refines = u128_less_refines u128_equal_refines u128_greater_def u128_less_eq_def u128_greater_eq_def

lemma uint_plus_carry:
  "uint (a + b :: u64) = uint a + uint b - (if a + b < a then 2 ^ 64 else 0)"
  using uint_lt2p [of b] uint_lt2p [of a] by (auto simp: word_less_def uint_plus_if')

lemma uint_minus_borrow:
  "uint (a - b :: u64) = uint a - uint b + (if a < a - b then 2 ^ 64 else 0)"
  using uint_lt2p [of b] uint_lt2p [of a] by (auto simp: word_less_def uint_sub_if')

lemma u128_add_refines: "W128 (u128_add a b) = W128 a + W128 b"
proof -
  let ?c = "if lower a + lower b < lower a then 1 else 0 :: int"
  have "uint (upper (u128_add a b)) = (uint (upper a) + uint (upper b) + ?c) mod 2 ^ 64"
    by (simp add: u128_add_def Let_def uint_word_ariths mod_simps)
  moreover have "(uint (upper a) + uint (upper b) + ?c) * 2 ^ 64 + uint (lower (u128_add a b))
      = (uint (upper a) * 2 ^ 64 + uint (lower a)) + (uint (upper b) * 2 ^ 64 + uint (lower b))"
    by (simp add: u128_add_def Let_def uint_plus_carry algebra_simps)
  ultimately show ?thesis
    unfolding W128_of_int [of a] W128_of_int [of b] wi_hom_add by (rule W128_eqI)
qed

lemma u128_sub_refines: "W128 (u128_sub a b) = W128 a - W128 b"
proof -
  let ?c = "if lower a < lower a - lower b then 1 else 0 :: int"
  have "uint (upper (u128_sub a b)) = (uint (upper a) - uint (upper b) - ?c) mod 2 ^ 64"
    by (simp add: u128_sub_def Let_def uint_word_ariths mod_simps)
  moreover have "(uint (upper a) - uint (upper b) - ?c) * 2 ^ 64 + uint (lower (u128_sub a b))
      = (uint (upper a) * 2 ^ 64 + uint (lower a)) - (uint (upper b) * 2 ^ 64 + uint (lower b))"
    by (simp add: u128_sub_def Let_def uint_minus_borrow algebra_simps)
  ultimately show ?thesis
    unfolding W128_of_int [of a] W128_of_int [of b] wi_hom_sub by (rule W128_eqI)
qed


lemma uint_split32:
  fixes a :: u64
  shows "uint a = uint (ucast (drop_bit 32 a) :: u32) * 2 ^ 32 + uint (ucast a :: u32)"
proof -
  have "uint a < 2 ^ 64" using uint_lt2p [of a] by simp
  then have "uint a div 2 ^ 32 < 2 ^ 32" by simp
  then have 1: "uint (ucast (drop_bit 32 a) :: u32) = uint a div 2 ^ 32"
    unfolding unsigned_ucast_eq uint_drop_bit take_bit_eq_mod
    by (intro mod_pos_pos_trivial) (simp_all add: pos_imp_zdiv_nonneg_iff)
  have 2: "uint (ucast a :: u32) = uint a mod 2 ^ 32"
    by (simp add: unsigned_ucast_eq take_bit_eq_mod)
  show ?thesis unfolding 1 2 by simp
qed

lemma uint_mult_u32:
  fixes a b :: u32
  shows "uint ((ucast a :: u64) * ucast b) = uint a * uint b"
proof -
  have "uint a * uint b \<le> (2 ^ 32 - 1) * (2 ^ 32 - 1)"
    using uint_lt2p [of a] uint_lt2p [of b] by (intro mult_mono) auto
  then have "uint a * uint b < 2 ^ 64" by simp
  moreover have "uint (ucast w :: u64) = uint w" for w :: u32
    using uint_lt2p [of w] by (simp add: unsigned_ucast_eq take_bit_eq_mod mod_pos_pos_trivial)
  ultimately show ?thesis by (simp add: uint_word_ariths mod_pos_pos_trivial)
qed

lemma long_multiplication:
  fixes B S lo lov c0 c1 m q ov c2 :: int
  assumes "lo + lov * B = c0 + m * S" and "c1 = q * S + m" and "B = S * S"
  shows "(lov + q + ov * S + c2) * B + lo = c2 * B + (c1 + ov * B) * S + c0"
proof -
  have "lo = c0 + m * S - lov * B" using assms(1) by simp
  then show ?thesis unfolding assms(2,3) by (simp add: algebra_simps)
qed

theorem Multiply64To128_refines:
  "uint (W128 (Multiply64To128 a b)) = uint a * uint b"
proof -
  define a0 b0 a1 b1 where "a0 = (ucast a :: u32)" and "b0 = (ucast b :: u32)"
    and "a1 = (ucast (drop_bit 32 a) :: u32)" and "b1 = (ucast (drop_bit 32 b) :: u32)"
  define c0 c10 c11 c2 where "c0 = (ucast a0 :: u64) * ucast b0" and "c10 = (ucast a1 :: u64) * ucast b0"
    and "c11 = (ucast a0 :: u64) * ucast b1" and "c2 = (ucast a1 :: u64) * ucast b1"
  define c1 where "c1 = c10 + c11"
  define ov where "ov = (if c1 < c10 then 1 else 0 :: int)"
  define lo where "lo = c0 + push_bit 32 c1"
  define lov where "lov = (if lo < c0 then 1 else 0 :: int)"
  let ?r = "Multiply64To128 a b"
  have r: "?r = \<lparr>lower = lo, upper = (if lo < c0 then 1 else 0) + drop_bit 32 c1 + push_bit 32 (if c1 < c10 then 1 else 0) + c2\<rparr>"
    unfolding Multiply64To128_def Let_def a0_def b0_def a1_def b1_def c0_def c10_def c11_def c2_def c1_def lo_def ..
  have ab: "uint a = uint a1 * 2 ^ 32 + uint a0" "uint b = uint b1 * 2 ^ 32 + uint b0"
    unfolding a0_def a1_def b0_def b1_def by (rule uint_split32)+
  have c: "uint c0 = uint a0 * uint b0" "uint c10 = uint a1 * uint b0" "uint c11 = uint a0 * uint b1" "uint c2 = uint a1 * uint b1"
    unfolding c0_def c10_def c11_def c2_def by (rule uint_mult_u32)+
  have c1: "uint c1 + ov * 2 ^ 64 = uint c10 + uint c11"
    unfolding c1_def ov_def using uint_plus_carry [of c10 c11] by (simp add: c1_def)
  have pb: "uint (push_bit 32 c1) = (uint c1 mod 2 ^ 32) * 2 ^ 32"
  proof -
    have "uint (push_bit 32 c1) = (uint c1 * 2 ^ 32) mod (2 ^ 32 * 2 ^ 32)"
      by (simp add: push_bit_eq_mult uint_word_ariths)
    then show ?thesis by (simp only: mod_mult_mult2)
  qed
  have lo: "uint lo + lov * 2 ^ 64 = uint c0 + (uint c1 mod 2 ^ 32) * 2 ^ 32"
    unfolding lov_def using uint_plus_carry [of c0 "push_bit 32 c1"] by (simp add: lo_def pb)
  have up: "uint (upper ?r) = (lov + uint c1 div 2 ^ 32 + ov * 2 ^ 32 + uint c2) mod 2 ^ 64"
  proof -
    have "uint (push_bit 32 (if c1 < c10 then 1 else 0 :: u64)) = ov * 2 ^ 32"
      "uint (if lo < c0 then 1 else 0 :: u64) = lov"
      by (simp_all add: ov_def lov_def)
    then show ?thesis
      unfolding r by (simp add: uint_word_ariths uint_drop_bit mod_simps del: push_bit_numeral)
  qed
  have "(lov + uint c1 div 2 ^ 32 + ov * 2 ^ 32 + uint c2) * 2 ^ 64 + uint lo
      = uint c2 * 2 ^ 64 + (uint c1 + ov * 2 ^ 64) * 2 ^ 32 + uint c0"
    using lo by (rule long_multiplication) simp_all
  also have "\<dots> = uint a * uint b"
    unfolding ab c1 c by (simp add: algebra_simps)
  finally have "W128 ?r = word_of_int (uint a * uint b)"
    by (intro W128_eqI [OF up]) (simp only: r u128.simps)
  moreover have "uint a * uint b < 2 ^ 128"
    using mult_strict_mono [of "uint a" "2 ^ 64" "uint b" "2 ^ 64"] uint_lt2p [of a] uint_lt2p [of b] by simp
  ultimately show ?thesis
    unfolding \<open>W128 ?r = _\<close> uint_word_of_int by (intro mod_pos_pos_trivial) simp_all
qed

declare u128_shl.simps [simp del] u128_shr.simps [simp del]

lemma u128_shl_nat:
  "u128_shl x (int k) =
     (if k = 0 then x
      else if k < 64 then \<lparr>lower = push_bit k (lower x), upper = push_bit k (upper x) OR drop_bit (64 - k) (lower x)\<rparr>
      else if k < 128 then \<lparr>lower = 0, upper = push_bit (k - 64) (lower x)\<rparr>
      else \<lparr>lower = 0, upper = 0\<rparr>)"
proof -
  have "nat (64 - int k) = 64 - k" "nat (int k - 64) = k - 64" by linarith+
  then show ?thesis by (simp add: u128_shl.simps [of x "int k"])
qed

lemma u128_shr_nat:
  "u128_shr x (int k) =
     (if k = 0 then x
      else if k < 64 then \<lparr>lower = drop_bit k (lower x) OR push_bit (64 - k) (upper x), upper = drop_bit k (upper x)\<rparr>
      else if k < 128 then \<lparr>lower = drop_bit (k - 64) (upper x), upper = 0\<rparr>
      else \<lparr>lower = 0, upper = 0\<rparr>)"
proof -
  have "nat (64 - int k) = 64 - k" "nat (int k - 64) = k - 64" by linarith+
  then show ?thesis by (simp add: u128_shr.simps [of x "int k"])
qed

lemma W128_shl_nat: "W128 (u128_shl x (int k)) = push_bit k (W128 x)"
proof -
  consider "k = 0" | "0 < k" "k < 64" | "64 \<le> k" "k < 128" | "128 \<le> k" by linarith
  then show ?thesis
  proof cases
    case 2
    show ?thesis
    proof (rule bit_word_eqI)
      fix i :: nat
      assume i: "i < LENGTH(128)"
      then have "k \<le> i - 64 \<longleftrightarrow> 64 \<le> i - k" "i - (64 + k) = i - (k + 64)" "i - 64 < 64" if "64 \<le> i"
        using that 2 by auto
      with i 2 show "bit (W128 (u128_shl x (int k))) i = bit (push_bit k (W128 x)) i"
        by (cases "i < 64"; cases "i < k"; cases "i - k < 64")
          (simp_all add: u128_shl_nat umbra_bits bit_simps)
    qed
  next
    case 3
    show ?thesis
    proof (rule bit_word_eqI)
      fix i :: nat
      assume i: "i < LENGTH(128)"
      then have "k - 64 \<le> i - 64 \<longleftrightarrow> k \<le> i" "i - 64 - (k - 64) = i - k" "i - 64 < 64" "i - k < 64" if "64 \<le> i"
        using that 3 by auto
      with i 3 show "bit (W128 (u128_shl x (int k))) i = bit (push_bit k (W128 x)) i"
        by (cases "i < 64") (simp_all add: u128_shl_nat bit_W128 bit_push_bit_iff)
    qed
  next
    case 4
    then show ?thesis
      by (intro bit_word_eqI) (simp add: u128_shl_nat bit_W128 bit_push_bit_iff)
  qed (simp add: u128_shl.simps)
qed

lemma W128_shr_nat: "W128 (u128_shr x (int k)) = drop_bit k (W128 x)"
proof -
  consider "k = 0" | "0 < k" "k < 64" | "64 \<le> k" "k < 128" | "128 \<le> k" by linarith
  then show ?thesis
  proof cases
    case 2
    show ?thesis
    proof (rule bit_word_eqI)
      fix i :: nat
      assume i: "i < LENGTH(128)"
      consider "k + i < 64" | "64 \<le> k + i" "i < 64" | "64 \<le> i" by linarith
      then show "bit (W128 (u128_shr x (int k))) i = bit (drop_bit k (W128 x)) i"
      proof cases
        case 1
        with 2 have "\<not> 64 - k \<le> i" by linarith
        with i 1 2 show ?thesis by (simp add: u128_shr_nat bit_W128 bit_push_bit_iff bit_drop_bit_eq bit_or_iff)
      next
        case 2
        with \<open>k < 64\<close> have "64 - k \<le> i" "i - (64 - k) = k + i - 64" by linarith+
        with i 2 \<open>0 < k\<close> \<open>k < 64\<close> show ?thesis by (simp add: u128_shr_nat bit_W128 bit_push_bit_iff bit_drop_bit_eq bit_or_iff)
      next
        case 3
        then have "k + (i - 64) = k + i - 64" by linarith
        with i 2 3 show ?thesis by (simp add: u128_shr_nat bit_W128 bit_push_bit_iff bit_drop_bit_eq bit_or_iff)
      qed
    qed
  next
    case 3
    show ?thesis
    proof (rule bit_word_eqI)
      fix i :: nat
      assume i: "i < LENGTH(128)"
      have "k - 64 + i = k + i - 64" using 3 by auto
      with i 3 show "bit (W128 (u128_shr x (int k))) i = bit (drop_bit k (W128 x)) i"
        by (cases "i < 64") (simp_all add: u128_shr_nat bit_W128 bit_drop_bit_eq)
    qed
  next
    case 4
    then show ?thesis
      by (intro bit_word_eqI) (simp add: u128_shr_nat bit_W128 bit_drop_bit_eq)
  qed (simp add: u128_shr.simps)
qed

text \<open>The bits that a right shift drops, read off the two halves.\<close>

lemma push_bit_eq_0_iff_take_bit:
  fixes v :: u64
  assumes "k \<le> 64"
  shows "push_bit (64 - k) v = 0 \<longleftrightarrow> take_bit k v = 0"
proof
  assume l: "push_bit (64 - k) v = 0"
  show "take_bit k v = 0"
  proof (rule word_eq_0_bits [THEN iffD2], intro allI impI)
    fix i assume "i < LENGTH(64)"
    with assms l [THEN arg_cong, of "\<lambda>w. bit w (i + (64 - k))"]
    show "\<not> bit (take_bit k v) i" by (auto simp: bit_simps)
  qed
next
  assume r: "take_bit k v = 0"
  show "push_bit (64 - k) v = 0"
  proof (rule word_eq_0_bits [THEN iffD2], intro allI impI)
    fix i assume i: "i < LENGTH(64)"
    have "i - (64 - k) < k" if "64 - k \<le> i" using that i assms by auto
    with r [THEN arg_cong, of "\<lambda>w. bit w (i - (64 - k))"]
    show "\<not> bit (push_bit (64 - k) v) i" by (auto simp: bit_simps)
  qed
qed

lemma take_bit_W128_low: "k \<le> 64 \<Longrightarrow> take_bit k (W128 x) = 0 \<longleftrightarrow> take_bit k (lower x) = 0"
proof -
  assume "k \<le> 64"
  then have "bit (take_bit k (W128 x)) i = bit (take_bit k (lower x)) i" for i
    by (auto simp: bit_take_bit_iff bit_W128)
  then show ?thesis by (metis bit_0_eq bit_eq_iff bot_apply)
qed

lemma take_bit_W128_high:
  assumes "64 \<le> k"
  shows "take_bit k (W128 x) = 0 \<longleftrightarrow> lower x = 0 \<and> take_bit (k - 64) (upper x) = 0"
proof -
  have lo: "bit (lower x) i = bit (take_bit k (W128 x)) i" if "i < 64" for i
    using that assms by (simp add: bit_take_bit_iff bit_W128)
  have hi: "bit (take_bit (k - 64) (upper x)) i = bit (take_bit k (W128 x)) (i + 64)" for i
    using assms by (auto simp: bit_take_bit_iff bit_W128)
  show ?thesis
  proof
    assume "take_bit k (W128 x) = 0"
    with lo hi show "lower x = 0 \<and> take_bit (k - 64) (upper x) = 0"
      by (auto intro!: word_eq_0_bits [THEN iffD2])
  next
    assume z: "lower x = 0 \<and> take_bit (k - 64) (upper x) = 0"
    show "take_bit k (W128 x) = 0"
    proof (rule word_eq_0_bits [THEN iffD2], intro allI impI)
      fix i assume "i < LENGTH(128)"
      show "\<not> bit (take_bit k (W128 x)) i"
        using z lo [of i] hi [of "i - 64"] by (cases "i < 64") auto
    qed
  qed
qed

lemma StickyLogicalShiftRight_shr:
  "StickyLogicalShiftRight x (int k) =
     (let s = u128_shr x (int k)
      in if take_bit k (W128 x) \<noteq> 0 then s\<lparr>lower := lower s OR 1\<rparr> else s)"
proof -
  have n: "nat (64 - int k) = 64 - k" "nat (int k - 64) = k - 64" "64 \<le> k \<Longrightarrow> nat (128 - int k) = 64 - (k - 64)"
    by linarith+
  consider "k = 0" | "0 < k" "k < 64" | "k = 64" | "64 < k" "k < 128" | "128 \<le> k" by linarith
  then show ?thesis
  proof cases
    case 2
    then show ?thesis using push_bit_eq_0_iff_take_bit [of k "lower x"] take_bit_W128_low [of k x] n
      by (simp add: StickyLogicalShiftRight_def u128_shr_nat Let_def)
  next
    case 3
    then show ?thesis using take_bit_W128_high [of k x]
      by (simp add: StickyLogicalShiftRight_def u128_shr.simps Let_def)
  next
    case 4
    then show ?thesis using push_bit_eq_0_iff_take_bit [of "k - 64" "upper x"] take_bit_W128_high [of k x] n
      by (auto simp: StickyLogicalShiftRight_def u128_shr_nat Let_def)
  next
    case 5
    then have "take_bit (k - 64) (upper x) = upper x" by (intro bit_word_eqI) (auto simp: bit_take_bit_iff)
    with 5 show ?thesis using take_bit_W128_high [of k x]
      by (auto simp: StickyLogicalShiftRight_def u128_shr_nat Let_def u128_of_u64_def)
  qed (simp add: StickyLogicalShiftRight_def u128_shr.simps)
qed

theorem StickyLogicalShiftRight_refines:
  "W128 (StickyLogicalShiftRight x (int k)) =
     drop_bit k (W128 x) OR (if take_bit k (W128 x) \<noteq> 0 then 1 else 0)"
proof -
  have "W128 (s\<lparr>lower := lower s OR 1\<rparr>) = W128 s OR 1" for s
    by (rule bit_word_eqI) (simp add: bit_W128 bit_simps)
  then show ?thesis
    unfolding StickyLogicalShiftRight_shr Let_def by (simp add: W128_shr_nat)
qed

lemma uint_sticky:
  "uint (drop_bit k w OR (if take_bit k w \<noteq> 0 then 1 else 0) :: 128 word)
     = (uint w div 2 ^ k) OR (if uint w mod 2 ^ k \<noteq> 0 then 1 else 0)"
proof -
  have "take_bit k w \<noteq> 0 \<longleftrightarrow> uint w mod 2 ^ k \<noteq> 0"
    unfolding word_uint_eq_iff unsigned_take_bit_eq by (simp add: take_bit_eq_mod)
  then show ?thesis by (simp add: unsigned_or_eq uint_drop_bit)
qed

lemma u128_shl_refines:
  "W128 (u128_shl x n) = (if 0 \<le> n then push_bit (nat n) (W128 x) else drop_bit (nat (- n)) (W128 x))"
proof (cases "0 \<le> n")
  case True
  then show ?thesis using W128_shl_nat [of x "nat n"] by simp
next
  case False
  then show ?thesis using W128_shr_nat [of x "nat (- n)"] by (simp add: u128_shl.simps [of x n])
qed

lemma u128_shr_refines:
  "W128 (u128_shr x n) = (if 0 \<le> n then drop_bit (nat n) (W128 x) else push_bit (nat (- n)) (W128 x))"
proof (cases "0 \<le> n")
  case True
  then show ?thesis using W128_shr_nat [of x "nat n"] by simp
next
  case False
  then show ?thesis using W128_shl_nat [of x "nat (- n)"] by (simp add: u128_shr.simps [of x n])
qed

text \<open>
  C17. The two-limb integer is 128-bit arithmetic: addition and subtraction wrap modulo
  \<open>2 ^ 128\<close>, the 64x64 multiplication built from four 32-bit products is exact, the
  comparisons are the unsigned ones, and the two shift operators shift the 128-bit word
  logically by any amount, a negative amount in the other direction and an amount of 128
  or more to zero.
\<close>

theorem u128_arithmetic:
  "W128 (u128_add a b) = W128 a + W128 b
   \<and> W128 (u128_sub a b) = W128 a - W128 b
   \<and> uint (W128 (Multiply64To128 x y)) = uint x * uint y
   \<and> (u128_less a b \<longleftrightarrow> W128 a < W128 b)
   \<and> (u128_less_eq a b \<longleftrightarrow> W128 a \<le> W128 b)
   \<and> (u128_greater a b \<longleftrightarrow> W128 a > W128 b)
   \<and> (u128_greater_eq a b \<longleftrightarrow> W128 a \<ge> W128 b)
   \<and> (u128_equal a b \<longleftrightarrow> W128 a = W128 b)
   \<and> W128 (u128_shl a n) = (if 0 \<le> n then push_bit (nat n) (W128 a) else drop_bit (nat (- n)) (W128 a))
   \<and> W128 (u128_shr a n) = (if 0 \<le> n then drop_bit (nat n) (W128 a) else push_bit (nat (- n)) (W128 a))"
  by (auto simp: u128_add_refines u128_sub_refines Multiply64To128_refines u128_compare_refines
      u128_shl_refines u128_shr_refines)

text \<open>
  C27. The sticky right shift by any non-negative amount is the integer division by
  \<open>2 ^ k\<close> whose lowest bit also records that the remainder was not zero, including the
  amounts of 64, between 64 and 128, and above 128 that the source treats apart.
\<close>

theorem sticky_shift_division:
  "uint (W128 (StickyLogicalShiftRight x (int k))) =
     (uint (W128 x) div 2 ^ k) OR (if uint (W128 x) mod 2 ^ k \<noteq> 0 then 1 else 0)"
  unfolding StickyLogicalShiftRight_refines uint_sticky ..

end
