(* ===== verification/FP_Core.thy ===== *)
theory FP_Core
  imports U128 Status_Registers "HOL-Library.Monad_Syntax"
begin

text \<open>
  The software floating point core (\<^verbatim>\<open>common/fp/\<close>): format descriptions, residual errors of a
  right shift, exception and NaN processing, unpacking to a sign, exponent and 64-bit
  mantissa, rounding back to a format, and the fused multiply-add on unpacked values; and
  the reciprocal estimate tables of \<^verbatim>\<open>common/math_util.cpp\<close>.  The C++ templates over the
  format are definitions over a word length with the format's constants as an argument.
  Floating point exceptions with traps enabled are an assertion failure in the code and
  the value \<^const>\<open>None\<close> here; the status register is passed and returned.
\<close>

section \<open>Formats (info.h)\<close>

record 'a fp_info =
  total_width :: nat
  exponent_width :: nat
  explicit_mantissa_width :: nat
  implicit_leading_bit :: 'a
  sign_mask :: 'a
  exponent_mask :: 'a
  mantissa_mask :: 'a
  mantissa_msb :: 'a
  exponent_min :: int
  exponent_max :: int
  exponent_bias :: int

definition FPInfo16 :: "u16 fp_info" where
  "FPInfo16 = \<lparr>total_width = 16, exponent_width = 5, explicit_mantissa_width = 10, implicit_leading_bit = push_bit 10 1,
     sign_mask = 0x8000, exponent_mask = 0x7C00, mantissa_mask = 0x3FF, mantissa_msb = 0x200,
     exponent_min = -14, exponent_max = 15, exponent_bias = 15\<rparr>"

definition FPInfo32 :: "u32 fp_info" where
  "FPInfo32 = \<lparr>total_width = 32, exponent_width = 8, explicit_mantissa_width = 23, implicit_leading_bit = push_bit 23 1,
     sign_mask = 0x80000000, exponent_mask = 0x7F800000, mantissa_mask = 0x007FFFFF, mantissa_msb = 0x00400000,
     exponent_min = -126, exponent_max = 127, exponent_bias = 127\<rparr>"

definition FPInfo64 :: "u64 fp_info" where
  "FPInfo64 = \<lparr>total_width = 64, exponent_width = 11, explicit_mantissa_width = 52, implicit_leading_bit = push_bit 52 1,
     sign_mask = 0x8000000000000000, exponent_mask = 0x7FF0000000000000, mantissa_mask = 0x000FFFFFFFFFFFFF,
     mantissa_msb = 0x0008000000000000, exponent_min = -1022, exponent_max = 1023, exponent_bias = 1023\<rparr>"

definition FPInfo_Zero :: "'a::len word fp_info \<Rightarrow> bool \<Rightarrow> 'a word" where
  "FPInfo_Zero i sign = (if sign then sign_mask i else 0)"

definition FPInfo_Infinity :: "'a::len word fp_info \<Rightarrow> bool \<Rightarrow> 'a word" where
  "FPInfo_Infinity i sign = exponent_mask i OR FPInfo_Zero i sign"

definition FPInfo_MaxNormal :: "'a::len word fp_info \<Rightarrow> bool \<Rightarrow> 'a word" where
  "FPInfo_MaxNormal i sign = (exponent_mask i - 1) OR FPInfo_Zero i sign"

definition FPInfo_DefaultNaN :: "'a::len word fp_info \<Rightarrow> 'a word" where
  "FPInfo_DefaultNaN i = exponent_mask i OR push_bit (explicit_mantissa_width i - 1) 1"

text \<open>\<^verbatim>\<open>FPValue\<close>: the constant \<open>(-1)^sign * value * 2^exponent\<close>; its static assertions rule out the other arguments.\<close>

definition FPValue :: "'a::len word fp_info \<Rightarrow> bool \<Rightarrow> int \<Rightarrow> 'a word \<Rightarrow> 'a word option" where
  "FPValue i sign expo v =
     (if v = 0 then Some (FPInfo_Zero i sign)
      else let point_position = int (explicit_mantissa_width i);
               offset = point_position - highest_set_bit v;
               normalized_exponent = expo - offset + point_position
           in if 0 \<le> offset \<and> exponent_min i \<le> normalized_exponent \<and> normalized_exponent \<le> exponent_max i
              then Some (FPInfo_Zero i sign OR (push_bit (nat offset) v AND mantissa_mask i)
                         OR push_bit (explicit_mantissa_width i) (of_int (normalized_exponent + exponent_bias i)))
              else None)"

section \<open>Residual errors (mantissa_util.h)\<close>

datatype ResidualError = RE_Zero | RE_LessThanHalf | RE_Half | RE_GreaterThanHalf

text \<open>The count given to \<^const>\<open>ones\<close> is between 1 and 64 there, so the assertion on it holds.\<close>

definition ResidualErrorOnRightShift :: "u64 \<Rightarrow> int \<Rightarrow> ResidualError" where
  "ResidualErrorOnRightShift mantissa shift_amount =
     (if shift_amount \<le> 0 \<or> mantissa = 0 then RE_Zero
      else if shift_amount > 64
      then (if most_significant_bit mantissa then RE_GreaterThanHalf else RE_LessThanHalf)
      else let half_bit_position = nat (shift_amount - 1);
               half = push_bit half_bit_position 1;
               error_mask = ones (nat shift_amount);
               error = mantissa AND error_mask
           in if error = 0 then RE_Zero
              else if error < half then RE_LessThanHalf
              else if error = half then RE_Half
              else RE_GreaterThanHalf)"

section \<open>Exceptions (process_exception.cpp)\<close>

datatype FPExc = InvalidOp | DivideByZero | Overflow | Underflow | Inexact | InputDenorm

primrec FPProcessException :: "FPExc \<Rightarrow> FPCR \<Rightarrow> FPSR \<Rightarrow> FPSR option" where
  "FPProcessException InvalidOp c s = (if FPCR_IOE c then None else Some (FPSR_set_IOC s True))"
| "FPProcessException DivideByZero c s = (if FPCR_DZE c then None else Some (FPSR_set_DZC s True))"
| "FPProcessException Overflow c s = (if FPCR_OFE c then None else Some (FPSR_set_OFC s True))"
| "FPProcessException Underflow c s = (if FPCR_UFE c then None else Some (FPSR_set_UFC s True))"
| "FPProcessException Inexact c s = (if FPCR_IXE c then None else Some (FPSR_set_IXC s True))"
| "FPProcessException InputDenorm c s = (if FPCR_IDE c then None else Some (FPSR_set_IDC s True))"

section \<open>NaNs (process_nan.cpp)\<close>

datatype FPType = FPNonzero | FPZero | FPInfinity | QNaN | SNaN

definition FPProcessNaN :: "'a::len word fp_info \<Rightarrow> FPType \<Rightarrow> 'a word \<Rightarrow> FPCR \<Rightarrow> FPSR \<Rightarrow> ('a word \<times> FPSR) option" where
  "FPProcessNaN i type op c s = do {
     assert_opt (type = QNaN \<or> type = SNaN);
     let topfrac = explicit_mantissa_width i - 1;
     (result, s') \<leftarrow> (if type = SNaN
        then do { s' \<leftarrow> FPProcessException InvalidOp c s; Some (set_bit_mcl topfrac op True, s') }
        else Some (op, s));
     Some (if FPCR_DN c then FPInfo_DefaultNaN i else result, s')
   }"

text \<open>The first component of the result is the optional NaN.\<close>

definition map_nan :: "('a \<times> FPSR) option \<Rightarrow> ('a option \<times> FPSR) option" where
  "map_nan r = map_option (\<lambda>(v, s). (Some v, s)) r"

definition FPProcessNaNs :: "'a::len word fp_info \<Rightarrow> FPType \<Rightarrow> FPType \<Rightarrow> 'a word \<Rightarrow> 'a word \<Rightarrow> FPCR \<Rightarrow> FPSR
    \<Rightarrow> ('a word option \<times> FPSR) option" where
  "FPProcessNaNs i type1 type2 op1 op2 c s =
     (if type1 = SNaN then map_nan (FPProcessNaN i type1 op1 c s)
      else if type2 = SNaN then map_nan (FPProcessNaN i type2 op2 c s)
      else if type1 = QNaN then map_nan (FPProcessNaN i type1 op1 c s)
      else if type2 = QNaN then map_nan (FPProcessNaN i type2 op2 c s)
      else Some (None, s))"

definition FPProcessNaNs3 :: "'a::len word fp_info \<Rightarrow> FPType \<Rightarrow> FPType \<Rightarrow> FPType \<Rightarrow> 'a word \<Rightarrow> 'a word \<Rightarrow> 'a word
    \<Rightarrow> FPCR \<Rightarrow> FPSR \<Rightarrow> ('a word option \<times> FPSR) option" where
  "FPProcessNaNs3 i type1 type2 type3 op1 op2 op3 c s =
     (if type1 = SNaN then map_nan (FPProcessNaN i type1 op1 c s)
      else if type2 = SNaN then map_nan (FPProcessNaN i type2 op2 c s)
      else if type3 = SNaN then map_nan (FPProcessNaN i type3 op3 c s)
      else if type1 = QNaN then map_nan (FPProcessNaN i type1 op1 c s)
      else if type2 = QNaN then map_nan (FPProcessNaN i type2 op2 c s)
      else if type3 = QNaN then map_nan (FPProcessNaN i type3 op3 c s)
      else Some (None, s))"

section \<open>Unpacked values (unpacked.h, unpacked.cpp)\<close>

definition normalized_point_position :: nat where
  "normalized_point_position = 62"

record FPUnpacked =
  fp_sign :: bool
  fp_exponent :: int
  fp_mantissa :: u64

definition ToNormalized :: "bool \<Rightarrow> int \<Rightarrow> u64 \<Rightarrow> FPUnpacked" where
  "ToNormalized sign expo v =
     (if v = 0 then \<lparr>fp_sign = sign, fp_exponent = 0, fp_mantissa = 0\<rparr>
      else let offset = int normalized_point_position - highest_set_bit v
           in \<lparr>fp_sign = sign, fp_exponent = expo - (offset - int normalized_point_position),
               fp_mantissa = push_bit (nat offset) v\<rparr>)"

definition FPUnpackBase :: "'a::len word fp_info \<Rightarrow> 'a word \<Rightarrow> FPCR \<Rightarrow> FPSR \<Rightarrow> ((FPType \<times> bool \<times> FPUnpacked) \<times> FPSR) option" where
  "FPUnpackBase i op c s =
     (let sign_bit = exponent_width i + explicit_mantissa_width i;
          exponent_high_bit = exponent_width i + explicit_mantissa_width i - 1;
          exponent_low_bit = explicit_mantissa_width i;
          mantissa_high_bit = explicit_mantissa_width i - 1;
          denormal_exponent = exponent_min i - int (explicit_mantissa_width i);
          is_half_precision = (total_width i = 16);
          sign = get_bit sign_bit op;
          exp_raw = get_bits exponent_low_bit exponent_high_bit op;
          frac_raw = get_bits 0 mantissa_high_bit op;
          zero = (FPZero, sign, \<lparr>fp_sign = sign, fp_exponent = 0, fp_mantissa = 0\<rparr>)
      in if exp_raw = 0
         then (if is_half_precision
               then (if frac_raw = 0 \<or> FPCR_FZ16 c then Some (zero, s)
                     else Some ((FPNonzero, sign, ToNormalized sign denormal_exponent (ucast frac_raw)), s))
               else (if frac_raw = 0 \<or> FPCR_FZ c
                     then do { s' \<leftarrow> (if frac_raw \<noteq> 0 then FPProcessException InputDenorm c s else Some s); Some (zero, s') }
                     else Some ((FPNonzero, sign, ToNormalized sign denormal_exponent (ucast frac_raw)), s)))
         else let exp_all_ones = (exp_raw = ones (exponent_width i));
                  ahp_disabled = (is_half_precision \<and> \<not> FPCR_AHP c)
              in if (exp_all_ones \<and> \<not> is_half_precision) \<or> (exp_all_ones \<and> ahp_disabled)
                 then (if frac_raw = 0 then Some ((FPInfinity, sign, ToNormalized sign 1000000 1), s)
                       else Some ((if get_bit mantissa_high_bit frac_raw then QNaN else SNaN, sign,
                                   \<lparr>fp_sign = sign, fp_exponent = 0, fp_mantissa = 0\<rparr>), s))
                 else Some ((FPNonzero, sign,
                       \<lparr>fp_sign = sign, fp_exponent = int (unat exp_raw) - exponent_bias i,
                        fp_mantissa = push_bit (normalized_point_position - explicit_mantissa_width i)
                          (ucast (frac_raw OR implicit_leading_bit i))\<rparr>), s))"

definition FPUnpack :: "'a::len word fp_info \<Rightarrow> 'a word \<Rightarrow> FPCR \<Rightarrow> FPSR \<Rightarrow> ((FPType \<times> bool \<times> FPUnpacked) \<times> FPSR) option" where
  "FPUnpack i op c s = FPUnpackBase i op (FPCR_set_AHP c False) s"

definition FPUnpackCV :: "'a::len word fp_info \<Rightarrow> 'a word \<Rightarrow> FPCR \<Rightarrow> FPSR \<Rightarrow> ((FPType \<times> bool \<times> FPUnpacked) \<times> FPSR) option" where
  "FPUnpackCV i op c s = FPUnpackBase i op (FPCR_set_FZ16 c False) s"

definition Normalize :: "nat \<Rightarrow> FPUnpacked \<Rightarrow> int \<Rightarrow> bool \<times> int \<times> u64 \<times> ResidualError" where
  "Normalize F op extra_right_shift =
     (let highest = highest_set_bit (fp_mantissa op);
          shift_amount = highest - int F + extra_right_shift;
          mantissa = LogicalShiftRight (fp_mantissa op) shift_amount;
          error = ResidualErrorOnRightShift (fp_mantissa op) shift_amount;
          expo = fp_exponent op + highest - int normalized_point_position
      in (fp_sign op, expo, mantissa, error))"

text \<open>The decision whether to round up and whether an overflow goes to infinity.\<close>

definition round_decision :: "RoundingMode \<Rightarrow> bool \<Rightarrow> u64 \<Rightarrow> ResidualError \<Rightarrow> bool \<times> bool" where
  "round_decision rounding sign mantissa error =
     (case rounding of
        ToNearest_TieEven \<Rightarrow> (error = RE_GreaterThanHalf \<or> (error = RE_Half \<and> get_bit 0 mantissa), True)
      | TowardsPlusInfinity \<Rightarrow> (error \<noteq> RE_Zero \<and> \<not> sign, \<not> sign)
      | TowardsMinusInfinity \<Rightarrow> (error \<noteq> RE_Zero \<and> sign, sign)
      | _ \<Rightarrow> (False, False))"

definition FPRoundBase :: "'a::len word fp_info \<Rightarrow> FPUnpacked \<Rightarrow> FPCR \<Rightarrow> RoundingMode \<Rightarrow> FPSR \<Rightarrow> ('a word \<times> FPSR) option" where
  "FPRoundBase i op c rounding s = do {
     assert_opt (fp_mantissa op \<noteq> 0);
     assert_opt (rounding \<noteq> ToNearest_TieAwayFromZero);
     let minimum_exp = exponent_min i;
     let E = exponent_width i;
     let F = explicit_mantissa_width i;
     let isFP16 = (total_width i = 16);
     let (sign, expo, mantissa, error) = Normalize F op 0;
     if ((\<not> isFP16 \<and> FPCR_FZ c) \<or> (isFP16 \<and> FPCR_FZ16 c)) \<and> expo < minimum_exp
     then Some (FPInfo_Zero i sign, FPSR_set_UFC s True)
     else do {
       let biased_exp = max (expo - minimum_exp + 1) 0;
       let (sign, expo, mantissa, error) =
         (if biased_exp = 0 then Normalize F op (minimum_exp - expo) else (sign, expo, mantissa, error));
       s \<leftarrow> (if biased_exp = 0 \<and> (error \<noteq> RE_Zero \<or> FPCR_UFE c) then FPProcessException Underflow c s else Some s);
       let (round_up, overflow_to_inf) = round_decision rounding sign mantissa error;
       let mmask = (ucast (mantissa_mask i) :: u64);
       let (mantissa, biased_exp) =
         (if round_up
          then (if mantissa AND mmask = mmask
                then (if mantissa = mmask then (mantissa + 1, biased_exp + 1) else ((mantissa + 1) div 2, biased_exp + 1))
                else (mantissa + 1, biased_exp))
          else (mantissa, biased_exp));
       let mantissa = (if error \<noteq> RE_Zero \<and> rounding = ToOdd then set_bit_mcl 0 mantissa True else mantissa);
       let packed = push_bit F (push_bit E (if sign then 1 else 0) + of_int biased_exp) OR (ucast mantissa AND mantissa_mask i);
       if \<not> isFP16 \<or> \<not> FPCR_AHP c
       then (if biased_exp \<ge> 2 ^ E - 1
             then do {
               s \<leftarrow> FPProcessException Overflow c s;
               s \<leftarrow> FPProcessException Inexact c s;
               Some (if overflow_to_inf then FPInfo_Infinity i sign else FPInfo_MaxNormal i sign, s)
             }
             else do {
               s \<leftarrow> (if error \<noteq> RE_Zero then FPProcessException Inexact c s else Some s);
               Some (packed, s)
             })
       else (if biased_exp \<ge> 2 ^ E
             then do {
               s \<leftarrow> FPProcessException InvalidOp c s;
               Some (if sign then 0xFFFF else 0x7FFF, s)
             }
             else do {
               s \<leftarrow> (if error \<noteq> RE_Zero then FPProcessException Inexact c s else Some s);
               Some (packed, s)
             })
     }
   }"

definition FPRound :: "'a::len word fp_info \<Rightarrow> FPUnpacked \<Rightarrow> FPCR \<Rightarrow> RoundingMode \<Rightarrow> FPSR \<Rightarrow> ('a word \<times> FPSR) option" where
  "FPRound i op c rounding s = FPRoundBase i op (FPCR_set_AHP c False) rounding s"

definition FPRoundCV :: "'a::len word fp_info \<Rightarrow> FPUnpacked \<Rightarrow> FPCR \<Rightarrow> RoundingMode \<Rightarrow> FPSR \<Rightarrow> ('a word \<times> FPSR) option" where
  "FPRoundCV i op c rounding s = FPRoundBase i op (FPCR_set_FZ16 c False) rounding s"

definition FPRound_default :: "'a::len word fp_info \<Rightarrow> FPUnpacked \<Rightarrow> FPCR \<Rightarrow> FPSR \<Rightarrow> ('a word \<times> FPSR) option" where
  "FPRound_default i op c s = FPRound i op c (FPCR_RMode c) s"

section \<open>Fused multiply-add (fused.cpp)\<close>

definition product_point_position :: nat where
  "product_point_position = normalized_point_position * 2"

definition ReduceMantissa :: "bool \<Rightarrow> int \<Rightarrow> u128 \<Rightarrow> FPUnpacked" where
  "ReduceMantissa sign expo mantissa =
     (let point_position_correction = int normalized_point_position - (int product_point_position - 64)
      in \<lparr>fp_sign = sign, fp_exponent = expo + point_position_correction,
          fp_mantissa = upper mantissa OR (if lower mantissa \<noteq> 0 then 1 else 0)\<rparr>)"

definition FusedMulAdd :: "FPUnpacked \<Rightarrow> FPUnpacked \<Rightarrow> FPUnpacked \<Rightarrow> FPUnpacked" where
  "FusedMulAdd addend op1 op2 =
     (let product_sign = (fp_sign op1 \<noteq> fp_sign op2);
          (product_exponent, product_value) =
            (let expo = fp_exponent op1 + fp_exponent op2;
                 v = Multiply64To128 (fp_mantissa op1) (fp_mantissa op2)
             in if u128_Bit (product_point_position + 1) v then (expo + 1, u128_shr v 1) else (expo, v))
      in if u128_equal product_value (u128_of_u64 0) then addend
         else if fp_mantissa addend = 0 then ReduceMantissa product_sign product_exponent product_value
         else let exp_diff = product_exponent - fp_exponent addend
              in if product_sign = fp_sign addend
                 then (if exp_diff \<le> 0
                       then let result = fp_mantissa addend
                              + lower (StickyLogicalShiftRight product_value (int normalized_point_position - exp_diff))
                            in \<lparr>fp_sign = fp_sign addend, fp_exponent = fp_exponent addend, fp_mantissa = result\<rparr>
                       else let result = u128_add product_value
                              (StickyLogicalShiftRight (u128_of_u64 (fp_mantissa addend)) (exp_diff - int normalized_point_position))
                            in ReduceMantissa product_sign product_exponent result)
                 else let addend_long = u128_shl (u128_of_u64 (fp_mantissa addend)) (int normalized_point_position);
                          (result_sign, result_exponent, result) =
                            (if exp_diff = 0 \<and> u128_greater product_value addend_long
                             then (product_sign, product_exponent, u128_sub product_value addend_long)
                             else if exp_diff \<le> 0
                             then (\<not> product_sign, fp_exponent addend,
                                   u128_sub addend_long (StickyLogicalShiftRight product_value (- exp_diff)))
                             else (product_sign, product_exponent,
                                   u128_sub product_value (StickyLogicalShiftRight addend_long exp_diff)))
                      in if upper result = 0
                         then \<lparr>fp_sign = result_sign, fp_exponent = result_exponent, fp_mantissa = lower result\<rparr>
                         else let required_shift = int normalized_point_position - highest_set_bit (upper result)
                              in ReduceMantissa result_sign (result_exponent - required_shift)
                                   (u128_shl result required_shift))"

section \<open>Classification (util.h)\<close>

definition FP_IsZero :: "'a::len word fp_info \<Rightarrow> 'a word \<Rightarrow> FPCR \<Rightarrow> bool" where
  "FP_IsZero i v c \<longleftrightarrow> (if FPCR_FZ c then v AND exponent_mask i = 0 else v AND NOT (sign_mask i) = 0)"

definition FP_IsInf :: "'a::len word fp_info \<Rightarrow> 'a word \<Rightarrow> bool" where
  "FP_IsInf i v \<longleftrightarrow> v AND NOT (sign_mask i) = FPInfo_Infinity i False"

definition FP_IsQNaN :: "'a::len word fp_info \<Rightarrow> 'a word \<Rightarrow> bool" where
  "FP_IsQNaN i v \<longleftrightarrow> (let qnan_bits = exponent_mask i OR mantissa_msb i in v AND qnan_bits = qnan_bits)"

definition FP_IsSNaN :: "'a::len word fp_info \<Rightarrow> 'a word \<Rightarrow> bool" where
  "FP_IsSNaN i v \<longleftrightarrow>
     (let qnan_bits = exponent_mask i OR mantissa_msb i; snan_bits = exponent_mask i
      in v AND qnan_bits = snan_bits \<and> v AND mantissa_mask i \<noteq> 0)"

definition FP_IsNaN :: "'a::len word fp_info \<Rightarrow> 'a word \<Rightarrow> bool" where
  "FP_IsNaN i v \<longleftrightarrow> FP_IsQNaN i v \<or> FP_IsSNaN i v"

definition ProcessNaNs1 :: "'a::len word fp_info \<Rightarrow> 'a word \<Rightarrow> 'a word option" where
  "ProcessNaNs1 i a =
     (if FP_IsSNaN i a then Some (a OR mantissa_msb i) else if FP_IsQNaN i a then Some a else None)"

definition ProcessNaNs2 :: "'a::len word fp_info \<Rightarrow> 'a word \<Rightarrow> 'a word \<Rightarrow> 'a word option" where
  "ProcessNaNs2 i a b =
     (if FP_IsSNaN i a then Some (a OR mantissa_msb i) else if FP_IsSNaN i b then Some (b OR mantissa_msb i)
      else if FP_IsQNaN i a then Some a else if FP_IsQNaN i b then Some b else None)"

definition ProcessNaNs3 :: "'a::len word fp_info \<Rightarrow> 'a word \<Rightarrow> 'a word \<Rightarrow> 'a word \<Rightarrow> 'a word option" where
  "ProcessNaNs3 i a b d =
     (if FP_IsSNaN i a then Some (a OR mantissa_msb i) else if FP_IsSNaN i b then Some (b OR mantissa_msb i)
      else if FP_IsSNaN i d then Some (d OR mantissa_msb i)
      else if FP_IsQNaN i a then Some a else if FP_IsQNaN i b then Some b else if FP_IsQNaN i d then Some d else None)"

section \<open>Reciprocal estimates (math_util.cpp)\<close>

text \<open>
  The tables are computed once at run time, entry by entry.  The quotient fits its
  64-bit variable, so it is a natural number here; an index outside a table is an error.
\<close>

definition RecipEstimate_entry :: "nat \<Rightarrow> u8" where
  "RecipEstimate_entry i = (let a = (i + 256) * 2 + 1; b = 2 ^ 19 div a in of_nat ((b + 1) div 2))"

definition RecipEstimate :: "u64 \<Rightarrow> u8 option" where
  "RecipEstimate a = (let k = unat (a - 256) in if k < 256 then Some (RecipEstimate_entry k) else None)"

text \<open>
  The search for the largest \<open>b\<close> with \<open>a * b * b < 2^28\<close>.  The source has no guard \<open>0 < a\<close>:
  it is there to make the recursion end for every argument, and it is always true of the
  operands the table is built for, which are at least 257.
\<close>

function RecipSqrt_loop :: "nat \<Rightarrow> nat \<Rightarrow> nat" where
  "RecipSqrt_loop a b = (if 0 < a \<and> a * (b + 1) * (b + 1) < 2 ^ 28 then RecipSqrt_loop a (b + 1) else b)"
  by pat_completeness auto
termination
proof (relation "measure (\<lambda>(a, b). 2 ^ 28 - b)")
  fix a b :: nat
  assume g: "0 < a \<and> a * (b + 1) * (b + 1) < 2 ^ 28"
  have "b + 1 \<le> (b + 1) * (b + 1)" by simp
  also have "\<dots> \<le> a * ((b + 1) * (b + 1))"
    using g mult_le_mono1 [of 1 a "(b + 1) * (b + 1)"] by (metis Suc_eq_plus1 Suc_leI add_0 mult_1)
  finally have "b + 1 \<le> a * (b + 1) * (b + 1)" by (simp only: mult.assoc)
  with g have "b < 2 ^ 28" by linarith
  then show "((a, b + 1), (a, b)) \<in> measure (\<lambda>(a, b). 2 ^ 28 - b)" by simp
qed simp

declare RecipSqrt_loop.simps [simp del]

definition RecipSqrt_operand :: "nat \<Rightarrow> nat" where
  "RecipSqrt_operand i = (if i < 256 then i * 2 + 1 else (if even i then i + 1 else i) * 2)"

definition RecipSqrtEstimate_entry :: "nat \<Rightarrow> u8" where
  "RecipSqrtEstimate_entry i =
     (if i < 128 then 0 else of_nat ((RecipSqrt_loop (RecipSqrt_operand i) 512 + 1) div 2))"

definition RecipSqrtEstimate :: "u64 \<Rightarrow> u8" where
  "RecipSqrtEstimate a = RecipSqrtEstimate_entry (unat (a AND 0x1FF))"

section \<open>The reciprocal square root table\<close>

lemma RecipSqrt_loop_spec:
  "0 < a \<Longrightarrow> a * b * b < 2 ^ 28 \<Longrightarrow> b \<le> RecipSqrt_loop a b
     \<and> a * RecipSqrt_loop a b * RecipSqrt_loop a b < 2 ^ 28
     \<and> 2 ^ 28 \<le> a * (RecipSqrt_loop a b + 1) * (RecipSqrt_loop a b + 1)"
proof (induction a b rule: RecipSqrt_loop.induct)
  case (1 a b)
  show ?case
  proof (cases "a * (b + 1) * (b + 1) < 2 ^ 28")
    case True
    then have "RecipSqrt_loop a b = RecipSqrt_loop a (b + 1)"
      using "1.prems" by (subst RecipSqrt_loop.simps) simp
    then show ?thesis using "1.IH" "1.prems" True by simp
  next
    case False
    then have "RecipSqrt_loop a b = b" by (subst RecipSqrt_loop.simps) simp
    then show ?thesis using "1.prems" False by simp
  qed
qed

lemma RecipSqrt_operand_range:
  assumes "128 \<le> i" "i < 512"
  shows "257 \<le> RecipSqrt_operand i" "RecipSqrt_operand i < 1024"
proof -
  have "i \<noteq> 511" if "even i" using that by auto
  then show "257 \<le> RecipSqrt_operand i" "RecipSqrt_operand i < 1024"
    using assms by (auto simp: RecipSqrt_operand_def)
qed

lemma RecipSqrt_root_range:
  assumes "128 \<le> i" "i < 512"
  defines "a \<equiv> RecipSqrt_operand i"
  defines "b \<equiv> RecipSqrt_loop a 512"
  shows "512 \<le> b" "b \<le> 1022" "a * b * b < 2 ^ 28" "2 ^ 28 \<le> a * (b + 1) * (b + 1)"
proof -
  have a: "257 \<le> a" "a < 1024" unfolding a_def using RecipSqrt_operand_range [OF assms(1,2)] by auto
  have s: "512 \<le> b" "a * b * b < 2 ^ 28" "2 ^ 28 \<le> a * (b + 1) * (b + 1)"
    unfolding b_def using RecipSqrt_loop_spec [of a 512] a by auto
  show "512 \<le> b" "a * b * b < 2 ^ 28" "2 ^ 28 \<le> a * (b + 1) * (b + 1)" by (fact s)+
  show "b \<le> 1022"
  proof (rule ccontr)
    assume "\<not> b \<le> 1022"
    then have "1023 * 1023 \<le> b * b" by (intro mult_le_mono) auto
    then have "257 * (1023 * 1023) \<le> a * (b * b)" by (rule mult_le_mono [OF a(1)])
    then show False using s(2) by (simp add: mult.assoc)
  qed
qed

text \<open>C26. The reciprocal square root table is exact and fits its bytes.  Operands below a
  quarter give zero.  For every other nine-bit operand the loop that fills the table stops at
  the greatest root \<open>b\<close> with \<open>a * b\<^sup>2 < 2\<^sup>28\<close>, the root lies between 512 and 1022, and
  the stored byte is its rounded half with the leading bit, which is always set, left out: the
  narrowing to eight bits loses nothing.\<close>

theorem RecipSqrtEstimate_bounds:
  "let i = unat (x AND 0x1FF); a = RecipSqrt_operand i; b = RecipSqrt_loop a 512 in
   if i < 128 then RecipSqrtEstimate x = 0
   else a * b * b < 2 ^ 28 \<and> 2 ^ 28 \<le> a * (b + 1) * (b + 1) \<and> 512 \<le> b \<and> b \<le> 1022
     \<and> 256 + unat (RecipSqrtEstimate x) = (b + 1) div 2"
proof -
  define i where "i = unat (x AND 0x1FF)"
  define b where "b = RecipSqrt_loop (RecipSqrt_operand i) 512"
  have "x AND 0x1FF \<le> 0x1FF" by (rule word_and_le1)
  then have i: "i < 512" unfolding i_def by (simp add: word_le_nat_alt)
  have e: "RecipSqrtEstimate x = (if i < 128 then 0 else of_nat ((b + 1) div 2))"
    by (simp add: RecipSqrtEstimate_def RecipSqrtEstimate_entry_def i_def b_def)
  have u: "256 + unat (of_nat m :: u8) = m" if "256 \<le> m" "m < 512" for m
    using that by (auto simp: unat_of_nat take_bit_nat_def mod_if)
  show ?thesis
  proof (cases "i < 128")
    case False
    then have r: "512 \<le> b" "b \<le> 1022" unfolding b_def using RecipSqrt_root_range(1,2) [of i] i by auto
    then have "256 + unat (RecipSqrtEstimate x) = (b + 1) div 2"
      using e False u [of "(b + 1) div 2"] by simp
    then show ?thesis
      using False r RecipSqrt_root_range(3,4) [of i] i unfolding Let_def i_def [symmetric] b_def [symmetric] by simp
  qed (use e in \<open>simp add: Let_def i_def\<close>)
qed

end
