(* ===== verification/FP_Ops.thy ===== *)
theory FP_Ops
  imports FP_Core
begin

text \<open>
  The floating point operations the emitters fall back to (\<^verbatim>\<open>common/fp/op/\<close>): comparison,
  conversion between formats, fused multiply-add, reciprocal estimates and steps, rounding
  to an integral value and conversion to fixed point.
\<close>

section \<open>Operations\<close>

definition FPNeg :: "'a::len word fp_info \<Rightarrow> 'a word \<Rightarrow> 'a word" where
  "FPNeg i op = op XOR sign_mask i"

definition FPCompareEQ :: "'a::len word fp_info \<Rightarrow> 'a word \<Rightarrow> 'a word \<Rightarrow> FPCR \<Rightarrow> FPSR \<Rightarrow> (bool \<times> FPSR) option" where
  "FPCompareEQ i lhs rhs c s = do {
     ((type1, sign1, value1), s) \<leftarrow> FPUnpack i lhs c s;
     ((type2, sign2, value2), s) \<leftarrow> FPUnpack i rhs c s;
     if type1 = QNaN \<or> type1 = SNaN \<or> type2 = QNaN \<or> type2 = SNaN
     then do {
       s \<leftarrow> (if type1 = SNaN \<or> type2 = SNaN then FPProcessException InvalidOp c s else Some s);
       Some (False, s)
     }
     else Some (value1 = value2 \<or> (type1 = FPZero \<and> type2 = FPZero), s)
   }"

definition FPConvertNaN :: "'a::len word fp_info \<Rightarrow> 'b::len word fp_info \<Rightarrow> 'b word \<Rightarrow> 'a word" where
  "FPConvertNaN to_info from_info op =
     (let sign = get_bit (LENGTH('b) - 1) op;
          frac = (if LENGTH('b) = 64 then ucast (get_bits 0 50 op)
                  else if LENGTH('b) = 32 then push_bit 29 (ucast (get_bits 0 21 op))
                  else push_bit 42 (ucast (get_bits 0 8 op))) :: u64;
          dest_bit_size = LENGTH('a);
          shifted_sign = push_bit (dest_bit_size - 1) (if sign then 1 else 0) :: u64;
          expo = (ones (dest_bit_size - explicit_mantissa_width to_info) :: u64)
      in if LENGTH('a) = 64 then ucast (shifted_sign OR push_bit 51 expo OR frac)
         else if LENGTH('a) = 32 then ucast (shifted_sign OR push_bit 22 expo OR get_bits 29 50 frac)
         else ucast (shifted_sign OR push_bit 9 expo OR get_bits 42 50 frac))"

definition FPConvert :: "'a::len word fp_info \<Rightarrow> 'b::len word fp_info \<Rightarrow> 'b word \<Rightarrow> FPCR \<Rightarrow> RoundingMode \<Rightarrow> FPSR
    \<Rightarrow> ('a word \<times> FPSR) option" where
  "FPConvert to_info from_info op c rounding_mode s = do {
     ((type, sign, v), s) \<leftarrow> FPUnpackCV from_info op c s;
     let is_althp = (LENGTH('a) = 16 \<and> FPCR_AHP c);
     if type = SNaN \<or> type = QNaN
     then do {
       let result = (if is_althp then FPInfo_Zero to_info sign
                     else if FPCR_DN c then FPInfo_DefaultNaN to_info
                     else FPConvertNaN to_info from_info op);
       s \<leftarrow> (if type = SNaN \<or> is_althp then FPProcessException InvalidOp c s else Some s);
       Some (result, s)
     }
     else if type = FPInfinity
     then (if is_althp
           then do { s \<leftarrow> FPProcessException InvalidOp c s; Some (push_bit 15 (if sign then 1 else 0) OR 0b111111111111111, s) }
           else Some (FPInfo_Infinity to_info sign, s))
     else if type = FPZero then Some (FPInfo_Zero to_info sign, s)
     else FPRoundCV to_info v c rounding_mode s
   }"

definition FPMulAdd :: "'a::len word fp_info \<Rightarrow> 'a word \<Rightarrow> 'a word \<Rightarrow> 'a word \<Rightarrow> FPCR \<Rightarrow> FPSR \<Rightarrow> ('a word \<times> FPSR) option" where
  "FPMulAdd i addend op1 op2 c s = do {
     let rounding = FPCR_RMode c;
     ((typeA, signA, valueA), s) \<leftarrow> FPUnpack i addend c s;
     ((type1, sign1, value1), s) \<leftarrow> FPUnpack i op1 c s;
     ((type2, sign2, value2), s) \<leftarrow> FPUnpack i op2 c s;
     let infA = (typeA = FPInfinity);
     let inf1 = (type1 = FPInfinity);
     let inf2 = (type2 = FPInfinity);
     let zeroA = (typeA = FPZero);
     let zero1 = (type1 = FPZero);
     let zero2 = (type2 = FPZero);
     (maybe_nan, s) \<leftarrow> FPProcessNaNs3 i typeA type1 type2 addend op1 op2 c s;
     if typeA = QNaN \<and> ((inf1 \<and> zero2) \<or> (zero1 \<and> inf2))
     then do { s \<leftarrow> FPProcessException InvalidOp c s; Some (FPInfo_DefaultNaN i, s) }
     else (case maybe_nan of
       Some nan \<Rightarrow> Some (nan, s)
     | None \<Rightarrow>
         let signP = (sign1 \<noteq> sign2); infP = (inf1 \<or> inf2); zeroP = (zero1 \<or> zero2)
         in if (inf1 \<and> zero2) \<or> (zero1 \<and> inf2) \<or> (infA \<and> infP \<and> signA \<noteq> signP)
            then do { s \<leftarrow> FPProcessException InvalidOp c s; Some (FPInfo_DefaultNaN i, s) }
            else if (infA \<and> \<not> signA) \<or> (infP \<and> \<not> signP) then Some (FPInfo_Infinity i False, s)
            else if (infA \<and> signA) \<or> (infP \<and> signP) then Some (FPInfo_Infinity i True, s)
            else if zeroA \<and> zeroP \<and> signA = signP then Some (FPInfo_Zero i signA, s)
            else let result_value = FusedMulAdd valueA value1 value2
                 in if fp_mantissa result_value = 0
                    then Some (FPInfo_Zero i (rounding = TowardsMinusInfinity), s)
                    else FPRound_default i result_value c s)
   }"

definition FPMulSub :: "'a::len word fp_info \<Rightarrow> 'a word \<Rightarrow> 'a word \<Rightarrow> 'a word \<Rightarrow> FPCR \<Rightarrow> FPSR \<Rightarrow> ('a word \<times> FPSR) option" where
  "FPMulSub i minuend op1 op2 c s = FPMulAdd i minuend (op1 XOR sign_mask i) op2 c s"

definition FPRSqrtEstimate :: "'a::len word fp_info \<Rightarrow> 'a word \<Rightarrow> FPCR \<Rightarrow> FPSR \<Rightarrow> ('a word \<times> FPSR) option" where
  "FPRSqrtEstimate i op c s = do {
     ((type, sign, v), s) \<leftarrow> FPUnpack i op c s;
     if type = SNaN \<or> type = QNaN then FPProcessNaN i type op c s
     else if type = FPZero
     then do { s \<leftarrow> FPProcessException DivideByZero c s; Some (FPInfo_Infinity i sign, s) }
     else if sign
     then do { s \<leftarrow> FPProcessException InvalidOp c s; Some (FPInfo_DefaultNaN i, s) }
     else if type = FPInfinity then Some (FPInfo_Zero i False, s)
     else do {
       let result_exponent = (- (fp_exponent v + 1)) div 2;
       let was_exponent_odd = (fp_exponent v mod 2 = 0);
       let scaled = LogicalShiftRight (fp_mantissa v) (int normalized_point_position - (if was_exponent_odd then 7 else 8));
       let estimate = (ucast (RecipSqrtEstimate scaled) :: u64);
       let bits_exponent = of_int (result_exponent + exponent_bias i);
       let bits_mantissa = ucast (push_bit (explicit_mantissa_width i - 8) estimate);
       Some (push_bit (explicit_mantissa_width i) bits_exponent OR (bits_mantissa AND mantissa_mask i), s)
     }
   }"

definition FPRSqrtStepFused :: "'a::len word fp_info \<Rightarrow> 'a word \<Rightarrow> 'a word \<Rightarrow> FPCR \<Rightarrow> FPSR \<Rightarrow> ('a word \<times> FPSR) option" where
  "FPRSqrtStepFused i op1 op2 c s = do {
     let op1 = FPNeg i op1;
     ((type1, sign1, value1), s) \<leftarrow> FPUnpack i op1 c s;
     ((type2, sign2, value2), s) \<leftarrow> FPUnpack i op2 c s;
     (maybe_nan, s) \<leftarrow> FPProcessNaNs i type1 type2 op1 op2 c s;
     (case maybe_nan of
       Some nan \<Rightarrow> Some (nan, s)
     | None \<Rightarrow>
         let inf1 = (type1 = FPInfinity); inf2 = (type2 = FPInfinity); zero1 = (type1 = FPZero); zero2 = (type2 = FPZero)
         in if (inf1 \<and> zero2) \<or> (zero1 \<and> inf2) then map_option (\<lambda>v. (v, s)) (FPValue i False (- 1) 3)
            else if inf1 \<or> inf2 then Some (FPInfo_Infinity i (sign1 \<noteq> sign2), s)
            else let r = FusedMulAdd (ToNormalized False 0 3) value1 value2;
                     result_value = r\<lparr>fp_exponent := fp_exponent r - 1\<rparr>
                 in if fp_mantissa result_value = 0
                    then Some (FPInfo_Zero i (FPCR_RMode c = TowardsMinusInfinity), s)
                    else FPRound_default i result_value c s)
   }"

definition FPRecipEstimate :: "'a::len word fp_info \<Rightarrow> 'a word \<Rightarrow> FPCR \<Rightarrow> FPSR \<Rightarrow> ('a word \<times> FPSR) option" where
  "FPRecipEstimate i op c s = do {
     ((type, sign, v), s) \<leftarrow> FPUnpack i op c s;
     if type = SNaN \<or> type = QNaN then FPProcessNaN i type op c s
     else if type = FPInfinity then Some (FPInfo_Zero i sign, s)
     else if type = FPZero
     then do { s \<leftarrow> FPProcessException DivideByZero c s; Some (FPInfo_Infinity i sign, s) }
     else if fp_exponent v < exponent_min i - 2
     then do {
       overflow_to_inf \<leftarrow> (case FPCR_RMode c of
            ToNearest_TieEven \<Rightarrow> Some True
          | TowardsPlusInfinity \<Rightarrow> Some (\<not> sign)
          | TowardsMinusInfinity \<Rightarrow> Some sign
          | TowardsZero \<Rightarrow> Some False
          | _ \<Rightarrow> None);
       s \<leftarrow> FPProcessException Overflow c s;
       s \<leftarrow> FPProcessException Inexact c s;
       Some (if overflow_to_inf then FPInfo_Infinity i sign else FPInfo_MaxNormal i sign, s)
     }
     else if ((FPCR_FZ c \<and> LENGTH('a) \<noteq> 16) \<or> (FPCR_FZ16 c \<and> LENGTH('a) = 16)) \<and> fp_exponent v \<ge> - exponent_min i
     then Some (FPInfo_Zero i sign, FPSR_set_UFC s True)
     else do {
       let scaled = drop_bit (normalized_point_position - 8) (fp_mantissa v);
       r \<leftarrow> RecipEstimate scaled;
       let estimate = push_bit (explicit_mantissa_width i - 8) (ucast r :: u64);
       let result_exponent = - (fp_exponent v + 1);
       let leading = (ucast (implicit_leading_bit i) :: u64);
       (estimate, result_exponent) \<leftarrow>
         (if result_exponent < exponent_min i
          then (if result_exponent = exponent_min i - 1 then Some (drop_bit 1 (estimate OR leading), result_exponent)
                else if result_exponent = exponent_min i - 2 then Some (drop_bit 2 (estimate OR leading), result_exponent + 1)
                else None)
          else Some (estimate, result_exponent));
       let bits_sign = FPInfo_Zero i sign;
       let bits_exponent = of_int (result_exponent + exponent_bias i);
       let bits_mantissa = ucast estimate;
       Some (push_bit (explicit_mantissa_width i) bits_exponent OR (bits_mantissa AND mantissa_mask i) OR bits_sign, s)
     }
   }"

definition DetermineExponentValue :: "'a::len word \<Rightarrow> 'a word" where
  "DetermineExponentValue v =
     (if LENGTH('a) = 32 then get_bits 23 30 v else if LENGTH('a) = 64 then get_bits 52 62 v else get_bits 10 14 v)"

definition FPRecipExponent :: "'a::len word fp_info \<Rightarrow> 'a word \<Rightarrow> FPCR \<Rightarrow> FPSR \<Rightarrow> ('a word \<times> FPSR) option" where
  "FPRecipExponent i op c s = do {
     ((type, sign, v), s) \<leftarrow> FPUnpack i op c s;
     if type = SNaN \<or> type = QNaN then FPProcessNaN i type op c s
     else let sign_bits = FPInfo_Zero i sign; expo = DetermineExponentValue op
          in if expo = 0
             then Some (sign_bits OR push_bit (explicit_mantissa_width i) (ones (exponent_width i) - 1), s)
             else Some (sign_bits OR (push_bit (explicit_mantissa_width i) (NOT expo) AND exponent_mask i), s)
   }"

definition FPRecipStepFused :: "'a::len word fp_info \<Rightarrow> 'a word \<Rightarrow> 'a word \<Rightarrow> FPCR \<Rightarrow> FPSR \<Rightarrow> ('a word \<times> FPSR) option" where
  "FPRecipStepFused i op1 op2 c s = do {
     let op1 = FPNeg i op1;
     ((type1, sign1, value1), s) \<leftarrow> FPUnpack i op1 c s;
     ((type2, sign2, value2), s) \<leftarrow> FPUnpack i op2 c s;
     (maybe_nan, s) \<leftarrow> FPProcessNaNs i type1 type2 op1 op2 c s;
     (case maybe_nan of
       Some nan \<Rightarrow> Some (nan, s)
     | None \<Rightarrow>
         let inf1 = (type1 = FPInfinity); inf2 = (type2 = FPInfinity); zero1 = (type1 = FPZero); zero2 = (type2 = FPZero)
         in if (inf1 \<and> zero2) \<or> (zero1 \<and> inf2) then map_option (\<lambda>v. (v, s)) (FPValue i False 0 2)
            else if inf1 \<or> inf2 then Some (FPInfo_Infinity i (sign1 \<noteq> sign2), s)
            else let result_value = FusedMulAdd (ToNormalized False 0 2) value1 value2
                 in if fp_mantissa result_value = 0
                    then Some (FPInfo_Zero i (FPCR_RMode c = TowardsMinusInfinity), s)
                    else FPRound_default i result_value c s)
   }"

text \<open>The rounding of a shifted two's complement integer, common to the next two operations.\<close>

definition int_round_up :: "RoundingMode \<Rightarrow> ResidualError \<Rightarrow> u64 \<Rightarrow> bool option" where
  "int_round_up rounding error int_result =
     (case rounding of
        ToNearest_TieEven \<Rightarrow> Some (error = RE_GreaterThanHalf \<or> (error = RE_Half \<and> get_bit 0 int_result))
      | TowardsPlusInfinity \<Rightarrow> Some (error \<noteq> RE_Zero)
      | TowardsMinusInfinity \<Rightarrow> Some False
      | TowardsZero \<Rightarrow> Some (error \<noteq> RE_Zero \<and> most_significant_bit int_result)
      | ToNearest_TieAwayFromZero \<Rightarrow>
          Some (error = RE_GreaterThanHalf \<or> (error = RE_Half \<and> \<not> most_significant_bit int_result))
      | ToOdd \<Rightarrow> None)"

definition FPRoundInt :: "'a::len word fp_info \<Rightarrow> 'a word \<Rightarrow> FPCR \<Rightarrow> RoundingMode \<Rightarrow> bool \<Rightarrow> FPSR \<Rightarrow> (u64 \<times> FPSR) option" where
  "FPRoundInt i op c rounding exact s = do {
     assert_opt (rounding \<noteq> ToOdd);
     ((type, sign, v), s) \<leftarrow> FPUnpack i op c s;
     if type = SNaN \<or> type = QNaN then map_option (\<lambda>(r, s). (ucast r, s)) (FPProcessNaN i type op c s)
     else if type = FPInfinity then Some (ucast (FPInfo_Infinity i sign), s)
     else if type = FPZero then Some (ucast (FPInfo_Zero i sign), s)
     else let expo = fp_exponent v - int normalized_point_position
          in if expo \<ge> 0 then Some (ucast op, s)
             else do {
               let int_result = (if sign then Negate (fp_mantissa v) else fp_mantissa v);
               let error = ResidualErrorOnRightShift int_result (- expo);
               let int_result = ArithmeticShiftLeft int_result expo;
               round_up \<leftarrow> int_round_up rounding error int_result;
               let int_result = (if round_up then int_result + 1 else int_result);
               let new_sign = most_significant_bit int_result;
               let abs_int_result = (if new_sign then Negate int_result else int_result);
               (result, s) \<leftarrow> (if int_result = 0 then Some (FPInfo_Zero i sign, s)
                 else FPRound i \<lparr>fp_sign = new_sign, fp_exponent = int normalized_point_position,
                                  fp_mantissa = abs_int_result\<rparr> c TowardsZero s);
               s \<leftarrow> (if error \<noteq> RE_Zero \<and> exact then FPProcessException Inexact c s else Some s);
               Some (ucast result, s)
             }
   }"

text \<open>
  Conversion to fixed point.  \<open>ibits\<close> is a \<^verbatim>\<open>size_t\<close>, so that \<^verbatim>\<open>ibits - 1\<close> wraps around at 0:
  the mask of the positive overflow then fails the assertion of \<^const>\<open>ones_checked\<close>, and
  the shift of the negative overflow is by more than the width, which is undefined.
\<close>

definition size_t_minus :: "nat \<Rightarrow> nat \<Rightarrow> nat" where
  "size_t_minus a b = (if b \<le> a then a - b else 2 ^ 64 + a - b)"

definition shift_one :: "nat \<Rightarrow> u64 option" where
  "shift_one n = (if n < 64 then Some (push_bit n 1) else None)"

definition FPToFixed_result :: "nat \<Rightarrow> FPCR \<Rightarrow> ResidualError \<Rightarrow> u64 \<Rightarrow> FPSR \<Rightarrow> (u64 \<times> FPSR) option" where
  "FPToFixed_result ibits c error int_result s = do {
     s \<leftarrow> (if error \<noteq> RE_Zero then FPProcessException Inexact c s else Some s);
     field \<leftarrow> ones_checked ibits;
     Some (int_result AND field, s)
   }"

definition FPToFixed :: "'a::len word fp_info \<Rightarrow> nat \<Rightarrow> 'a word \<Rightarrow> nat \<Rightarrow> bool \<Rightarrow> FPCR \<Rightarrow> RoundingMode \<Rightarrow> FPSR
    \<Rightarrow> (u64 \<times> FPSR) option" where
  "FPToFixed i ibits op fbits unsgn c rounding s = do {
     assert_opt (rounding \<noteq> ToOdd);
     assert_opt (ibits \<le> 64);
     assert_opt (fbits \<le> ibits);
     ((type, sign, v), s) \<leftarrow> FPUnpack i op c s;
     s \<leftarrow> (if type = SNaN \<or> type = QNaN then FPProcessException InvalidOp c s else Some s);
     if fp_mantissa v = 0 then Some (0, s)
     else if sign \<and> unsgn then do { s \<leftarrow> FPProcessException InvalidOp c s; Some (0, s) }
     else do {
       let expo = fp_exponent v + int fbits - int normalized_point_position;
       let int_result = (if sign then Negate (fp_mantissa v) else fp_mantissa v);
       let error = ResidualErrorOnRightShift int_result (- expo);
       let int_result = ArithmeticShiftLeft int_result expo;
       round_up \<leftarrow> int_round_up rounding error int_result;
       let int_result = (if round_up then int_result + 1 else int_result);
       let min_exponent_for_overflow =
         int ibits - highest_set_bit (fp_mantissa v + (if round_up then LogicalShiftRight 1 expo else 0))
           - (if unsgn then 0 else 1);
       if expo \<ge> min_exponent_for_overflow
       then (if unsgn \<or> \<not> sign
             then do {
               s \<leftarrow> FPProcessException InvalidOp c s;
               field \<leftarrow> ones_checked (size_t_minus ibits (if unsgn then 0 else 1));
               Some (field, s)
             }
             else do {
               top \<leftarrow> shift_one (size_t_minus ibits 1);
               let min_value = Negate top;
               if \<not> (expo = min_exponent_for_overflow \<and> int_result = min_value)
               then do { s \<leftarrow> FPProcessException InvalidOp c s; Some (top, s) }
               else FPToFixed_result ibits c error int_result s
             })
       else FPToFixed_result ibits c error int_result s
     }
   }"

section \<open>Residual errors\<close>

definition residual_of :: "int \<Rightarrow> int \<Rightarrow> ResidualError" where
  "residual_of e q = (if e = 0 then RE_Zero else if 2 * e < q then RE_LessThanHalf
     else if 2 * e = q then RE_Half else RE_GreaterThanHalf)"

lemma sint_mod_uint: "n \<le> 64 \<Longrightarrow> sint (m :: u64) mod 2 ^ n = uint (m AND ones n)"
proof -
  assume n: "n \<le> 64"
  have "uint (m AND ones n) = take_bit n (uint m)"
    using n by (simp add: ones_eq_mask take_bit_eq_mask [symmetric] unsigned_take_bit_eq)
  also have "\<dots> = take_bit n (sint m)"
    using n by (simp add: sint_uint take_bit_signed_take_bit)
  finally show ?thesis by (simp add: take_bit_eq_mod)
qed

lemma sint_bounds_64: "- (2 ^ 63) \<le> sint (m :: u64)" "sint (m :: u64) < 2 ^ 63"
  using sint_ge [of m] sint_lt [of m] by simp_all

lemma ResidualErrorOnRightShift_residual:
  assumes "0 < n"
  shows "ResidualErrorOnRightShift m n = residual_of (sint m mod 2 ^ nat n) (2 ^ nat n)"
proof (cases "64 < n")
  case True
  have q: "(2 :: int) ^ 65 \<le> 2 ^ nat n" using True by (intro power_increasing) auto
  show ?thesis
  proof (cases "sint m < 0")
    case neg: True
    have "sint m mod 2 ^ nat n = (sint m + 2 ^ nat n) mod 2 ^ nat n" by simp
    also have "\<dots> = sint m + 2 ^ nat n"
      using neg q sint_bounds_64 [of m] by (intro mod_pos_pos_trivial) simp_all
    finally show ?thesis
      using neg q sint_bounds_64 [of m] True
      by (auto simp: ResidualErrorOnRightShift_def residual_of_def most_significant_bit_sint signed_eq_0_iff)
  next
    case pos: False
    have "sint m mod 2 ^ nat n = sint m"
      using pos q sint_bounds_64 [of m] by (intro mod_pos_pos_trivial) simp_all
    then show ?thesis
      using pos q sint_bounds_64 [of m] True
      by (auto simp: ResidualErrorOnRightShift_def residual_of_def most_significant_bit_sint signed_eq_0_iff)
  qed
next
  case False
  let ?e = "m AND ones (nat n)" and ?h = "push_bit (nat (n - 1)) 1 :: u64"
  have e: "sint m mod 2 ^ nat n = uint ?e" using False by (intro sint_mod_uint) simp
  have s: "nat n = Suc (nat (n - 1))" using assms by simp
  have h: "uint ?h = 2 ^ nat (n - 1)"
  proof -
    have j: "nat (n - 1) < 64" using False by simp
    show ?thesis
      by (rule bit_eqI) (use j in \<open>auto simp: bit_uint_iff bit_push_bit_iff bit_exp_iff bit_1_iff\<close>)
  qed
  have "?e < x \<longleftrightarrow> 2 * uint ?e < 2 ^ nat n" "?e = x \<longleftrightarrow> 2 * uint ?e = 2 ^ nat n" "?e = 0 \<longleftrightarrow> uint ?e = 0"
    if "uint x = 2 ^ nat (n - 1)" for x :: u64
    unfolding s word_less_def word_uint_eq_iff that by auto
  note this [OF h]
  then show ?thesis
    using False assms e by (auto simp: ResidualErrorOnRightShift_def residual_of_def Let_def)
qed

text \<open>
  C22. The residual error of a right shift classifies the fraction that an arithmetic
  shift drops, for every mantissa read as a signed number and every positive shift
  amount, those beyond the width of the mantissa included.
\<close>

theorem ResidualErrorOnRightShift_spec:
  assumes "0 < n"
  shows "ResidualErrorOnRightShift m n =
     (let e = sint m mod 2 ^ nat n; q = 2 ^ nat n
      in if e = 0 then RE_Zero else if 2 * e < q then RE_LessThanHalf
         else if 2 * e = q then RE_Half else RE_GreaterThanHalf)"
  using ResidualErrorOnRightShift_residual [OF assms] by (simp add: residual_of_def Let_def)

theorem ResidualErrorOnRightShift_spec_witness:
  "ResidualErrorOnRightShift 0xC 3 = RE_Half \<and> ResidualErrorOnRightShift 0x8000000000000000 65 = RE_GreaterThanHalf"
  using ResidualErrorOnRightShift_spec [of 3 "0xC"] ResidualErrorOnRightShift_spec [of 65 "0x8000000000000000"]
  by (simp add: Let_def)

section \<open>Rounding a shifted integer\<close>

lemma floor_bounds:
  fixes v q :: int
  assumes "0 < q"
  shows "v = q * (v div q) + v mod q" "0 \<le> v mod q" "v mod q < q" "v div q < 0 \<longleftrightarrow> v < 0"
  using assms by (simp_all add: pos_mod_bound pos_imp_zdiv_neg_iff)

text \<open>
  C23. The rounding step of the conversions to integers is the rounding the mode asks for:
  the shifted value plus one or not is the floor, the ceiling, the truncation, or the
  nearest integer with ties to even or away from zero, of the exact quotient.
\<close>

theorem int_round_up_spec:
  assumes "0 < k" "int_round_up mode (ResidualErrorOnRightShift m k) (ArithmeticShiftLeft m (- k)) = Some up"
  defines "q \<equiv> 2 ^ nat k" and "v \<equiv> sint m"
  defines "r \<equiv> sint (ArithmeticShiftLeft m (- k)) + (if up then 1 else 0)"
  shows "(mode = TowardsMinusInfinity \<longrightarrow> q * r \<le> v \<and> v < q * (r + 1))
     \<and> (mode = TowardsPlusInfinity \<longrightarrow> q * (r - 1) < v \<and> v \<le> q * r)
     \<and> (mode = TowardsZero \<longrightarrow> \<bar>q * r\<bar> \<le> \<bar>v\<bar> \<and> \<bar>v - q * r\<bar> < q)
     \<and> (mode = ToNearest_TieEven \<longrightarrow> \<bar>2 * (v - q * r)\<bar> \<le> q \<and> (\<bar>2 * (v - q * r)\<bar> = q \<longrightarrow> even r))
     \<and> (mode = ToNearest_TieAwayFromZero \<longrightarrow> \<bar>2 * (v - q * r)\<bar> \<le> q \<and> (\<bar>2 * (v - q * r)\<bar> = q \<longrightarrow> \<bar>v\<bar> \<le> \<bar>q * r\<bar>))
     \<and> mode \<noteq> ToOdd"
proof -
  let ?w = "ArithmeticShiftLeft m (- k)"
  define f e where "f = v div q" and "e = v mod q"
  have q: "0 < q" by (simp add: q_def)
  have w: "?w = ArithmeticShiftRight m k" using assms(1) by (simp add: ArithmeticShiftLeft_neg)
  have f: "sint ?w = f" unfolding w f_def v_def q_def using sint_ArithmeticShiftRight [of k m] assms(1) by simp
  have err: "ResidualErrorOnRightShift m k = residual_of e q"
    unfolding e_def v_def q_def by (rule ResidualErrorOnRightShift_residual [OF assms(1)])
  have fe: "v = q * f + e" "0 \<le> e" "e < q" "f < 0 \<longleftrightarrow> v < 0" using floor_bounds [OF q, of v] by (simp_all add: f_def e_def)
  have msb: "most_significant_bit ?w \<longleftrightarrow> f < 0" using most_significant_bit_sint [of ?w] f by simp
  have odd: "get_bit 0 ?w \<longleftrightarrow> odd f"
  proof -
    have "get_bit 0 ?w \<longleftrightarrow> bit (sint ?w) 0" by (simp add: get_bit_iff_bit bit_sint_iff)
    then show ?thesis by (simp add: f bit_0)
  qed
  have r: "r = f + (if up then 1 else 0)" by (simp add: r_def f)
  have qr: "q * r = q * f + (if up then q else 0)" unfolding r by (simp add: distrib_left)
  have neg: "v < 0 \<Longrightarrow> q * f \<le> - q" using fe(4) q mult_left_mono [of f "- 1" q] by simp
  have nonneg: "\<not> v < 0 \<Longrightarrow> 0 \<le> q * f" using fe(4) q by simp
  show ?thesis
    using assms(2) fe neg nonneg q qr unfolding err
    by (cases mode) (auto simp: int_round_up_def residual_of_def msb odd distrib_left right_diff_distrib r split: if_splits)
qed

lemma int_round_up_example:
  "ArithmeticShiftLeft (0xA :: u64) (- 2) = 2" "ResidualErrorOnRightShift 0xA 2 = RE_Half"
  by code_simp+

theorem int_round_up_spec_witness:
  "int_round_up ToNearest_TieEven (ResidualErrorOnRightShift 0xA 2) (ArithmeticShiftLeft 0xA (- 2)) = Some False
     \<and> \<bar>2 * (sint (0xA :: u64) - 4 * sint (2 :: u64))\<bar> \<le> 4"
  using int_round_up_spec [of 2 ToNearest_TieEven "0xA" False]
  by (simp add: int_round_up_example int_round_up_def get_bit_iff_bit)

section \<open>Cumulative flags\<close>

text \<open>The cumulative flags are sticky: a computation can only add to them.\<close>

definition sticky :: "FPSR \<Rightarrow> FPSR \<Rightarrow> bool" where
  "sticky s s' \<longleftrightarrow> (\<forall>n. bit s n \<longrightarrow> bit s' n)"

definition adds_flags :: "FPSR \<Rightarrow> ('a \<times> FPSR) option \<Rightarrow> bool" where
  "adds_flags s m \<longleftrightarrow> (\<forall>v s'. m = Some (v, s') \<longrightarrow> sticky s s')"

lemma sticky_refl [simp]: "sticky s s"
  by (simp add: sticky_def)

lemma sticky_trans: "sticky s t \<Longrightarrow> sticky t u \<Longrightarrow> sticky s u"
  by (simp add: sticky_def)

lemma sticky_flags:
  "sticky s t \<Longrightarrow> sticky s (FPSR_set_IOC t True)" "sticky s t \<Longrightarrow> sticky s (FPSR_set_DZC t True)"
  "sticky s t \<Longrightarrow> sticky s (FPSR_set_OFC t True)" "sticky s t \<Longrightarrow> sticky s (FPSR_set_UFC t True)"
  "sticky s t \<Longrightarrow> sticky s (FPSR_set_IXC t True)" "sticky s t \<Longrightarrow> sticky s (FPSR_set_IDC t True)"
  by (simp_all add: sticky_def FPSR_flag_bits)

lemma adds_Some: "sticky s t \<Longrightarrow> adds_flags s (Some (v, t))"
  by (simp add: adds_flags_def)

lemma adds_None: "adds_flags s None"
  by (simp add: adds_flags_def)

lemma adds_if: "(b \<Longrightarrow> adds_flags s x) \<Longrightarrow> (\<not> b \<Longrightarrow> adds_flags s y) \<Longrightarrow> adds_flags s (if b then x else y)"
  by simp

lemma adds_let: "(\<And>y. adds_flags s (f y)) \<Longrightarrow> adds_flags s (Let x f)"
  by (simp add: Let_def)

lemma adds_prod: "(\<And>a b. adds_flags s (f a b)) \<Longrightarrow> adds_flags s (case p of (a, b) \<Rightarrow> f a b)"
  by (cases p) simp

lemma adds_option:
  "adds_flags s x \<Longrightarrow> (\<And>v. adds_flags s (f v)) \<Longrightarrow> adds_flags s (case z of None \<Rightarrow> x | Some v \<Rightarrow> f v)"
  by (cases z) simp_all

lemma adds_map: "adds_flags s m \<Longrightarrow> adds_flags s (map_option (\<lambda>(v, t). (g v, t)) m)"
  by (auto simp: adds_flags_def)

lemma adds_map_const: "sticky s t \<Longrightarrow> adds_flags s (map_option (\<lambda>v. (v, t)) m)"
  by (auto simp: adds_flags_def)

lemma adds_assert: "adds_flags s (f ()) \<Longrightarrow> adds_flags s (Option.bind (assert_opt b) f)"
  by (simp add: adds_flags_def)

lemma adds_bind_any: "(\<And>x. adds_flags s (f x)) \<Longrightarrow> adds_flags s (Option.bind m f)"
  by (cases m) (simp_all add: adds_flags_def)

lemma adds_exception:
  assumes "sticky s t" "\<And>t'. sticky s t' \<Longrightarrow> adds_flags s (f t')"
  shows "adds_flags s (Option.bind (FPProcessException e c t) f)"
  using assms by (cases e) (auto simp: sticky_flags adds_None)

lemma adds_exception_if:
  assumes "sticky s t" "\<And>t'. sticky s t' \<Longrightarrow> adds_flags s (f t')"
  shows "adds_flags s (Option.bind (if b then FPProcessException e c t else Some t) f)"
  using assms adds_exception [OF assms] by simp

lemma adds_bind:
  assumes "adds_flags s m" "\<And>x t'. sticky s t' \<Longrightarrow> adds_flags s (f (x, t'))"
  shows "adds_flags s (Option.bind m f)"
  using assms by (cases m) (auto simp: adds_flags_def)

lemmas adds_rules = adds_Some adds_None adds_exception adds_exception_if adds_if adds_let adds_prod adds_option adds_assert
  sticky_flags adds_map_const adds_map

lemma FPProcessNaN_adds: "sticky s t \<Longrightarrow> adds_flags s (FPProcessNaN i ty op c t)"
  unfolding FPProcessNaN_def Let_def
  by (rule adds_assert, rule adds_bind) (auto intro!: adds_rules)

lemma map_nan_adds: "adds_flags s m \<Longrightarrow> adds_flags s (map_nan m)"
  unfolding map_nan_def by (auto simp: adds_flags_def)

lemma FPProcessNaNs_adds: "sticky s t \<Longrightarrow> adds_flags s (FPProcessNaNs i t1 t2 a b c t)"
  unfolding FPProcessNaNs_def by (auto intro!: adds_rules map_nan_adds FPProcessNaN_adds)

lemma FPProcessNaNs3_adds: "sticky s t \<Longrightarrow> adds_flags s (FPProcessNaNs3 i t1 t2 t3 a b d c t)"
  unfolding FPProcessNaNs3_def by (auto intro!: adds_rules map_nan_adds FPProcessNaN_adds)

lemma FPUnpackBase_adds: "sticky s t \<Longrightarrow> adds_flags s (FPUnpackBase i op c t)"
  unfolding FPUnpackBase_def by (intro adds_rules) (simp_all)

lemma FPUnpack_adds: "sticky s t \<Longrightarrow> adds_flags s (FPUnpack i op c t)" "sticky s t \<Longrightarrow> adds_flags s (FPUnpackCV i op c t)"
  unfolding FPUnpack_def FPUnpackCV_def by (rule FPUnpackBase_adds; simp)+

lemma FPRoundBase_adds: "sticky s t \<Longrightarrow> adds_flags s (FPRoundBase i op c m t)"
  unfolding FPRoundBase_def by (intro adds_rules) (simp_all)

lemma FPRound_adds:
  "sticky s t \<Longrightarrow> adds_flags s (FPRound i op c m t)" "sticky s t \<Longrightarrow> adds_flags s (FPRoundCV i op c m t)"
  "sticky s t \<Longrightarrow> adds_flags s (FPRound_default i op c t)"
  unfolding FPRound_default_def FPRound_def FPRoundCV_def by (rule FPRoundBase_adds; simp)+

lemma adds_bind2:
  assumes "adds_flags s m" "\<And>x t. sticky s t \<Longrightarrow> adds_flags s (g x t)"
  shows "adds_flags s (Option.bind m (\<lambda>(x, t). g x t))"
  by (rule adds_bind [OF assms(1)]) (simp add: assms(2))

lemma adds_bind4:
  assumes "adds_flags s m" "\<And>a b v t. sticky s t \<Longrightarrow> adds_flags s (g a b v t)"
  shows "adds_flags s (Option.bind m (\<lambda>((a, b, v), t). g a b v t))"
  by (rule adds_bind [OF assms(1)]) (auto simp: assms(2) split: prod.split)

lemmas adds_op_rules = adds_rules adds_bind4 adds_bind2 FPUnpack_adds FPRound_adds FPProcessNaN_adds FPProcessNaNs_adds
  FPProcessNaNs3_adds

lemma adds_case_mode:
  "adds_flags s (f b1) \<Longrightarrow> adds_flags s (f b2) \<Longrightarrow> adds_flags s (f b3) \<Longrightarrow> adds_flags s (f b4) \<Longrightarrow>
   adds_flags s (Option.bind (case m of ToNearest_TieEven \<Rightarrow> Some b1 | TowardsPlusInfinity \<Rightarrow> Some b2
      | TowardsMinusInfinity \<Rightarrow> Some b3 | TowardsZero \<Rightarrow> Some b4 | ToNearest_TieAwayFromZero \<Rightarrow> None | ToOdd \<Rightarrow> None) f)"
  by (cases m) (simp_all add: adds_None)

text \<open>
  C25. The cumulative exception flags are sticky: whatever floating point operation is
  executed, on whatever operands, control bits and previous status, a flag that was set
  stays set.
\<close>

theorem fp_operations_sticky:
  fixes i :: "'a::len word fp_info" and j :: "'b::len word fp_info"
  shows "adds_flags s (FPCompareEQ i a b c s) \<and> adds_flags s (FPConvert i j d c m s)
    \<and> adds_flags s (FPMulAdd i a b e c s) \<and> adds_flags s (FPMulSub i a b e c s)
    \<and> adds_flags s (FPRSqrtEstimate i a c s) \<and> adds_flags s (FPRSqrtStepFused i a b c s)
    \<and> adds_flags s (FPRecipEstimate i a c s) \<and> adds_flags s (FPRecipExponent i a c s)
    \<and> adds_flags s (FPRecipStepFused i a b c s)
    \<and> adds_flags s (FPRoundInt i a c m exact s) \<and> adds_flags s (FPToFixed i ib a fb u c m s)"
proof (intro conjI)
  show "adds_flags s (FPCompareEQ i a b c s)" unfolding FPCompareEQ_def by (intro adds_op_rules) simp_all
  show "adds_flags s (FPConvert i j d c m s)" unfolding FPConvert_def by (intro adds_op_rules) simp_all
  show "adds_flags s (FPMulAdd i a b e c s)" unfolding FPMulAdd_def by (intro adds_op_rules) simp_all
  show "adds_flags s (FPMulSub i a b e c s)" unfolding FPMulSub_def FPMulAdd_def by (intro adds_op_rules) simp_all
  show "adds_flags s (FPRSqrtEstimate i a c s)" unfolding FPRSqrtEstimate_def by (intro adds_op_rules) simp_all
  show "adds_flags s (FPRSqrtStepFused i a b c s)" unfolding FPRSqrtStepFused_def by (intro adds_op_rules) simp_all
  show "adds_flags s (FPRecipEstimate i a c s)"
    unfolding FPRecipEstimate_def by (intro adds_op_rules adds_case_mode adds_bind_any) simp_all
  show "adds_flags s (FPRecipExponent i a c s)" unfolding FPRecipExponent_def by (intro adds_op_rules) simp_all
  show "adds_flags s (FPRecipStepFused i a b c s)" unfolding FPRecipStepFused_def by (intro adds_op_rules) simp_all
  show "adds_flags s (FPRoundInt i a c m exact s)"
    unfolding FPRoundInt_def by (intro adds_op_rules adds_bind_any) simp_all
  show "adds_flags s (FPToFixed i ib a fb u c m s)"
    unfolding FPToFixed_def FPToFixed_result_def by (intro adds_op_rules adds_bind_any) simp_all
qed

section \<open>No assertion fails while traps are disabled\<close>

definition traps_off :: "FPCR \<Rightarrow> bool" where
  "traps_off c \<longleftrightarrow> \<not> FPCR_IOE c \<and> \<not> FPCR_DZE c \<and> \<not> FPCR_OFE c \<and> \<not> FPCR_UFE c \<and> \<not> FPCR_IXE c \<and> \<not> FPCR_IDE c"

lemma traps_off_set [simp]:
  "traps_off (FPCR_set_AHP c b) = traps_off c" "traps_off (FPCR_set_FZ16 c b) = traps_off c"
  by (simp_all add: traps_off_def FPCR_flag_bits)

definition defined :: "'a option \<Rightarrow> bool" where
  "defined m \<longleftrightarrow> m \<noteq> None"

lemma defined_Some: "defined (Some x)"
  by (simp add: defined_def)

lemma defined_if: "(b \<Longrightarrow> defined x) \<Longrightarrow> (\<not> b \<Longrightarrow> defined y) \<Longrightarrow> defined (if b then x else y)"
  by simp

lemma defined_let: "(\<And>y. defined (f y)) \<Longrightarrow> defined (Let x f)"
  by (simp add: Let_def)

lemma defined_prod: "(\<And>a b. p = (a, b) \<Longrightarrow> defined (f a b)) \<Longrightarrow> defined (case p of (a, b) \<Rightarrow> f a b)"
  by (cases p) simp

lemma defined_option:
  "defined x \<Longrightarrow> (\<And>v. z = Some v \<Longrightarrow> defined (f v)) \<Longrightarrow> defined (case z of None \<Rightarrow> x | Some v \<Rightarrow> f v)"
  by (cases z) simp_all

lemma defined_bind: "defined m \<Longrightarrow> (\<And>x. m = Some x \<Longrightarrow> defined (f x)) \<Longrightarrow> defined (Option.bind m f)"
  by (cases m) (simp_all add: defined_def)

lemma defined_bind4:
  "defined m \<Longrightarrow> (\<And>a b v t. m = Some ((a, b, v), t) \<Longrightarrow> defined (g a b v t))
    \<Longrightarrow> defined (Option.bind m (\<lambda>((a, b, v), t). g a b v t))"
  by (cases m) (auto simp: defined_def)

lemma defined_assert: "b \<Longrightarrow> defined (assert_opt b)"
  by (simp add: defined_def)

lemma defined_map: "defined m \<Longrightarrow> defined (map_option f m)"
  by (cases m) (simp_all add: defined_def)

lemma defined_exception: "traps_off c \<Longrightarrow> defined (FPProcessException e c s)"
  by (cases e) (simp_all add: defined_def traps_off_def)

lemmas defined_rules = defined_Some defined_if defined_let defined_bind4 defined_prod defined_option defined_bind defined_assert
  defined_map defined_exception

lemma defined_ProcessNaN: "traps_off c \<Longrightarrow> ty = QNaN \<or> ty = SNaN \<Longrightarrow> defined (FPProcessNaN i ty op c s)"
  unfolding FPProcessNaN_def by (intro defined_rules) simp_all

lemma defined_ProcessNaNs:
  "traps_off c \<Longrightarrow> defined (FPProcessNaNs i t1 t2 a b c s)" "traps_off c \<Longrightarrow> defined (FPProcessNaNs3 i t1 t2 t3 a b d c s)"
  unfolding FPProcessNaNs_def FPProcessNaNs3_def map_nan_def
  by (intro defined_rules defined_ProcessNaN; simp)+

lemma defined_UnpackBase: "traps_off c \<Longrightarrow> defined (FPUnpackBase i op c s)"
  unfolding FPUnpackBase_def by (intro defined_rules) simp_all

lemma defined_Unpack: "traps_off c \<Longrightarrow> defined (FPUnpack i op c s)" "traps_off c \<Longrightarrow> defined (FPUnpackCV i op c s)"
  unfolding FPUnpack_def FPUnpackCV_def by (simp_all add: defined_UnpackBase)

lemma defined_RoundBase:
  "traps_off c \<Longrightarrow> fp_mantissa op \<noteq> 0 \<Longrightarrow> m \<noteq> ToNearest_TieAwayFromZero \<Longrightarrow> defined (FPRoundBase i op c m s)"
  unfolding FPRoundBase_def by (intro defined_rules) simp_all

lemma RMode_cases: "FPCR_RMode c \<noteq> ToNearest_TieAwayFromZero" "FPCR_RMode c \<noteq> ToOdd"
  by (simp_all add: FPCR_RMode_def RoundingMode_of_bits_def)

lemma defined_Round:
  "traps_off c \<Longrightarrow> fp_mantissa op \<noteq> 0 \<Longrightarrow> m \<noteq> ToNearest_TieAwayFromZero \<Longrightarrow> defined (FPRound i op c m s)"
  "traps_off c \<Longrightarrow> fp_mantissa op \<noteq> 0 \<Longrightarrow> defined (FPRound_default i op c s)"
  unfolding FPRound_default_def FPRound_def by (simp_all add: defined_RoundBase RMode_cases)

lemma defined_round_up: "m \<noteq> ToOdd \<Longrightarrow> defined (int_round_up m e v)"
  by (cases m) (simp_all add: int_round_up_def defined_def)

lemmas defined_op_rules = defined_rules defined_ProcessNaN defined_ProcessNaNs defined_Unpack defined_Round defined_round_up

text \<open>
  What the operations rely on in the constants of a format, and what unpacking a number
  other than zero gives: a mantissa whose leading one is at the normalized point position.
\<close>

definition fp_format :: "'a::len word fp_info \<Rightarrow> bool" where
  "fp_format i \<longleftrightarrow> 0 < exponent_width i \<and> exponent_width i + explicit_mantissa_width i < LENGTH('a)
     \<and> 8 \<le> explicit_mantissa_width i \<and> explicit_mantissa_width i \<le> 62
     \<and> implicit_leading_bit i = push_bit (explicit_mantissa_width i) 1
     \<and> exponent_max i = 2 ^ exponent_width i - 2 - exponent_bias i
     \<and> exponent_min i = 1 - exponent_max i \<and> 1 \<le> exponent_max i"

definition normalized :: "FPUnpacked \<Rightarrow> bool" where
  "normalized v \<longleftrightarrow> 2 ^ 62 \<le> unat (fp_mantissa v) \<and> unat (fp_mantissa v) < 2 ^ 63"

lemma fp_formats: "fp_format FPInfo16" "fp_format FPInfo32" "fp_format FPInfo64"
  by (simp_all add: fp_format_def FPInfo16_def FPInfo32_def FPInfo64_def)

lemma push_to_62:
  fixes w :: u64
  assumes "2 ^ h \<le> unat w" "unat w < 2 ^ Suc h" "h \<le> 62"
  shows "2 ^ 62 \<le> unat (push_bit (62 - h) w)" "unat (push_bit (62 - h) w) < 2 ^ 63"
proof -
  have p: "(2::nat) ^ 62 = 2 ^ (62 - h) * 2 ^ h" "(2::nat) ^ 63 = 2 ^ (62 - h) * 2 ^ Suc h"
    using assms(3) by (simp_all flip: power_add)
  have lt: "unat w * 2 ^ (62 - h) < 2 ^ 63" and ge: "2 ^ 62 \<le> unat w * 2 ^ (62 - h)"
    using assms(1,2) unfolding p by (simp_all add: mult.commute del: power_Suc)
  have "unat (push_bit (62 - h) w) = unat w * 2 ^ (62 - h)"
    unfolding unsigned_push_bit_eq using lt by (subst take_bit_nat_eq_self) (simp_all add: push_bit_eq_mult)
  with lt ge show "2 ^ 62 \<le> unat (push_bit (62 - h) w)" "unat (push_bit (62 - h) w) < 2 ^ 63" by simp_all
qed

lemma normalized_ToNormalized:
  assumes "w \<noteq> 0" "unat w < 2 ^ F" "F \<le> 62"
  shows "normalized (ToNormalized sg e w)" "fp_exponent (ToNormalized sg e w) < e + int F"
proof -
  note h = highest_set_bit_spec [OF assms(1)]
  have "(2::nat) ^ nat (highest_set_bit w) < 2 ^ F" using h(3) assms(2) by (rule le_less_trans)
  then have l: "nat (highest_set_bit w) < F" by simp
  have n: "nat (62 - highest_set_bit w) = 62 - nat (highest_set_bit w)" using h(1) by linarith
  show "normalized (ToNormalized sg e w)"
    using push_to_62 [OF h(3,4)] l assms(3)
    by (simp add: assms(1) normalized_def ToNormalized_def Let_def normalized_point_position_def n)
  show "fp_exponent (ToNormalized sg e w) < e + int F"
    using l h(1) by (simp add: assms(1) ToNormalized_def Let_def normalized_point_position_def)
qed

lemma normalized_implicit:
  fixes x :: "'a::len word"
  assumes "\<And>n. bit x n \<Longrightarrow> n < F" "F < LENGTH('a)" "F \<le> 62"
  shows "2 ^ 62 \<le> unat (push_bit (62 - F) (ucast (x OR push_bit F 1) :: u64))"
    "unat (push_bit (62 - F) (ucast (x OR push_bit F 1) :: u64)) < 2 ^ 63"
proof -
  let ?w = "ucast (x OR push_bit F 1) :: u64"
  have "drop_bit F ?w = 1"
    by (rule bit_word_eqI) (use assms in \<open>auto simp: bit_drop_bit_eq bit_unsigned_iff bit_or_iff bit_exp_iff bit_1_iff\<close>)
  then have "unat (drop_bit F ?w) = 1" by simp
  then have d: "unat ?w div 2 ^ F = 1" unfolding unat_drop_bit_eq by (simp only: drop_bit_eq_div)
  have "2 ^ F \<le> unat ?w" using d by (metis div_less not_le zero_neq_one)
  moreover have "unat ?w mod 2 ^ F < 2 ^ F" by simp
  then have "unat ?w < 2 ^ Suc F" using div_mult_mod_eq [of "unat ?w" "2 ^ F"] unfolding d power_Suc by linarith
  ultimately
  show "2 ^ 62 \<le> unat (push_bit (62 - F) ?w)" "unat (push_bit (62 - F) ?w) < 2 ^ 63"
    by (rule push_to_62 [OF _ _ assms(3)])+
qed

lemma FPUnpackBase_nonzero:
  fixes i :: "'a::len word fp_info"
  assumes "fp_format i" "FPUnpackBase i op c s = Some ((FPNonzero, sg, v), t)"
  shows "normalized v" "\<not> FPCR_AHP c \<Longrightarrow> fp_exponent v \<le> exponent_max i"
proof -
  define F E where "F = explicit_mantissa_width i" and "E = exponent_width i"
  define frac expo where "frac = get_bits 0 (F - 1) op" and "expo = get_bits F (E + F - 1) op"
  have f: "0 < E" "E + F < LENGTH('a)" "8 \<le> F" "F \<le> 62" "implicit_leading_bit i = push_bit F 1"
    "exponent_max i = 2 ^ E - 2 - exponent_bias i" "exponent_min i = 1 - exponent_max i" "1 \<le> exponent_max i"
    using assms(1) by (simp_all add: fp_format_def F_def E_def)
  have frac: "bit frac n \<Longrightarrow> n < F" and expo: "bit expo n \<Longrightarrow> n < E" for n
    using f(1-3) by (auto simp: frac_def expo_def bit_get_bits)
  have u: "unat x < 2 ^ k" if "\<And>n. bit x n \<Longrightarrow> n < k" for x :: "'b::len word" and k
  proof -
    have "take_bit k x = x" by (rule bit_word_eqI) (auto simp: bit_take_bit_iff dest: that)
    then show ?thesis by (metis take_bit_nat_less_exp unsigned_take_bit_eq)
  qed
  have uc: "unat (ucast frac :: u64) < 2 ^ F" by (rule u) (auto simp: bit_unsigned_iff dest: frac)
  have nz: "(ucast frac :: u64) \<noteq> 0" if "frac \<noteq> 0"
  proof -
    obtain n where "bit frac n" using \<open>frac \<noteq> 0\<close> by (auto simp: word_eq_0_bits)
    then have "bit (ucast frac :: u64) n" using frac [of n] f(4) by (simp add: bit_unsigned_iff)
    then show ?thesis by auto
  qed
  consider (denormal) "frac \<noteq> 0" "v = ToNormalized sg (exponent_min i - int F) (ucast frac)"
    | (normal) "fp_exponent v = int (unat expo) - exponent_bias i" "FPCR_AHP c \<or> expo \<noteq> ones E"
       "fp_mantissa v = push_bit (62 - F) (ucast (frac OR push_bit F 1))"
    using assms(2) unfolding FPUnpackBase_def Let_def F_def [symmetric] E_def [symmetric] frac_def [symmetric] expo_def [symmetric] f(5)
    by (auto split: if_splits bind_splits simp: normalized_point_position_def)
  then have "normalized v \<and> (\<not> FPCR_AHP c \<longrightarrow> fp_exponent v \<le> exponent_max i)"
  proof cases
    case denormal
    then show ?thesis using normalized_ToNormalized [of "ucast frac" F sg "exponent_min i - int F"] uc nz f(4,7,8) by auto
  next
    case normal
    have "int (unat expo) \<le> 2 ^ E - 2" if "\<not> FPCR_AHP c"
    proof -
      have "expo = mask E" if "unat expo = 2 ^ E - 1"
      proof -
        have "expo = of_nat (unat expo)" by simp
        also have "\<dots> = of_nat (mask E)" using that by (simp only: mask_eq_exp_minus_1)
        finally show ?thesis by (simp add: of_nat_mask_eq)
      qed
      then have "unat expo \<noteq> 2 ^ E - 1" using normal(2) that f(2) by (auto simp: ones_eq_mask)
      then have "unat expo + 2 \<le> 2 ^ E" using u [of expo E, OF expo] by linarith
      then have "int (unat expo + 2) \<le> int (2 ^ E)" by (simp only: of_nat_le_iff)
      then show ?thesis by simp
    qed
    then show ?thesis using normalized_implicit [of frac F] frac f normal by (auto simp: normalized_def)
  qed
  then show "normalized v" "\<not> FPCR_AHP c \<Longrightarrow> fp_exponent v \<le> exponent_max i" by auto
qed

lemma FPUnpack_nonzero:
  assumes "fp_format i" "FPUnpack i op c s = Some ((FPNonzero, sg, v), t)"
  shows "normalized v" "fp_exponent v \<le> exponent_max i"
  using FPUnpackBase_nonzero [OF assms(1), of op "FPCR_set_AHP c False"] assms(2)
  by (simp_all add: FPUnpack_def FPCR_flag_bits)

lemma normalized_nonzero: "normalized v \<Longrightarrow> fp_mantissa v \<noteq> 0"
  by (auto simp: normalized_def)

lemma defined_RecipEstimate_table:
  assumes "normalized v"
  shows "defined (RecipEstimate (drop_bit (normalized_point_position - 8) (fp_mantissa v)))"
proof -
  define x where "x = drop_bit 54 (fp_mantissa v)"
  have "unat x = unat (fp_mantissa v) div 2 ^ 54" unfolding x_def unat_drop_bit_eq by (simp only: drop_bit_eq_div)
  then have "256 \<le> unat x" "unat x < 512"
    using assms div_le_mono [of "2 ^ 62" "unat (fp_mantissa v)" "2 ^ 54"] less_mult_imp_div_less [of "unat (fp_mantissa v)" 512 "2 ^ 54"]
    unfolding normalized_def by simp_all
  then have "unat (x - 256) < 256" by (simp add: unat_sub word_le_nat_alt)
  then show ?thesis by (simp add: RecipEstimate_def normalized_point_position_def defined_def x_def)
qed

lemma defined_FPValue:
  fixes i :: "'a::len word fp_info"
  assumes "fp_format i"
  shows "defined (FPValue i False 0 2)" "defined (FPValue i False (- 1) 3)"
proof -
  have l: "8 \<le> LENGTH('a)" using assms by (simp add: fp_format_def)
  have "(2::nat) ^ 8 \<le> 2 ^ LENGTH('a)" by (rule power_increasing [OF l]) simp
  then have n: "unat (2 :: 'a word) = 2" "unat (3 :: 'a word) = 3" using l by (simp_all add: unsigned_numeral take_bit_nat_eq_self)
  have "highest_set_bit (2 :: 'a word) = int 1" by (rule highest_set_bit_unique) (simp_all only: n, simp_all)
  moreover have "highest_set_bit (3 :: 'a word) = int 1" by (rule highest_set_bit_unique) (simp_all only: n, simp_all)
  moreover have "(2 :: 'a word) \<noteq> 0" "(3 :: 'a word) \<noteq> 0" using n by (metis unsigned_0 zero_neq_numeral)+
  ultimately show "defined (FPValue i False 0 2)" "defined (FPValue i False (- 1) 3)"
    using assms by (auto simp: FPValue_def Let_def defined_def fp_format_def)
qed

lemma defined_case_mode:
  "defined (case FPCR_RMode c of ToNearest_TieEven \<Rightarrow> Some b1 | TowardsPlusInfinity \<Rightarrow> Some b2
      | TowardsMinusInfinity \<Rightarrow> Some b3 | TowardsZero \<Rightarrow> Some b4 | ToNearest_TieAwayFromZero \<Rightarrow> None | ToOdd \<Rightarrow> None)"
  using RMode_cases [of c] by (cases "FPCR_RMode c") (simp_all add: defined_def)

lemma defined_step_fused:
  assumes "traps_off c" "fp_format i"
  shows "defined (FPRSqrtStepFused i a b c s)" "defined (FPRecipStepFused i a b c s)"
  unfolding FPRSqrtStepFused_def FPRecipStepFused_def
  using assms defined_FPValue [OF assms(2)] by (intro defined_op_rules; simp)+

lemma FPType_nonzero: "ty \<noteq> SNaN \<Longrightarrow> ty \<noteq> QNaN \<Longrightarrow> ty \<noteq> FPInfinity \<Longrightarrow> ty \<noteq> FPZero \<Longrightarrow> ty = FPNonzero"
  by (cases ty) simp_all

lemma defined_RecipEstimate:
  assumes "traps_off c" "fp_format i"
  shows "defined (FPRecipEstimate i a c s)"
proof -
  have m: "exponent_min i = 1 - exponent_max i" using assms(2) by (simp add: fp_format_def)
  have u: "normalized v \<and> fp_exponent v \<le> exponent_max i"
    if "FPUnpack i a c s = Some ((ty, sg, v), t)" "ty \<noteq> SNaN" "ty \<noteq> QNaN" "ty \<noteq> FPInfinity" "ty \<noteq> FPZero" for ty sg v t
    using that FPUnpack_nonzero [OF assms(2)] FPType_nonzero by metis
  show ?thesis
    unfolding FPRecipEstimate_def Let_def
    by (intro defined_op_rules defined_case_mode defined_RecipEstimate_table assms(1)) (auto simp: m dest!: u)
qed

lemma defined_Convert:
  assumes "traps_off c" "m \<noteq> ToNearest_TieAwayFromZero" "fp_format j"
  shows "defined (FPConvert i j d c m s)"
proof -
  have u: "fp_mantissa v \<noteq> 0"
    if "FPUnpackCV j d c s = Some ((ty, sg, v), t)" "ty \<noteq> SNaN" "ty \<noteq> QNaN" "ty \<noteq> FPInfinity" "ty \<noteq> FPZero" for ty sg v t
    using that FPUnpackBase_nonzero(1) [OF assms(3)] FPType_nonzero normalized_nonzero unfolding FPUnpackCV_def by metis
  show ?thesis
    unfolding FPConvert_def Let_def FPRoundCV_def
    by (intro defined_op_rules defined_RoundBase assms(2)) (auto simp: assms(1) dest: u)
qed

lemma defined_ones: "n \<le> LENGTH('a) \<Longrightarrow> defined (ones_checked n :: 'a::len word option)"
  by (simp add: ones_checked_def defined_def)

lemma defined_ToFixed:
  assumes "traps_off c" "m \<noteq> ToOdd" "ibits \<le> 64" "fbits \<le> ibits" "u \<or> 0 < ibits"
  shows "defined (FPToFixed i ibits a fbits u c m s)"
proof -
  have "size_t_minus ibits (if u then 0 else 1) \<le> 64" using assms(3,5) by (auto simp: size_t_minus_def)
  then show ?thesis
    unfolding FPToFixed_def FPToFixed_result_def shift_one_def using assms
    by (intro defined_op_rules defined_ones) (auto simp: size_t_minus_def)
qed

text \<open>
  C24. While no trap is enabled, none of the eleven operations fails an assertion, reaches
  code marked unreachable or leaves a table: each returns, for the half, single and double
  formats and for every operand and previous status.  The conversion between formats needs
  a rounding mode other than to nearest with ties away from zero, rounding to an integral
  value one other than round-to-odd; the conversion to fixed point needs the latter, at most
  64 bits of result, no more of them in the fraction, and at least one for a signed result.
\<close>

theorem fp_operations_defined:
  fixes i :: "'a::len word fp_info" and j :: "'b::len word fp_info"
  assumes "traps_off c" "fp_format i" "fp_format j"
  shows "fp_format FPInfo16 \<and> fp_format FPInfo32 \<and> fp_format FPInfo64
    \<and> defined (FPCompareEQ i a b c s) \<and> defined (FPMulAdd i a b e c s) \<and> defined (FPMulSub i a b e c s)
    \<and> defined (FPRSqrtEstimate i a c s) \<and> defined (FPRSqrtStepFused i a b c s)
    \<and> defined (FPRecipEstimate i a c s) \<and> defined (FPRecipExponent i a c s) \<and> defined (FPRecipStepFused i a b c s)
    \<and> (m \<noteq> ToNearest_TieAwayFromZero \<longrightarrow> defined (FPConvert i j d c m s))
    \<and> (m \<noteq> ToOdd \<longrightarrow> defined (FPRoundInt i a c m exact s))
    \<and> (m \<noteq> ToOdd \<longrightarrow> ibits \<le> 64 \<longrightarrow> fbits \<le> ibits \<longrightarrow> u \<or> 0 < ibits \<longrightarrow> defined (FPToFixed i ibits a fbits u c m s))"
proof (intro conjI impI)
  show "defined (FPCompareEQ i a b c s)"
    unfolding FPCompareEQ_def using assms by (intro defined_op_rules) simp_all
  show mul: "defined (FPMulAdd i a b e c s)" for b
    unfolding FPMulAdd_def using assms by (intro defined_op_rules) simp_all
  show "defined (FPMulSub i a b e c s)" unfolding FPMulSub_def by (rule mul)
  show "defined (FPRecipExponent i a c s)"
    unfolding FPRecipExponent_def using assms by (intro defined_op_rules) auto
  show "defined (FPRSqrtEstimate i a c s)"
    unfolding FPRSqrtEstimate_def using assms by (intro defined_op_rules) auto
  show "defined (FPRoundInt i a c m exact s)" if "m \<noteq> ToOdd"
    unfolding FPRoundInt_def Let_def using assms that by (intro defined_op_rules) auto
qed (simp_all add: assms fp_formats defined_step_fused defined_RecipEstimate defined_Convert defined_ToFixed)

theorem fp_operations_defined_witness:
  "defined (FPToFixed FPInfo32 32 0x3FC00000 0 False 0 ToNearest_TieEven 0)
    \<and> defined (FPConvert FPInfo32 FPInfo64 0x3FF8000000000000 0 ToNearest_TieEven 0)
    \<and> defined (FPRecipEstimate FPInfo32 0x3FC00000 0 0)"
proof -
  have "traps_off 0" by (simp add: traps_off_def FPCR_flag_bits)
  from fp_operations_defined [OF this fp_formats(2,3), of "0x3FC00000" 0 0 0 ToNearest_TieEven "0x3FF8000000000000" True 32 0 False]
  show ?thesis by simp
qed

end
