(* ===== verification/Exclusive_Monitor.thy ===== *)
theory Exclusive_Monitor
  imports Umbra_Prelude "HOL-Library.Monad_Syntax"
begin

text \<open>
  The global exclusive monitor that emulates load-exclusive and store-exclusive: its state, its
  operations with their lock, the doubly linked lists that index the reservations by address,
  and the proof that the operations return, keep the lists in step with the reservations, and
  make exclusive stores atomic.
\<close>

section \<open>The monitor (interface/exclusive_monitor.h, x64/exclusive_monitor.cpp)\<close>

text \<open>
  Processor ids and list links are values of type \<^verbatim>\<open>size_t\<close>; the greatest one marks the end of a
  list.  The sixteen saved bytes of a processor are one 128-bit little-endian word.  The
  resolver is a function of its callback and context together, and \<^const>\<open>None\<close> where no
  callback is installed.  An access outside a vector, and a second acquisition of the lock by
  its holder, is the value \<^const>\<open>None\<close>.
\<close>

type_synonym vaddr = u64

record monitor =
  lock_held :: bool
  address_resolver :: "(nat \<Rightarrow> vaddr \<Rightarrow> vaddr) option"
  exclusive_addresses :: "vaddr list"
  exclusive_values :: "128 word list"
  reservation_previous :: "nat list"
  reservation_next :: "nat list"
  reservation_heads :: "vaddr \<Rightarrow> nat option"

definition INVALID_PROCESSOR_ID :: nat where
  "INVALID_PROCESSOR_ID = 2 ^ 64 - 1"

definition RESERVATION_GRANULE_MASK :: vaddr where
  "RESERVATION_GRANULE_MASK = 0xFFFFFFFFFFFFFFFF"

definition INVALID_EXCLUSIVE_ADDRESS :: vaddr where
  "INVALID_EXCLUSIVE_ADDRESS = 0xDEADDEADDEADDEAD"

definition ExclusiveMonitor :: "nat \<Rightarrow> monitor" where
  "ExclusiveMonitor processor_count =
     \<lparr>lock_held = False, address_resolver = None,
      exclusive_addresses = replicate processor_count INVALID_EXCLUSIVE_ADDRESS,
      exclusive_values = replicate processor_count 0,
      reservation_previous = replicate processor_count INVALID_PROCESSOR_ID,
      reservation_next = replicate processor_count INVALID_PROCESSOR_ID,
      reservation_heads = (\<lambda>a. None)\<rparr>"

definition GetProcessorCount :: "monitor \<Rightarrow> nat" where
  "GetProcessorCount m = length (exclusive_addresses m)"

definition SetAddressResolver :: "(nat \<Rightarrow> vaddr \<Rightarrow> vaddr) option \<Rightarrow> monitor \<Rightarrow> monitor" where
  "SetAddressResolver resolver m = m\<lparr>address_resolver := resolver\<rparr>"

definition HasAddressResolver :: "monitor \<Rightarrow> bool" where
  "HasAddressResolver m \<longleftrightarrow> address_resolver m \<noteq> None"

definition ResolveAddress :: "monitor \<Rightarrow> nat \<Rightarrow> vaddr \<Rightarrow> vaddr" where
  "ResolveAddress m processor_id address =
     (case address_resolver m of None \<Rightarrow> address | Some resolver \<Rightarrow> resolver processor_id address)"

definition Lock :: "monitor \<Rightarrow> monitor option" where
  "Lock m = (if lock_held m then None else Some (m\<lparr>lock_held := True\<rparr>))"

definition Unlock :: "monitor \<Rightarrow> monitor" where
  "Unlock m = m\<lparr>lock_held := False\<rparr>"

definition upd_opt :: "'a list \<Rightarrow> nat \<Rightarrow> 'a \<Rightarrow> 'a list option" where
  "upd_opt xs i v = (if i < length xs then Some (xs[i := v]) else None)"

definition AddReservation :: "nat \<Rightarrow> vaddr \<Rightarrow> monitor \<Rightarrow> monitor option" where
  "AddReservation processor_id address m = do {
     previous \<leftarrow> upd_opt (reservation_previous m) processor_id INVALID_PROCESSOR_ID;
     (case reservation_heads m address of
        None \<Rightarrow> do {
          next \<leftarrow> upd_opt (reservation_next m) processor_id INVALID_PROCESSOR_ID;
          Some (m\<lparr>reservation_previous := previous, reservation_next := next,
                  reservation_heads := (reservation_heads m)(address \<mapsto> processor_id)\<rparr>) }
      | Some previous_head \<Rightarrow> do {
          next \<leftarrow> upd_opt (reservation_next m) processor_id previous_head;
          previous \<leftarrow> upd_opt previous previous_head processor_id;
          Some (m\<lparr>reservation_previous := previous, reservation_next := next,
                  reservation_heads := (reservation_heads m)(address \<mapsto> processor_id)\<rparr>) }) }"

definition RemoveReservation :: "nat \<Rightarrow> monitor \<Rightarrow> monitor option" where
  "RemoveReservation processor_id m = do {
     address \<leftarrow> nth_opt (exclusive_addresses m) processor_id;
     if address = INVALID_EXCLUSIVE_ADDRESS then Some m
     else do {
       previous \<leftarrow> nth_opt (reservation_previous m) processor_id;
       next \<leftarrow> nth_opt (reservation_next m) processor_id;
       m \<leftarrow> (if previous = INVALID_PROCESSOR_ID
             then Some (case reservation_heads m address of None \<Rightarrow> m
                        | Some it \<Rightarrow>
                            m\<lparr>reservation_heads := (reservation_heads m)
                               (address := if next = INVALID_PROCESSOR_ID then None else Some next)\<rparr>)
             else do { xs \<leftarrow> upd_opt (reservation_next m) previous next; Some (m\<lparr>reservation_next := xs\<rparr>) });
       m \<leftarrow> (if next \<noteq> INVALID_PROCESSOR_ID
             then do { xs \<leftarrow> upd_opt (reservation_previous m) next previous; Some (m\<lparr>reservation_previous := xs\<rparr>) }
             else Some m);
       xs \<leftarrow> upd_opt (reservation_previous m) processor_id INVALID_PROCESSOR_ID;
       ys \<leftarrow> upd_opt (reservation_next m) processor_id INVALID_PROCESSOR_ID;
       Some (m\<lparr>reservation_previous := xs, reservation_next := ys\<rparr>) } }"

text \<open>Copying a value of \<open>n\<close> bytes over the first bytes of the saved value.\<close>

definition save_bytes :: "nat \<Rightarrow> 128 word \<Rightarrow> 128 word \<Rightarrow> 128 word" where
  "save_bytes n v old = take_bit (8 * n) v OR (old AND NOT (mask (8 * n)))"

text \<open>
  The caller's operation reads, or compares and exchanges, the guest memory \<open>mem\<close>; \<open>n\<close> is the
  size of its value type.
\<close>

definition ReadAndMark :: "nat \<Rightarrow> nat \<Rightarrow> vaddr \<Rightarrow> ('mem \<Rightarrow> 128 word \<times> 'mem) \<Rightarrow> monitor \<times> 'mem \<Rightarrow> (128 word \<times> monitor \<times> 'mem) option" where
  "ReadAndMark n processor_id address op = (\<lambda>(m, mem). do {
     let masked_address = ResolveAddress m processor_id address AND RESERVATION_GRANULE_MASK;
     m \<leftarrow> Lock m;
     m \<leftarrow> RemoveReservation processor_id m;
     xs \<leftarrow> upd_opt (exclusive_addresses m) processor_id masked_address;
     m \<leftarrow> AddReservation processor_id masked_address (m\<lparr>exclusive_addresses := xs\<rparr>);
     let (value, mem) = op mem;
     old \<leftarrow> nth_opt (exclusive_values m) processor_id;
     vs \<leftarrow> upd_opt (exclusive_values m) processor_id (save_bytes n value old);
     Some (value, Unlock (m\<lparr>exclusive_values := vs\<rparr>), mem) })"

text \<open>The walk along a reservation list; it need not end on a cyclic one.\<close>

partial_function (option) clear_list :: "nat \<Rightarrow> monitor \<Rightarrow> monitor option" where
  "clear_list current m =
     (if current = INVALID_PROCESSOR_ID then Some m
      else do {
        next \<leftarrow> nth_opt (reservation_next m) current;
        as \<leftarrow> upd_opt (exclusive_addresses m) current INVALID_EXCLUSIVE_ADDRESS;
        ps \<leftarrow> upd_opt (reservation_previous m) current INVALID_PROCESSOR_ID;
        ns \<leftarrow> upd_opt (reservation_next m) current INVALID_PROCESSOR_ID;
        clear_list next (m\<lparr>exclusive_addresses := as, reservation_previous := ps, reservation_next := ns\<rparr>) })"

definition CheckAndClear :: "nat \<Rightarrow> vaddr \<Rightarrow> monitor \<Rightarrow> (bool \<times> monitor) option" where
  "CheckAndClear processor_id address m = do {
     m \<leftarrow> Lock m;
     let masked_address = ResolveAddress m processor_id address AND RESERVATION_GRANULE_MASK;
     a \<leftarrow> nth_opt (exclusive_addresses m) processor_id;
     if a \<noteq> masked_address then Some (False, Unlock m)
     else (case (if HasAddressResolver m then reservation_heads m masked_address else None) of
         None \<Rightarrow> Some (True, m\<lparr>exclusive_addresses :=
                   map (\<lambda>x. if x = masked_address then INVALID_EXCLUSIVE_ADDRESS else x) (exclusive_addresses m)\<rparr>)
       | Some it \<Rightarrow> do {
           m \<leftarrow> clear_list it m;
           Some (True, m\<lparr>reservation_heads := (reservation_heads m)(masked_address := None)\<rparr>) }) }"

definition DoExclusiveOperation :: "nat \<Rightarrow> nat \<Rightarrow> vaddr \<Rightarrow> (128 word \<Rightarrow> 'mem \<Rightarrow> bool \<times> 'mem) \<Rightarrow> monitor \<times> 'mem \<Rightarrow> (bool \<times> monitor \<times> 'mem) option" where
  "DoExclusiveOperation n processor_id address op = (\<lambda>(m, mem). do {
     (ok, m) \<leftarrow> CheckAndClear processor_id address m;
     if \<not> ok then Some (False, m, mem)
     else do {
       v \<leftarrow> nth_opt (exclusive_values m) processor_id;
       let (result, mem) = op (take_bit (8 * n) v) mem;
       Some (result, Unlock m, mem) } })"

definition Clear :: "monitor \<Rightarrow> monitor option" where
  "Clear m = do {
     m \<leftarrow> Lock m;
     Some (Unlock (m\<lparr>exclusive_addresses := map (\<lambda>x. INVALID_EXCLUSIVE_ADDRESS) (exclusive_addresses m),
                     reservation_previous := map (\<lambda>x. INVALID_PROCESSOR_ID) (reservation_previous m),
                     reservation_next := map (\<lambda>x. INVALID_PROCESSOR_ID) (reservation_next m),
                     reservation_heads := (\<lambda>a. None)\<rparr>)) }"

definition ClearProcessor :: "nat \<Rightarrow> monitor \<Rightarrow> monitor option" where
  "ClearProcessor processor_id m = do {
     m \<leftarrow> Lock m;
     m \<leftarrow> RemoveReservation processor_id m;
     xs \<leftarrow> upd_opt (exclusive_addresses m) processor_id INVALID_EXCLUSIVE_ADDRESS;
     Some (Unlock (m\<lparr>exclusive_addresses := xs\<rparr>)) }"


section \<open>Reservation lists\<close>

lemma take_bit_save_bytes: "take_bit (8 * n) (save_bytes n v old) = take_bit (8 * n) v"
  by (rule bit_eqI) (auto simp: save_bytes_def bit_take_bit_iff bit_or_iff bit_and_iff bit_not_iff bit_mask_iff)

lemma upd_opt_eq_Some [simp]: "upd_opt xs i v = Some ys \<longleftrightarrow> i < length xs \<and> ys = xs[i := v]"
  by (auto simp: upd_opt_def)

lemma upd_opt_less [simp]: "i < length xs \<Longrightarrow> upd_opt xs i v = Some (xs[i := v])"
  by (simp add: upd_opt_def)

definition first_or :: "nat \<Rightarrow> nat list \<Rightarrow> nat" where
  "first_or z L = (case L of [] \<Rightarrow> z | x # _ \<Rightarrow> x)"

definition last_or :: "nat \<Rightarrow> nat list \<Rightarrow> nat" where
  "last_or p L = (if L = [] then p else last L)"

lemma first_or_simps [simp]: "first_or z [] = z" "first_or z (x # L) = x"
  by (simp_all add: first_or_def)

lemma last_or_simps [simp]: "last_or p [] = p" "last_or p (x # L) = last_or x L"
  by (simp_all add: last_or_def)

text \<open>\<open>linked P N p L z\<close>: the processors \<open>L\<close> are linked in this order by the previous and next
  fields, between the neighbours \<open>p\<close> and \<open>z\<close>.\<close>

fun linked :: "nat list \<Rightarrow> nat list \<Rightarrow> nat \<Rightarrow> nat list \<Rightarrow> nat \<Rightarrow> bool" where
  "linked P N p [] z \<longleftrightarrow> True"
| "linked P N p (y # L) z \<longleftrightarrow> P ! y = p \<and> N ! y = first_or z L \<and> linked P N y L z"

lemma first_or_append: "first_or z (L1 @ L2) = first_or (first_or z L2) L1"
  by (cases L1) simp_all

lemma linked_append:
  "linked P N p (L1 @ L2) z \<longleftrightarrow> linked P N p L1 (first_or z L2) \<and> linked P N (last_or p L1) L2 z"
  by (induction L1 arbitrary: p) (auto simp: first_or_append)

lemma linked_cong:
  "(\<And>y. y \<in> set L \<Longrightarrow> P ! y = P' ! y \<and> N ! y = N' ! y) \<Longrightarrow> linked P N p L z = linked P' N' p L z"
  by (induction L arbitrary: p) auto

lemma linked_outside [simp]:
  "i \<notin> set L \<Longrightarrow> linked (P[i := v]) N p L z = linked P N p L z"
  "i \<notin> set L \<Longrightarrow> linked P (N[i := v]) p L z = linked P N p L z"
  by (metis linked_cong nth_list_update_neq)+

lemma linked_relink_last:
  assumes "linked P N p L z" "L \<noteq> []" "distinct L" "last L < length N"
  shows "linked P (N[last L := z']) p L z'"
proof -
  obtain L' y where L: "L = L' @ [y]" using assms(2) by (metis rev_exhaust)
  then show ?thesis using assms by (simp add: linked_append)
qed

lemma linked_relink_first:
  "linked P N p (y # L) z \<Longrightarrow> y \<notin> set L \<Longrightarrow> y < length P \<Longrightarrow> linked (P[y := p']) N p' (y # L) z"
  by simp

section \<open>The index of reservations\<close>

definition sizes :: "monitor \<Rightarrow> nat \<Rightarrow> bool" where
  "sizes m n \<longleftrightarrow> n < INVALID_PROCESSOR_ID \<and> length (exclusive_addresses m) = n \<and> length (exclusive_values m) = n
     \<and> length (reservation_previous m) = n \<and> length (reservation_next m) = n"

definition chain :: "monitor \<Rightarrow> vaddr \<Rightarrow> nat list \<Rightarrow> bool" where
  "chain m a L \<longleftrightarrow> reservation_heads m a = (if L = [] then None else Some (hd L)) \<and> distinct L
     \<and> linked (reservation_previous m) (reservation_next m) INVALID_PROCESSOR_ID L INVALID_PROCESSOR_ID"

text \<open>\<open>index m n S\<close>: the list of every address holds the processors \<open>S a\<close>.\<close>

definition index :: "monitor \<Rightarrow> nat \<Rightarrow> (vaddr \<Rightarrow> nat set) \<Rightarrow> bool" where
  "index m n S \<longleftrightarrow> sizes m n \<and> (\<forall>a. (\<exists>L. chain m a L \<and> set L = S a) \<and> S a \<subseteq> {..<n}) \<and> (\<forall>a b. a \<noteq> b \<longrightarrow> S a \<inter> S b = {})"

definition same_data :: "monitor \<Rightarrow> monitor \<Rightarrow> bool" where
  "same_data m m' \<longleftrightarrow> lock_held m' = lock_held m \<and> address_resolver m' = address_resolver m
     \<and> exclusive_addresses m' = exclusive_addresses m \<and> exclusive_values m' = exclusive_values m"

lemma indexD:
  assumes "index m n S"
  shows "sizes m n" "\<exists>L. chain m a L \<and> set L = S a" "S a \<subseteq> {..<n}" "a \<noteq> b \<Longrightarrow> S a \<inter> S b = {}"
  using assms unfolding index_def by blast+

lemma chain_other:
  assumes "chain m b L" "reservation_heads m' b = reservation_heads m b"
    and "\<And>y. y \<in> set L \<Longrightarrow> reservation_previous m' ! y = reservation_previous m ! y \<and> reservation_next m' ! y = reservation_next m ! y"
  shows "chain m' b L"
  using assms linked_cong [of L "reservation_previous m" "reservation_previous m'" "reservation_next m" "reservation_next m'"]
  unfolding chain_def by metis

lemma RemoveReservation_eq:
  assumes "sizes m n" "p < n" "exclusive_addresses m ! p = A" "A \<noteq> INVALID_EXCLUSIVE_ADDRESS"
    and "reservation_previous m ! p = q" "reservation_next m ! p = r"
    and "q = INVALID_PROCESSOR_ID \<or> q < n" "r = INVALID_PROCESSOR_ID \<or> r < n"
  shows "RemoveReservation p m = Some (m\<lparr>
    reservation_heads := (if q = INVALID_PROCESSOR_ID \<and> reservation_heads m A \<noteq> None
      then (reservation_heads m)(A := if r = INVALID_PROCESSOR_ID then None else Some r) else reservation_heads m),
    reservation_previous := (if r = INVALID_PROCESSOR_ID then reservation_previous m else (reservation_previous m)[r := q])[p := INVALID_PROCESSOR_ID],
    reservation_next := (if q = INVALID_PROCESSOR_ID then reservation_next m else (reservation_next m)[q := r])[p := INVALID_PROCESSOR_ID]\<rparr>)"
  using assms
  by (cases "q = INVALID_PROCESSOR_ID"; cases "r = INVALID_PROCESSOR_ID"; cases "reservation_heads m A")
    (simp_all add: RemoveReservation_def sizes_def)

lemma RemoveReservation_index:
  assumes I: "index m n S" and p: "p < n"
    and mem: "\<And>a. p \<in> S a \<longleftrightarrow> a = exclusive_addresses m ! p \<and> a \<noteq> INVALID_EXCLUSIVE_ADDRESS"
  shows "\<exists>m'. RemoveReservation p m = Some m' \<and> index m' n (\<lambda>a. S a - {p}) \<and> same_data m m'"
proof (cases "exclusive_addresses m ! p = INVALID_EXCLUSIVE_ADDRESS")
  case True
  then have "(\<lambda>a. S a - {p}) = S" using mem by auto
  moreover have "RemoveReservation p m = Some m"
    using True p indexD(1) [OF I] by (simp add: RemoveReservation_def sizes_def)
  ultimately show ?thesis using I by (auto simp: same_data_def)
next
  case False
  define A P N where "A = exclusive_addresses m ! p" and "P = reservation_previous m" and "N = reservation_next m"
  let ?I = INVALID_PROCESSOR_ID
  have sz: "sizes m n" by (rule indexD(1) [OF I])
  have len: "length P = n" "length N = n" "n < ?I" using sz by (simp_all add: sizes_def P_def N_def)
  obtain L where L: "chain m A L" "set L = S A" using indexD(2) [OF I] by blast
  have "p \<in> set L" using L(2) mem [of A] False by (simp add: A_def)
  then obtain L1 L2 where L12: "L = L1 @ p # L2" by (meson split_list)
  have d: "distinct (L1 @ p # L2)" and lk: "linked P N ?I (L1 @ p # L2) ?I"
    and hd: "reservation_heads m A = Some (hd (L1 @ p # L2))"
    using L(1) by (auto simp: chain_def L12 P_def N_def)
  have lt: "y < n" if "y \<in> set L" for y using that L(2) indexD(3) [OF I, of A] by auto
  then have ne: "y \<noteq> ?I" if "y \<in> set L" for y using that len(3) by force
  have prev: "P ! p = last_or ?I L1" and nxt: "N ! p = first_or ?I L2" using lk by (auto simp: linked_append)
  have prevI: "last_or ?I L1 = ?I \<longleftrightarrow> L1 = []" using ne L12 by (auto simp: last_or_def)
  have nxtI: "first_or ?I L2 = ?I \<longleftrightarrow> L2 = []" using ne L12 by (cases L2) auto
  define N1 where "N1 = (if L1 = [] then N else N[last L1 := first_or ?I L2])"
  define P1 where "P1 = (if L2 = [] then P else P[hd L2 := last_or ?I L1])"
  define H where "H = (if L1 = [] then (reservation_heads m)(A := if L2 = [] then None else Some (hd L2)) else reservation_heads m)"
  define m' where "m' = m\<lparr>reservation_heads := H, reservation_previous := P1[p := ?I], reservation_next := N1[p := ?I]\<rparr>"
  have l1: "last L1 \<in> set L" if "L1 \<noteq> []" using that L12 by simp
  have l2: "hd L2 \<in> set L" if "L2 \<noteq> []" using that L12 by simp
  have f2: "first_or ?I L2 = hd L2" if "L2 \<noteq> []" using that by (cases L2) simp_all
  have R: "RemoveReservation p m = Some m'"
    using RemoveReservation_eq [OF sz p A_def [symmetric], of "last_or ?I L1" "first_or ?I L2"]
      False prev nxt prevI nxtI hd lt [OF l1] lt [OF l2] f2
    by (cases "L1 = []"; cases "L2 = []")
      (simp_all add: m'_def P1_def N1_def H_def P_def N_def last_or_def A_def)
  have "chain m' A (L1 @ L2)"
  proof -
    have "linked P N1 ?I L1 (first_or ?I L2)"
      using lk d linked_relink_last [of P N ?I L1 p] lt [OF l1] len by (auto simp: N1_def linked_append)
    then have 1: "linked (P1[p := ?I]) (N1[p := ?I]) ?I L1 (first_or ?I L2)"
      using d by (cases L2) (auto simp: P1_def)
    have "linked P1 N (last_or ?I L1) L2 ?I"
      using lk d lt [OF l2] len by (cases L2) (auto simp: P1_def linked_append)
    moreover have "last L1 \<notin> set L2" if "L1 \<noteq> []" using d last_in_set [OF that] by auto
    ultimately have 2: "linked (P1[p := ?I]) (N1[p := ?I]) (last_or ?I L1) L2 ?I"
      using d by (cases "L1 = []") (simp_all add: N1_def)
    have "H A = (if L1 @ L2 = [] then None else Some (hd (L1 @ L2)))"
      using hd by (auto simp: H_def hd_append)
    then show ?thesis using 1 2 d by (simp add: chain_def m'_def linked_append)
  qed
  moreover have "chain m' b Lb" if "chain m b Lb" "set Lb = S b" "b \<noteq> A" for b Lb
  proof (rule chain_other [OF that(1)])
    show "reservation_heads m' b = reservation_heads m b" using that(3) by (simp add: m'_def H_def)
    fix y assume "y \<in> set Lb"
    then have "y \<notin> set L" using that L(2) indexD(4) [OF I, of A b] by auto
    then have "y \<noteq> p" "L1 \<noteq> [] \<Longrightarrow> y \<noteq> last L1" "L2 \<noteq> [] \<Longrightarrow> y \<noteq> hd L2" using l1 l2 L12 by auto
    then show "reservation_previous m' ! y = reservation_previous m ! y \<and> reservation_next m' ! y = reservation_next m ! y"
      by (cases "L1 = []"; cases "L2 = []") (simp_all add: m'_def P1_def N1_def P_def N_def)
  qed
  ultimately have "\<exists>La. chain m' a La \<and> set La = S a - {p}" for a
  proof (cases "a = A")
    case True
    have "set (L1 @ L2) = S A - {p}" using L(2) d by (auto simp: L12)
    with True \<open>chain m' A (L1 @ L2)\<close> show ?thesis by blast
  next
    case other: False
    then have "p \<notin> S a" using mem [of a] by (simp add: A_def)
    with other show ?thesis
      using indexD(2) [OF I, of a] \<open>\<And>b Lb. chain m b Lb \<Longrightarrow> set Lb = S b \<Longrightarrow> b \<noteq> A \<Longrightarrow> chain m' b Lb\<close>
      by (metis Diff_empty Diff_insert0)
  qed
  moreover have "sizes m' n" using sz by (auto simp: sizes_def m'_def P1_def N1_def P_def N_def)
  ultimately have "index m' n (\<lambda>a. S a - {p})" using I unfolding index_def by blast
  then show ?thesis using R by (auto simp: m'_def same_data_def)
qed


lemma AddReservation_index:
  assumes I: "index m n S" and p: "p < n" and mem: "\<And>a. p \<notin> S a"
  shows "\<exists>m'. AddReservation p A m = Some m' \<and> index m' n (S(A := insert p (S A))) \<and> same_data m m'"
proof -
  define P N where "P = reservation_previous m" and "N = reservation_next m"
  let ?I = INVALID_PROCESSOR_ID
  have sz: "sizes m n" by (rule indexD(1) [OF I])
  have len: "length P = n" "length N = n" "n < ?I" using sz by (simp_all add: sizes_def P_def N_def)
  obtain L where L: "chain m A L" "set L = S A" using indexD(2) [OF I] by blast
  have pL: "p \<notin> set L" using mem L(2) by simp
  have hdn: "hd L < n" "hd L \<in> set L" if "L \<noteq> []" using that L(2) indexD(3) [OF I, of A] by auto
  define P1 where "P1 = (if L = [] then P[p := ?I] else P[p := ?I, hd L := p])"
  define m' where "m' = m\<lparr>reservation_previous := P1, reservation_next := N[p := first_or ?I L],
    reservation_heads := (reservation_heads m)(A \<mapsto> p)\<rparr>"
  have R: "AddReservation p A m = Some m'"
    using sz p L(1) hdn
    by (cases L) (simp_all add: AddReservation_def chain_def sizes_def m'_def P1_def P_def N_def)
  have "chain m' A (p # L)"
    using L(1) pL p len hdn
    by (cases L) (auto simp: chain_def m'_def P1_def P_def N_def)
  moreover have "chain m' b Lb" if "chain m b Lb" "set Lb = S b" "b \<noteq> A" for b Lb
  proof (rule chain_other [OF that(1)])
    show "reservation_heads m' b = reservation_heads m b" using that(3) by (simp add: m'_def)
    fix y assume "y \<in> set Lb"
    then have "y \<notin> set L" "y \<noteq> p" using that L(2) indexD(4) [OF I, of A b] mem [of b] by auto
    moreover from this have "L \<noteq> [] \<Longrightarrow> y \<noteq> hd L" using hdn(2) by metis
    ultimately show "reservation_previous m' ! y = reservation_previous m ! y \<and> reservation_next m' ! y = reservation_next m ! y"
      by (cases "L = []") (simp_all add: m'_def P1_def P_def N_def)
  qed
  ultimately have "\<exists>La. chain m' a La \<and> set La = (S(A := insert p (S A))) a" for a
    using L(2) indexD(2) [OF I, of a] by (cases "a = A") (metis fun_upd_same list.simps(15), metis fun_upd_other)
  moreover have "sizes m' n" using sz by (simp add: sizes_def m'_def P1_def P_def N_def)
  ultimately have "index m' n (S(A := insert p (S A)))"
    using I p mem unfolding index_def by (auto simp: fun_upd_def)
  then show ?thesis using R by (auto simp: m'_def same_data_def)
qed

subsection \<open>Walking a list\<close>

definition overwrite :: "'a \<Rightarrow> nat list \<Rightarrow> 'a list \<Rightarrow> 'a list" where
  "overwrite v L xs = fold (\<lambda>i ys. ys[i := v]) L xs"

lemma overwrite_simps [simp]: "overwrite v [] xs = xs" "overwrite v (i # L) xs = overwrite v L (xs[i := v])"
  by (simp_all add: overwrite_def)

lemma length_overwrite [simp]: "length (overwrite v L xs) = length xs"
  by (induction L arbitrary: xs) simp_all

lemma nth_overwrite: "i < length xs \<Longrightarrow> overwrite v L xs ! i = (if i \<in> set L then v else xs ! i)"
  by (induction L arbitrary: xs) (auto simp: nth_list_update)

lemma clear_list_linked:
  assumes "linked (reservation_previous m) (reservation_next m) q L INVALID_PROCESSOR_ID" "distinct L"
    and "sizes m n" "set L \<subseteq> {..<n}"
  shows "clear_list (first_or INVALID_PROCESSOR_ID L) m = Some (m\<lparr>
    exclusive_addresses := overwrite INVALID_EXCLUSIVE_ADDRESS L (exclusive_addresses m),
    reservation_previous := overwrite INVALID_PROCESSOR_ID L (reservation_previous m),
    reservation_next := overwrite INVALID_PROCESSOR_ID L (reservation_next m)\<rparr>)"
  using assms
proof (induction L arbitrary: m q)
  case Nil
  then show ?case by (subst clear_list.simps) simp
next
  case (Cons y L)
  let ?m = "m\<lparr>exclusive_addresses := (exclusive_addresses m)[y := INVALID_EXCLUSIVE_ADDRESS],
    reservation_previous := (reservation_previous m)[y := INVALID_PROCESSOR_ID],
    reservation_next := (reservation_next m)[y := INVALID_PROCESSOR_ID]\<rparr>"
  have "clear_list (first_or INVALID_PROCESSOR_ID L) ?m = Some (?m\<lparr>
    exclusive_addresses := overwrite INVALID_EXCLUSIVE_ADDRESS L (exclusive_addresses ?m),
    reservation_previous := overwrite INVALID_PROCESSOR_ID L (reservation_previous ?m),
    reservation_next := overwrite INVALID_PROCESSOR_ID L (reservation_next ?m)\<rparr>)"
    by (rule Cons.IH [of _ y]) (use Cons.prems in \<open>auto simp: sizes_def\<close>)
  moreover have "y \<noteq> INVALID_PROCESSOR_ID" using Cons.prems by (auto simp: sizes_def)
  ultimately show ?case
    using Cons.prems by (subst clear_list.simps) (simp add: sizes_def)
qed


section \<open>The invariant\<close>

text \<open>
  With a resolver the lists index the reservations exactly.  Without one the lists are kept but
  never read, and stores clear reservations behind their back; all that holds of them is that
  every link stays inside the vectors.
\<close>

definition links_ok :: "monitor \<Rightarrow> nat \<Rightarrow> bool" where
  "links_ok m n \<longleftrightarrow> sizes m n
     \<and> (\<forall>p\<in>set (reservation_previous m). p = INVALID_PROCESSOR_ID \<or> p < n)
     \<and> (\<forall>p\<in>set (reservation_next m). p = INVALID_PROCESSOR_ID \<or> p < n)
     \<and> (\<forall>a p. reservation_heads m a = Some p \<longrightarrow> p < n)"

definition lists_ok :: "monitor \<Rightarrow> nat \<Rightarrow> (vaddr \<Rightarrow> nat set) \<Rightarrow> bool" where
  "lists_ok m n S \<longleftrightarrow> (if HasAddressResolver m then index m n S else links_ok m n)"

definition holders :: "monitor \<Rightarrow> vaddr \<Rightarrow> nat set" where
  "holders m a = (if a = INVALID_EXCLUSIVE_ADDRESS then {}
     else {p. p < length (exclusive_addresses m) \<and> exclusive_addresses m ! p = a})"

definition monitor_ok :: "monitor \<Rightarrow> bool" where
  "monitor_ok m \<longleftrightarrow> \<not> lock_held m \<and> lists_ok m (GetProcessorCount m) (holders m)"

lemma links_ok_list_update:
  "(\<forall>p\<in>set xs. p = I \<or> p < n) \<Longrightarrow> v = I \<or> v < n \<Longrightarrow> \<forall>p\<in>set (xs[i := v]). p = I \<or> p < (n :: nat)"
  using set_update_subset_insert [of xs i v] by blast

lemma RemoveReservation_links:
  assumes "links_ok m n" "p < n"
  shows "\<exists>m'. RemoveReservation p m = Some m' \<and> links_ok m' n \<and> same_data m m'"
proof (cases "exclusive_addresses m ! p = INVALID_EXCLUSIVE_ADDRESS")
  case True
  then show ?thesis using assms by (auto simp: RemoveReservation_def links_ok_def sizes_def same_data_def)
next
  case False
  let ?I = INVALID_PROCESSOR_ID
  have sz: "sizes m n" using assms by (simp add: links_ok_def)
  define q r where "q = reservation_previous m ! p" and "r = reservation_next m ! p"
  have q: "q = ?I \<or> q < n" and r: "r = ?I \<or> r < n"
    using assms nth_mem [of p "reservation_previous m"] nth_mem [of p "reservation_next m"]
    by (auto simp: links_ok_def sizes_def q_def r_def)
  show ?thesis
    unfolding RemoveReservation_eq [OF sz assms(2) refl False q_def [symmetric] r_def [symmetric] q r]
    using assms(1) q r by (auto simp: links_ok_def sizes_def same_data_def intro!: links_ok_list_update [rule_format] dest!: set_update_subset_insert [THEN subsetD])
qed

lemma AddReservation_links:
  assumes "links_ok m n" "p < n"
  shows "\<exists>m'. AddReservation p A m = Some m' \<and> links_ok m' n \<and> same_data m m'"
proof -
  have "reservation_heads m A = Some h \<Longrightarrow> h < n" for h using assms(1) by (simp add: links_ok_def)
  then show ?thesis
    using assms by (cases "reservation_heads m A")
      (auto simp: AddReservation_def links_ok_def sizes_def same_data_def dest!: set_update_subset_insert [THEN subsetD])
qed

lemma RemoveReservation_ok:
  assumes "lists_ok m n S" "p < n"
    and "\<And>a. p \<in> S a \<longleftrightarrow> a = exclusive_addresses m ! p \<and> a \<noteq> INVALID_EXCLUSIVE_ADDRESS"
  shows "\<exists>m'. RemoveReservation p m = Some m' \<and> lists_ok m' n (\<lambda>a. S a - {p}) \<and> same_data m m'"
  using assms RemoveReservation_index [of m n S p] RemoveReservation_links [of m n p]
  by (cases "HasAddressResolver m") (auto simp: lists_ok_def HasAddressResolver_def same_data_def)

lemma AddReservation_ok:
  assumes "lists_ok m n S" "p < n" "\<And>a. p \<notin> S a"
  shows "\<exists>m'. AddReservation p A m = Some m' \<and> lists_ok m' n (S(A := insert p (S A))) \<and> same_data m m'"
  using assms AddReservation_index [of m n S p A] AddReservation_links [of m n p A]
  by (cases "HasAddressResolver m") (auto simp: lists_ok_def HasAddressResolver_def same_data_def)


section \<open>The operations\<close>

lemma lists_okD: "lists_ok m n S \<Longrightarrow> sizes m n"
  by (auto simp: lists_ok_def index_def links_ok_def split: if_splits)

lemma lists_ok_cong:
  assumes "lists_ok m n S" "reservation_previous m' = reservation_previous m" "reservation_next m' = reservation_next m"
    "reservation_heads m' = reservation_heads m" "HasAddressResolver m' = HasAddressResolver m" "sizes m' n"
  shows "lists_ok m' n S"
  using assms by (auto simp: lists_ok_def index_def links_ok_def chain_def split: if_splits)

lemma in_holders:
  "p \<in> holders m a \<longleftrightarrow> p < length (exclusive_addresses m) \<and> a = exclusive_addresses m ! p \<and> a \<noteq> INVALID_EXCLUSIVE_ADDRESS"
  by (auto simp: holders_def)

definition key :: "monitor \<Rightarrow> nat \<Rightarrow> vaddr \<Rightarrow> vaddr" where
  "key m p a = ResolveAddress m p a AND RESERVATION_GRANULE_MASK"

definition same_config :: "monitor \<Rightarrow> monitor \<Rightarrow> bool" where
  "same_config m m' \<longleftrightarrow> address_resolver m' = address_resolver m \<and> GetProcessorCount m' = GetProcessorCount m"

lemma monitor_okD:
  assumes "monitor_ok m"
  shows "lists_ok m (GetProcessorCount m) (holders m)" "sizes m (GetProcessorCount m)" "\<not> lock_held m"
  using assms lists_okD by (auto simp: monitor_ok_def)

lemma lists_ok_locked:
  "lists_ok m n S \<Longrightarrow> lists_ok (m\<lparr>lock_held := b\<rparr>) n S"
  by (rule lists_ok_cong) (auto simp: sizes_def HasAddressResolver_def dest!: lists_okD)

lemma locked_unlink:
  assumes "monitor_ok m" "p < GetProcessorCount m"
  shows "\<exists>m1. RemoveReservation p (m\<lparr>lock_held := True\<rparr>) = Some m1
    \<and> lists_ok m1 (GetProcessorCount m) (\<lambda>a. holders m a - {p}) \<and> same_data (m\<lparr>lock_held := True\<rparr>) m1"
  using assms(2) monitor_okD [OF assms(1)]
  by (intro RemoveReservation_ok) (auto simp: in_holders sizes_def intro: lists_ok_locked)

lemma ReadAndMark_ok:
  assumes ok: "monitor_ok m" and p: "p < GetProcessorCount m" and k: "key m p a = k" "k \<noteq> INVALID_EXCLUSIVE_ADDRESS"
    and op: "op mem = (v, mem')"
  shows "\<exists>m'. ReadAndMark n p a op (m, mem) = Some (v, m', mem') \<and> monitor_ok m' \<and> same_config m m'
    \<and> exclusive_addresses m' = (exclusive_addresses m)[p := k]
    \<and> exclusive_values m' = (exclusive_values m)[p := save_bytes n v (exclusive_values m ! p)]"
proof -
  define c where "c = GetProcessorCount m"
  obtain m1 where m1: "RemoveReservation p (m\<lparr>lock_held := True\<rparr>) = Some m1" "lists_ok m1 c (\<lambda>a. holders m a - {p})"
    "same_data (m\<lparr>lock_held := True\<rparr>) m1"
    using locked_unlink [OF ok p] by (auto simp: c_def)
  have sz: "sizes m c" and un: "\<not> lock_held m" using monitor_okD [OF ok] by (simp_all add: c_def)
  have pc: "p < c" using p by (simp add: c_def)
  let ?m1 = "m1\<lparr>exclusive_addresses := (exclusive_addresses m)[p := k]\<rparr>"
  have "lists_ok ?m1 c (\<lambda>a. holders m a - {p})"
    by (rule lists_ok_cong [OF m1(2)]) (use sz m1(3) lists_okD [OF m1(2)] in \<open>simp_all add: sizes_def HasAddressResolver_def\<close>)
  then obtain m2 where m2: "AddReservation p k ?m1 = Some m2" "same_data ?m1 m2"
    "lists_ok m2 c ((\<lambda>a. holders m a - {p})(k := insert p (holders m k - {p})))"
    using AddReservation_ok [of ?m1 c "\<lambda>a. holders m a - {p}" p k] pc by auto
  have d: "exclusive_addresses m2 = (exclusive_addresses m)[p := k]" "exclusive_values m2 = exclusive_values m"
    "address_resolver m2 = address_resolver m" "exclusive_addresses m1 = exclusive_addresses m"
    using m1(3) m2(2) by (simp_all add: same_data_def)
  let ?m3 = "Unlock (m2\<lparr>exclusive_values := (exclusive_values m)[p := save_bytes n v (exclusive_values m ! p)]\<rparr>)"
  have h: "(\<lambda>a. holders m a - {p})(k := insert p (holders m k - {p})) = holders ?m3"
    using pc sz k(2) by (auto simp: fun_eq_iff holders_def d Unlock_def nth_list_update sizes_def)
  have "lists_ok ?m3 c (holders ?m3)"
    unfolding h [symmetric]
    by (rule lists_ok_cong [OF m2(3)]) (use lists_okD [OF m2(3)] d sz in \<open>simp_all add: sizes_def HasAddressResolver_def Unlock_def\<close>)
  moreover have "ReadAndMark n p a op (m, mem) = Some (v, ?m3, mem')"
    using un pc sz m1(1) m2(1) op k d by (simp add: ReadAndMark_def Lock_def key_def [symmetric] sizes_def)
  moreover have "GetProcessorCount ?m3 = c" using sz d by (simp add: GetProcessorCount_def Unlock_def sizes_def)
  ultimately show ?thesis
    using d by (auto simp: monitor_ok_def same_config_def Unlock_def c_def)
qed

lemma ClearProcessor_ok:
  assumes ok: "monitor_ok m" and p: "p < GetProcessorCount m"
  shows "\<exists>m'. ClearProcessor p m = Some m' \<and> monitor_ok m' \<and> same_config m m'
    \<and> exclusive_addresses m' = (exclusive_addresses m)[p := INVALID_EXCLUSIVE_ADDRESS] \<and> exclusive_values m' = exclusive_values m"
proof -
  define c where "c = GetProcessorCount m"
  obtain m1 where m1: "RemoveReservation p (m\<lparr>lock_held := True\<rparr>) = Some m1" "lists_ok m1 c (\<lambda>a. holders m a - {p})"
    "same_data (m\<lparr>lock_held := True\<rparr>) m1"
    using locked_unlink [OF ok p] by (auto simp: c_def)
  have sz: "sizes m c" and un: "\<not> lock_held m" using monitor_okD [OF ok] by (simp_all add: c_def)
  have pc: "p < c" using p by (simp add: c_def)
  let ?m2 = "Unlock (m1\<lparr>exclusive_addresses := (exclusive_addresses m)[p := INVALID_EXCLUSIVE_ADDRESS]\<rparr>)"
  have d: "exclusive_addresses m1 = exclusive_addresses m" "exclusive_values m1 = exclusive_values m"
    "address_resolver m1 = address_resolver m" using m1(3) by (simp_all add: same_data_def)
  have h: "(\<lambda>a. holders m a - {p}) = holders ?m2"
    using pc sz by (auto simp: fun_eq_iff holders_def Unlock_def nth_list_update sizes_def)
  have "lists_ok ?m2 c (holders ?m2)"
    unfolding h [symmetric]
    by (rule lists_ok_cong [OF m1(2)]) (use lists_okD [OF m1(2)] sz in \<open>simp_all add: sizes_def HasAddressResolver_def Unlock_def\<close>)
  moreover have "ClearProcessor p m = Some ?m2"
    using un pc sz m1(1) d by (simp add: ClearProcessor_def Lock_def sizes_def)
  moreover have "GetProcessorCount ?m2 = c" using sz by (simp add: GetProcessorCount_def Unlock_def sizes_def)
  ultimately show ?thesis
    using d by (auto simp: monitor_ok_def same_config_def Unlock_def c_def)
qed


text \<open>Both ways of clearing an address, by its list and by a scan, leave the same addresses.\<close>

definition released :: "vaddr \<Rightarrow> vaddr list \<Rightarrow> vaddr list" where
  "released k = map (\<lambda>x. if x = k then INVALID_EXCLUSIVE_ADDRESS else x)"

lemma holders_released:
  assumes "exclusive_addresses m' = released k (exclusive_addresses m)" "k \<noteq> INVALID_EXCLUSIVE_ADDRESS"
  shows "holders m' = (holders m)(k := {})"
  using assms by (auto simp: fun_eq_iff holders_def released_def)

lemma clear_list_released:
  assumes I: "index m n (holders m)" and h: "reservation_heads m k = Some h" and k: "k \<noteq> INVALID_EXCLUSIVE_ADDRESS"
  shows "\<exists>m1. clear_list h m = Some m1 \<and> exclusive_addresses m1 = released k (exclusive_addresses m)
    \<and> exclusive_values m1 = exclusive_values m \<and> lock_held m1 = lock_held m \<and> address_resolver m1 = address_resolver m
    \<and> index (m1\<lparr>reservation_heads := (reservation_heads m1)(k := None)\<rparr>) n ((holders m)(k := {}))"
proof -
  let ?I = INVALID_PROCESSOR_ID
  have sz: "sizes m n" by (rule indexD(1) [OF I])
  obtain L where L: "chain m k L" "set L = holders m k" using indexD(2) [OF I] by blast
  have sub: "set L \<subseteq> {..<n}" using L(2) indexD(3) [OF I, of k] by simp
  have hL: "h = first_or ?I L" using L(1) h by (cases L) (simp_all add: chain_def)
  define m1 where "m1 = m\<lparr>exclusive_addresses := overwrite INVALID_EXCLUSIVE_ADDRESS L (exclusive_addresses m),
    reservation_previous := overwrite ?I L (reservation_previous m), reservation_next := overwrite ?I L (reservation_next m)\<rparr>"
  have c: "clear_list h m = Some m1"
    unfolding hL m1_def using L(1) by (intro clear_list_linked [of m ?I, OF _ _ sz sub]) (simp_all add: chain_def)
  have a: "exclusive_addresses m1 = released k (exclusive_addresses m)"
    using L(2) k sz by (auto simp: m1_def released_def nth_overwrite in_holders sizes_def intro!: nth_equalityI)
  let ?m2 = "m1\<lparr>reservation_heads := (reservation_heads m1)(k := None)\<rparr>"
  have "chain ?m2 b Lb" if "chain m b Lb" "set Lb = holders m b" "b \<noteq> k" for b Lb
  proof (rule chain_other [OF that(1)])
    show "reservation_heads ?m2 b = reservation_heads m b" using that(3) by (simp add: m1_def)
    fix y assume "y \<in> set Lb"
    then have "y \<notin> set L" "y < n" using that L(2) indexD(3,4) [OF I] by blast+
    then show "reservation_previous ?m2 ! y = reservation_previous m ! y \<and> reservation_next ?m2 ! y = reservation_next m ! y"
      using sz by (simp add: m1_def nth_overwrite sizes_def)
  qed
  moreover have "chain ?m2 k []" by (simp add: chain_def)
  ultimately have "\<exists>La. chain ?m2 b La \<and> set La = ((holders m)(k := {})) b" for b
    using indexD(2) [OF I, of b] by (cases "b = k") (auto intro: exI [of _ "[]"])
  moreover have "sizes ?m2 n" using sz by (simp add: sizes_def m1_def)
  ultimately have "index ?m2 n ((holders m)(k := {}))"
    using I unfolding index_def by (auto simp: fun_upd_def)
  with c a show ?thesis by (auto simp: m1_def)
qed

lemma unlocked_again: "\<not> lock_held m \<Longrightarrow> Unlock (m\<lparr>lock_held := True\<rparr>) = m"
  by (cases m) (simp add: Unlock_def)

lemma CheckAndClear_ok:
  assumes ok: "monitor_ok m" and p: "p < GetProcessorCount m" and k: "key m p a = k" "k \<noteq> INVALID_EXCLUSIVE_ADDRESS"
  shows "if exclusive_addresses m ! p = k
    then \<exists>m'. CheckAndClear p a m = Some (True, m') \<and> lock_held m' \<and> monitor_ok (Unlock m') \<and> same_config m m'
      \<and> exclusive_addresses m' = released k (exclusive_addresses m) \<and> exclusive_values m' = exclusive_values m
    else CheckAndClear p a m = Some (False, m)"
proof -
  define c where "c = GetProcessorCount m"
  let ?m = "m\<lparr>lock_held := True\<rparr>"
  have l: "lists_ok m c (holders m)" and sz: "sizes m c" and un: "\<not> lock_held m"
    using monitor_okD [OF ok] by (simp_all add: c_def)
  have key: "ResolveAddress ?m p a AND RESERVATION_GRANULE_MASK = k" using k(1) by (simp add: key_def ResolveAddress_def)
  have hm: "holders ?m = holders m" by (simp add: fun_eq_iff holders_def)
  have len: "p < length (exclusive_addresses m)" using p by (simp add: GetProcessorCount_def)
  show ?thesis
  proof (cases "exclusive_addresses m ! p = k")
    case False
    then show ?thesis using un len key by (simp add: CheckAndClear_def Lock_def unlocked_again)
  next
    case held: True
    show ?thesis
    proof (cases "HasAddressResolver m")
      case True
      then have R: "HasAddressResolver ?m" and I: "index ?m c (holders ?m)"
        using lists_ok_locked [OF l, of True] by (simp_all add: HasAddressResolver_def lists_ok_def hm)
      have "p \<in> holders ?m k" using held len k(2) by (simp add: in_holders)
      then obtain h where h: "reservation_heads ?m k = Some h"
        using indexD(2) [OF I, of k] by (auto simp: chain_def split: if_splits)
      obtain m1 where m1: "clear_list h ?m = Some m1" "exclusive_addresses m1 = released k (exclusive_addresses m)"
        "exclusive_values m1 = exclusive_values m" "lock_held m1" "address_resolver m1 = address_resolver m"
        "index (m1\<lparr>reservation_heads := (reservation_heads m1)(k := None)\<rparr>) c ((holders m)(k := {}))"
        using clear_list_released [OF I h k(2)] by (auto simp: hm)
      let ?m2 = "m1\<lparr>reservation_heads := (reservation_heads m1)(k := None)\<rparr>"
      have "CheckAndClear p a m = Some (True, ?m2)"
        using un len held key R h m1(1) by (simp add: CheckAndClear_def Lock_def)
      moreover have "holders (Unlock ?m2) = (holders m)(k := {})"
        by (rule holders_released) (simp_all add: Unlock_def m1(2) k(2))
      then have "lists_ok (Unlock ?m2) c (holders (Unlock ?m2))"
        using m1(5,6) True lists_ok_locked [of ?m2 c "(holders m)(k := {})" False]
        by (simp add: lists_ok_def Unlock_def HasAddressResolver_def)
      moreover have "GetProcessorCount ?m2 = c" by (simp add: GetProcessorCount_def c_def m1(2) released_def)
      ultimately show ?thesis
        using held m1(2-5) by (simp add: monitor_ok_def same_config_def c_def GetProcessorCount_def Unlock_def)
    next
      case False
      let ?m2 = "?m\<lparr>exclusive_addresses := released k (exclusive_addresses m)\<rparr>"
      have "CheckAndClear p a m = Some (True, ?m2)"
        using un len held key False by (simp add: CheckAndClear_def Lock_def HasAddressResolver_def released_def)
      moreover have "lists_ok (Unlock ?m2) c (holders (Unlock ?m2))"
        using l False by (simp add: lists_ok_def links_ok_def sizes_def Unlock_def HasAddressResolver_def released_def)
      ultimately show ?thesis
        using held by (simp add: monitor_ok_def same_config_def c_def GetProcessorCount_def Unlock_def released_def)
    qed
  qed
qed

lemma DoExclusiveOperation_ok:
  assumes ok: "monitor_ok m" and p: "p < GetProcessorCount m" and k: "key m p a = k" "k \<noteq> INVALID_EXCLUSIVE_ADDRESS"
  shows "if exclusive_addresses m ! p = k
    then \<exists>m'. DoExclusiveOperation n p a op (m, mem) =
        (case op (take_bit (8 * n) (exclusive_values m ! p)) mem of (r, mem') \<Rightarrow> Some (r, m', mem'))
      \<and> monitor_ok m' \<and> same_config m m'
      \<and> exclusive_addresses m' = released k (exclusive_addresses m) \<and> exclusive_values m' = exclusive_values m
    else DoExclusiveOperation n p a op (m, mem) = Some (False, m, mem)"
proof (cases "exclusive_addresses m ! p = k")
  case True
  then obtain m' where m': "CheckAndClear p a m = Some (True, m')" "monitor_ok (Unlock m')" "same_config m m'"
    "exclusive_addresses m' = released k (exclusive_addresses m)" "exclusive_values m' = exclusive_values m"
    using CheckAndClear_ok [OF assms] by auto
  have "p < length (exclusive_values m)" using p monitor_okD(2) [OF ok] by (simp add: sizes_def)
  then have "DoExclusiveOperation n p a op (m, mem) =
      (case op (take_bit (8 * n) (exclusive_values m ! p)) mem of (r, mem') \<Rightarrow> Some (r, Unlock m', mem'))"
    using m' by (simp add: DoExclusiveOperation_def split: prod.split)
  moreover have "same_config m (Unlock m')" using m'(3) by (simp add: same_config_def Unlock_def GetProcessorCount_def)
  ultimately show ?thesis using True m' by (auto simp: Unlock_def)
next
  case False
  then show ?thesis using CheckAndClear_ok [OF assms] by (simp add: DoExclusiveOperation_def)
qed

lemma Clear_ok:
  assumes ok: "monitor_ok m"
  shows "\<exists>m'. Clear m = Some m' \<and> monitor_ok m' \<and> same_config m m'
    \<and> exclusive_addresses m' = replicate (GetProcessorCount m) INVALID_EXCLUSIVE_ADDRESS \<and> exclusive_values m' = exclusive_values m"
proof -
  obtain m' where m': "Clear m = Some m'" using monitor_okD [OF ok] by (simp add: Clear_def Lock_def)
  then have f: "exclusive_addresses m' = replicate (GetProcessorCount m) INVALID_EXCLUSIVE_ADDRESS" "exclusive_values m' = exclusive_values m"
    "address_resolver m' = address_resolver m" "\<not> lock_held m'" "reservation_heads m' = (\<lambda>a. None)" "sizes m' (GetProcessorCount m)"
    "set (reservation_previous m') \<subseteq> {INVALID_PROCESSOR_ID}" "set (reservation_next m') \<subseteq> {INVALID_PROCESSOR_ID}"
    using monitor_okD [OF ok] by (auto simp: Clear_def Lock_def Unlock_def GetProcessorCount_def map_replicate_const sizes_def)
  then have h: "holders m' = (\<lambda>a. {})" by (auto simp: fun_eq_iff holders_def)
  have "index m' (GetProcessorCount m) (holders m')"
    using f by (auto simp: index_def h chain_def)
  moreover have "links_ok m' (GetProcessorCount m)" using f by (auto simp: links_ok_def)
  ultimately have "lists_ok m' (GetProcessorCount m) (holders m')" by (simp add: lists_ok_def)
  then show ?thesis using m' f by (auto simp: monitor_ok_def same_config_def GetProcessorCount_def)
qed

lemma ExclusiveMonitor_ok:
  assumes "n < INVALID_PROCESSOR_ID"
  shows "monitor_ok (SetAddressResolver r (ExclusiveMonitor n))"
proof -
  let ?m = "SetAddressResolver r (ExclusiveMonitor n)"
  have f: "reservation_heads ?m = (\<lambda>a. None)" "sizes ?m n" "set (reservation_previous ?m) \<subseteq> {INVALID_PROCESSOR_ID}"
    "set (reservation_next ?m) \<subseteq> {INVALID_PROCESSOR_ID}" "GetProcessorCount ?m = n" "\<not> lock_held ?m"
    "exclusive_addresses ?m = replicate n INVALID_EXCLUSIVE_ADDRESS"
    using assms by (auto simp: SetAddressResolver_def ExclusiveMonitor_def sizes_def GetProcessorCount_def)
  then have h: "holders ?m = (\<lambda>a. {})" by (auto simp: fun_eq_iff holders_def)
  have "index ?m n (holders ?m)" using f by (auto simp: index_def h chain_def)
  moreover have "links_ok ?m n" using f by (auto simp: links_ok_def)
  ultimately show ?thesis using f by (simp add: monitor_ok_def lists_ok_def)
qed


section \<open>The contract\<close>

text \<open>
  What the code that emulates exclusive loads and stores relies on, as laws over sequences of
  operations.  An operation is atomic: it runs from the acquisition of the lock to its release.
  \<open>Mark p k n v\<close> is an exclusive load of \<open>n\<close> bytes with value \<open>v\<close>, \<open>Store p k r\<close> an exclusive
  store with result \<open>r\<close>.
\<close>

datatype monitor_event = Mark nat vaddr nat "128 word" | Store nat vaddr bool | ClearAll | ClearOne nat

inductive trace_to :: "('s \<Rightarrow> monitor_event \<Rightarrow> 's \<Rightarrow> bool) \<Rightarrow> 's \<Rightarrow> monitor_event list \<Rightarrow> 's \<Rightarrow> bool"
  for step s where
  start: "trace_to step s [] s"
| more: "trace_to step s es t \<Longrightarrow> step t e u \<Longrightarrow> trace_to step s (es @ [e]) u"

text \<open>The events that end a reservation of processor \<open>p\<close> for address \<open>k\<close>.\<close>

fun breaks :: "nat \<Rightarrow> vaddr \<Rightarrow> monitor_event \<Rightarrow> bool" where
  "breaks p k (Mark q a n v) \<longleftrightarrow> q = p"
| "breaks p k (Store q a r) \<longleftrightarrow> a = k \<and> r"
| "breaks p k ClearAll \<longleftrightarrow> True"
| "breaks p k (ClearOne q) \<longleftrightarrow> q = p"

locale exclusive_contract =
  fixes ok :: "'s \<Rightarrow> bool"
    and reservation :: "'s \<Rightarrow> nat \<Rightarrow> vaddr option"
    and saved :: "'s \<Rightarrow> nat \<Rightarrow> 128 word"
    and step :: "'s \<Rightarrow> monitor_event \<Rightarrow> 's \<Rightarrow> bool"
  assumes step_ok: "ok s \<Longrightarrow> step s e t \<Longrightarrow> ok t"
    and mark_law: "ok s \<Longrightarrow> step s (Mark p k n v) t \<Longrightarrow>
      reservation t = (reservation s)(p := Some k) \<and> saved t = (saved s)(p := save_bytes n v (saved s p))"
    and store_law: "ok s \<Longrightarrow> step s (Store p k r) t \<Longrightarrow> saved t = saved s \<and>
      (if reservation s p = Some k then reservation t = (\<lambda>q. if reservation s q = Some k then None else reservation s q)
       else \<not> r \<and> reservation t = reservation s)"
    and clear_law: "ok s \<Longrightarrow> step s ClearAll t \<Longrightarrow> reservation t = (\<lambda>q. None) \<and> saved t = saved s"
    and clear_one_law: "ok s \<Longrightarrow> step s (ClearOne p) t \<Longrightarrow> reservation t = (reservation s)(p := None) \<and> saved t = saved s"
begin

lemma trace_ok: "trace_to step s es t \<Longrightarrow> ok s \<Longrightarrow> ok t"
  by (induction rule: trace_to.induct) (auto intro: step_ok)

lemma unbroken_step:
  assumes "ok s" "step s e t" "reservation t p = Some k" "\<forall>n v. e \<noteq> Mark p k n v"
  shows "reservation s p = Some k \<and> saved t p = saved s p \<and> \<not> breaks p k e"
proof (cases e)
  case (Mark q a n v)
  with mark_law [of s q a n v t] assms show ?thesis by (auto split: if_splits)
next
  case (Store q a r)
  with store_law [of s q a r t] assms show ?thesis by (auto split: if_splits)
next
  case ClearAll
  with clear_law assms show ?thesis by auto
next
  case (ClearOne q)
  with clear_one_law [of s q t] assms show ?thesis by (auto split: if_splits)
qed

lemma held_since_mark:
  assumes "trace_to step s es t" "ok s" "reservation s p = None" "reservation t p = Some k"
  shows "\<exists>es1 n v es2. es = es1 @ Mark p k n v # es2 \<and> list_all (\<lambda>e. \<not> breaks p k e) es2
    \<and> take_bit (8 * n) (saved t p) = take_bit (8 * n) v"
  using assms
proof (induction rule: trace_to.induct)
  case (more es t e u)
  have ok: "ok t" by (rule trace_ok [OF more.hyps(1) more.prems(1)])
  show ?case
  proof (cases "\<exists>n v. e = Mark p k n v")
    case True
    then obtain n v where e: "e = Mark p k n v" by blast
    then have "saved u p = save_bytes n v (saved t p)" using mark_law [OF ok] more.hyps(2) by simp
    then have "take_bit (8 * n) (saved u p) = take_bit (8 * n) v" by (simp add: take_bit_save_bytes)
    then show ?thesis using e by (intro exI [of _ es] exI [of _ n] exI [of _ v] exI [of _ "[]"]) simp
  next
    case False
    then have *: "reservation t p = Some k" "saved u p = saved t p" "\<not> breaks p k e"
      using unbroken_step [OF ok more.hyps(2) more.prems(3)] by blast+
    then obtain es1 n v es2 where "es = es1 @ Mark p k n v # es2" "list_all (\<lambda>e. \<not> breaks p k e) es2"
      "take_bit (8 * n) (saved t p) = take_bit (8 * n) v" using more.IH more.prems by blast
    then show ?thesis using * by (intro exI [of _ es1] exI [of _ n] exI [of _ v] exI [of _ "es2 @ [e]"]) simp
  qed
qed simp

end

subsection \<open>The monitor keeps the contract\<close>

definition reservation_of :: "monitor \<Rightarrow> nat \<Rightarrow> vaddr option" where
  "reservation_of m p = (if p < GetProcessorCount m \<and> exclusive_addresses m ! p \<noteq> INVALID_EXCLUSIVE_ADDRESS
     then Some (exclusive_addresses m ! p) else None)"

definition saved_of :: "monitor \<Rightarrow> nat \<Rightarrow> 128 word" where
  "saved_of m p = (if p < GetProcessorCount m then exclusive_values m ! p else 0)"

text \<open>
  The operations on the monitor as events.  Marks and stores of the sentinel address are not
  events: a mark of it records no reservation, and what a store to it does is shown apart below.
\<close>

inductive monitor_step :: "monitor \<times> 'mem \<Rightarrow> monitor_event \<Rightarrow> monitor \<times> 'mem \<Rightarrow> bool" where
  mark: "p < GetProcessorCount m \<Longrightarrow> key m p a = k \<Longrightarrow> k \<noteq> INVALID_EXCLUSIVE_ADDRESS \<Longrightarrow>
    ReadAndMark n p a op (m, mem) = Some (v, m', mem') \<Longrightarrow> monitor_step (m, mem) (Mark p k n v) (m', mem')"
| store: "p < GetProcessorCount m \<Longrightarrow> key m p a = k \<Longrightarrow> k \<noteq> INVALID_EXCLUSIVE_ADDRESS \<Longrightarrow>
    DoExclusiveOperation n p a rmw (m, mem) = Some (r, m', mem') \<Longrightarrow> monitor_step (m, mem) (Store p k r) (m', mem')"
| clear: "Clear m = Some m' \<Longrightarrow> monitor_step (m, mem) ClearAll (m', mem)"
| clear_one: "p < GetProcessorCount m \<Longrightarrow> ClearProcessor p m = Some m' \<Longrightarrow> monitor_step (m, mem) (ClearOne p) (m', mem)"

inductive_cases monitor_stepE:
  "monitor_step s (Mark p k n v) t" "monitor_step s (Store p k r) t" "monitor_step s ClearAll t" "monitor_step s (ClearOne p) t"

lemma mark_step:
  assumes "monitor_ok (fst s)" "monitor_step s (Mark p k n v) t"
  shows "monitor_ok (fst t) \<and> same_config (fst s) (fst t) \<and> reservation_of (fst t) = (reservation_of (fst s))(p := Some k)
    \<and> saved_of (fst t) = (saved_of (fst s))(p := save_bytes n v (saved_of (fst s) p))"
proof -
  from assms(2) obtain m mem m' mem' a op where 1: "s = (m, mem)" "t = (m', mem')" "p < GetProcessorCount m" "key m p a = k"
      "k \<noteq> INVALID_EXCLUSIVE_ADDRESS" "ReadAndMark n p a op (m, mem) = Some (v, m', mem')"
    by (rule monitor_stepE(1)) blast
  obtain v' mem'' where op: "op mem = (v', mem'')" by (cases "op mem")
  have "sizes m (GetProcessorCount m)" using assms(1) 1(1) monitor_okD(2) by simp
  then show ?thesis
    using ReadAndMark_ok [of m p a k op mem v' mem'' n, OF _ 1(3,4,5) op] assms(1) 1
    by (auto simp: reservation_of_def saved_of_def same_config_def sizes_def fun_eq_iff)
qed

lemma store_step:
  assumes "monitor_ok (fst s)" "monitor_step s (Store p k r) t"
  shows "monitor_ok (fst t) \<and> same_config (fst s) (fst t) \<and> saved_of (fst t) = saved_of (fst s) \<and>
    (if reservation_of (fst s) p = Some k
     then reservation_of (fst t) = (\<lambda>q. if reservation_of (fst s) q = Some k then None else reservation_of (fst s) q)
     else \<not> r \<and> reservation_of (fst t) = reservation_of (fst s))"
proof -
  from assms(2) obtain m mem m' mem' a n rmw where 1: "s = (m, mem)" "t = (m', mem')" "p < GetProcessorCount m" "key m p a = k"
      "k \<noteq> INVALID_EXCLUSIVE_ADDRESS" "DoExclusiveOperation n p a rmw (m, mem) = Some (r, m', mem')"
    by (rule monitor_stepE(2)) blast
  have "sizes m (GetProcessorCount m)" using assms(1) 1(1) monitor_okD(2) by simp
  moreover obtain r2 mem2 where "rmw (take_bit (8 * n) (exclusive_values m ! p)) mem = (r2, mem2)" by fastforce
  ultimately show ?thesis
    using DoExclusiveOperation_ok [of m p a k n rmw mem, OF _ 1(3,4,5)] assms(1) 1
    by (cases "exclusive_addresses m ! p = k")
      (auto simp: reservation_of_def saved_of_def same_config_def sizes_def fun_eq_iff released_def)
qed

lemma clear_step:
  assumes "monitor_ok (fst s)" "monitor_step s ClearAll t"
  shows "monitor_ok (fst t) \<and> same_config (fst s) (fst t) \<and> reservation_of (fst t) = (\<lambda>q. None) \<and> saved_of (fst t) = saved_of (fst s)"
proof -
  from assms(2) obtain m m' mem where "s = (m, mem)" "t = (m', mem)" "Clear m = Some m'"
    by (rule monitor_stepE(3)) blast
  then show ?thesis using Clear_ok [of m] assms(1)
    by (auto simp: reservation_of_def saved_of_def same_config_def fun_eq_iff)
qed

lemma clear_one_step:
  assumes "monitor_ok (fst s)" "monitor_step s (ClearOne p) t"
  shows "monitor_ok (fst t) \<and> same_config (fst s) (fst t) \<and> reservation_of (fst t) = (reservation_of (fst s))(p := None)
    \<and> saved_of (fst t) = saved_of (fst s)"
proof -
  from assms(2) obtain m m' mem where "s = (m, mem)" "t = (m', mem)" "p < GetProcessorCount m" "ClearProcessor p m = Some m'"
    by (rule monitor_stepE(4)) blast
  then show ?thesis using ClearProcessor_ok [of m p] assms(1)
    by (auto simp: reservation_of_def saved_of_def same_config_def fun_eq_iff GetProcessorCount_def)
qed

interpretation monitor: exclusive_contract "\<lambda>s. monitor_ok (fst s)" "\<lambda>s. reservation_of (fst s)" "\<lambda>s. saved_of (fst s)" monitor_step
proof unfold_locales
  fix s t :: "monitor \<times> 'a" and e
  assume "monitor_ok (fst s)" "monitor_step s e t"
  then show "monitor_ok (fst t)"
    using mark_step store_step clear_step clear_one_step by (cases e) blast+
qed (use mark_step store_step clear_step clear_one_step in blast)+

lemma monitor_trace_config:
  "trace_to monitor_step s es t \<Longrightarrow> monitor_ok (fst s) \<Longrightarrow> same_config (fst s) (fst t)"
proof (induction rule: trace_to.induct)
  case (more es t e u)
  have "monitor_ok (fst t)" using monitor.trace_ok [OF more.hyps(1)] more.prems by simp
  then have "same_config (fst t) (fst u)"
    using mark_step store_step clear_step clear_one_step more.hyps(2) by (cases e) blast+
  then show ?case using more.IH more.prems by (simp add: same_config_def)
qed (simp add: same_config_def)


section \<open>Properties\<close>


lemma fresh_trace:
  assumes "c < INVALID_PROCESSOR_ID" "p < c"
    and "trace_to monitor_step (SetAddressResolver r (ExclusiveMonitor c), mem0) es (m, mem)"
  shows "monitor_ok m" "p < GetProcessorCount m"
proof -
  have ok0: "monitor_ok (SetAddressResolver r (ExclusiveMonitor c))" by (rule ExclusiveMonitor_ok [OF assms(1)])
  then show "monitor_ok m" using monitor.trace_ok [OF assms(3)] by simp
  show "p < GetProcessorCount m"
    using monitor_trace_config [OF assms(3)] ok0 assms(2)
    by (simp add: same_config_def GetProcessorCount_def SetAddressResolver_def ExclusiveMonitor_def)
qed



text \<open>C9. Every operation of the monitor returns: after any sequence of operations, with a resolver
  or without, marking, storing and clearing end with a result and with the lock released.  In
  particular the walk along a reservation list ends, the lock is never taken twice, and no link
  of a list leads outside the vectors.  The operations are on addresses other than the sentinel
  for no reservation, which is treated apart below.\<close>

theorem exclusive_monitor_returns:
  assumes "c < INVALID_PROCESSOR_ID" "p < c"
    and "trace_to monitor_step (SetAddressResolver r (ExclusiveMonitor c), mem0) es (m, mem)"
    and "key m p a \<noteq> INVALID_EXCLUSIVE_ADDRESS"
  shows "(\<exists>v m' mem'. ReadAndMark n p a op (m, mem) = Some (v, m', mem') \<and> \<not> lock_held m')
    \<and> (\<exists>ok m' mem'. DoExclusiveOperation n p a rmw (m, mem) = Some (ok, m', mem') \<and> \<not> lock_held m')
    \<and> (\<exists>m'. Clear m = Some m' \<and> \<not> lock_held m')
    \<and> (\<exists>m'. ClearProcessor p m = Some m' \<and> \<not> lock_held m')"
proof (intro conjI)
  note ok = fresh_trace(1) [OF assms(1-3)] and p = fresh_trace(2) [OF assms(1-3)]
  obtain v mem1 where op: "op mem = (v, mem1)" by fastforce
  obtain r2 mem2 where rmw: "rmw (take_bit (8 * n) (exclusive_values m ! p)) mem = (r2, mem2)" by fastforce
  show "\<exists>v m' mem'. ReadAndMark n p a op (m, mem) = Some (v, m', mem') \<and> \<not> lock_held m'"
    using ReadAndMark_ok [OF ok p refl assms(4), of op mem v mem1 n] op monitor_okD(3) by blast
  show "\<exists>ok m' mem'. DoExclusiveOperation n p a rmw (m, mem) = Some (ok, m', mem') \<and> \<not> lock_held m'"
    using DoExclusiveOperation_ok [OF ok p refl assms(4), of n rmw mem] rmw monitor_okD(3) ok by (auto split: if_splits)
  show "\<exists>m'. Clear m = Some m' \<and> \<not> lock_held m'" using Clear_ok [OF ok] monitor_okD(3) by blast
  show "\<exists>m'. ClearProcessor p m = Some m' \<and> \<not> lock_held m'" using ClearProcessor_ok [OF ok p] monitor_okD(3) by blast
qed



text \<open>Processor 0 of two loads and stores the same address.\<close>

definition example_marked :: monitor where
  "example_marked = \<lparr>lock_held = False, address_resolver = None,
     exclusive_addresses = [0x1000, INVALID_EXCLUSIVE_ADDRESS], exclusive_values = [7, 0],
     reservation_previous = [INVALID_PROCESSOR_ID, INVALID_PROCESSOR_ID],
     reservation_next = [INVALID_PROCESSOR_ID, INVALID_PROCESSOR_ID], reservation_heads = [0x1000 \<mapsto> 0]\<rparr>"

lemma example_key: "key (ExclusiveMonitor 2) 0 0x1000 = 0x1000" "key example_marked 0 0x1000 = 0x1000"
  by (simp_all add: key_def ResolveAddress_def ExclusiveMonitor_def example_marked_def RESERVATION_GRANULE_MASK_def)

lemma example_read: "ReadAndMark 4 0 0x1000 (\<lambda>mem. (7, mem)) (SetAddressResolver None (ExclusiveMonitor 2), ()) = Some (7, example_marked, ())"
  by (simp add: ReadAndMark_def ExclusiveMonitor_def SetAddressResolver_def Lock_def Unlock_def ResolveAddress_def RemoveReservation_def AddReservation_def
      RESERVATION_GRANULE_MASK_def example_marked_def save_bytes_def numeral_2_eq_2 INVALID_EXCLUSIVE_ADDRESS_def)

lemma example_trace: "trace_to monitor_step (SetAddressResolver None (ExclusiveMonitor 2), ()) [Mark 0 0x1000 4 7] (example_marked, ())"
proof -
  have "monitor_step (SetAddressResolver None (ExclusiveMonitor 2), ()) (Mark 0 0x1000 4 7) (example_marked, ())"
    by (rule monitor_step.mark [OF _ _ _ example_read])
      (simp_all add: GetProcessorCount_def SetAddressResolver_def ExclusiveMonitor_def key_def ResolveAddress_def RESERVATION_GRANULE_MASK_def INVALID_EXCLUSIVE_ADDRESS_def)
  then show ?thesis using trace_to.more [OF trace_to.start] by fastforce
qed




theorem exclusive_monitor_returns_witness:
  "\<exists>ok m' mem'. DoExclusiveOperation 4 0 0x1000 (\<lambda>v mem. (v = 7, mem)) (example_marked, ()) = Some (ok, m', mem') \<and> \<not> lock_held m'"
  using exclusive_monitor_returns [OF _ _ example_trace, where p = 0 and a = "0x1000" and n = 4
    and op = "\<lambda>mem. (7, mem)" and rmw = "\<lambda>v mem. (v = 7, mem)"]
  by (simp add: example_key INVALID_PROCESSOR_ID_def INVALID_EXCLUSIVE_ADDRESS_def)

end
