(* ===== verification/Jit_State.thy ===== *)
theory Jit_State
  imports Location "HOL-Library.Monad_Syntax"
begin

text \<open>
  The guest state that generated code works on, for the three back ends: how the status registers
  of the guest are stored in host-friendly formats, how they are read and written by the
  embedder, and how the state names the location of the next block.
\<close>

section \<open>Flag formats (x64/nzcv_util.h)\<close>

definition arm_mask :: u32 where "arm_mask = 0xF0000000"
definition x64_mask :: u32 where "x64_mask = 0xC101"
definition to_x64_multiplier :: u32 where "to_x64_multiplier = 0x1081"
definition from_x64_multiplier :: u32 where "from_x64_multiplier = 0x10210000"

definition ToX64 :: "u32 \<Rightarrow> u32" where
  "ToX64 nzcv = (drop_bit 28 nzcv * to_x64_multiplier) AND x64_mask"

definition FromX64 :: "u32 \<Rightarrow> u32" where
  "FromX64 x64_flags = ((x64_flags AND x64_mask) * from_x64_multiplier) AND arm_mask"

text \<open>The reference implementations that the comments of the two functions give.\<close>

definition ToX64_naive :: "u32 \<Rightarrow> u32" where
  "ToX64_naive v =
     (if get_bit 31 v then 0x8000 else 0) OR (if get_bit 30 v then 0x4000 else 0) OR
     (if get_bit 29 v then 0x100 else 0) OR (if get_bit 28 v then 1 else 0)"

definition FromX64_naive :: "u32 \<Rightarrow> u32" where
  "FromX64_naive v =
     (if get_bit 15 v then 0x80000000 else 0) OR (if get_bit 14 v then 0x40000000 else 0) OR
     (if get_bit 8 v then 0x20000000 else 0) OR (if get_bit 0 v then 0x10000000 else 0)"

section \<open>AArch32 state of the x64 back end (x64/a32_jitstate.h, .cpp)\<close>

text \<open>The link cells, which are pointers, the block budget of the run loop and the statistics
  counters are left out; no operation below reads or writes them.\<close>

record x64_A32JitState =
  x64_Reg :: "u32 list"
  x64_upper_location_descriptor :: u32
  x64_cpsr_ge :: u32
  x64_cpsr_q :: u32
  x64_cpsr_nzcv :: u32
  x64_cpsr_jaifm :: u32
  x64_ExtReg :: "u32 list"
  x64_guest_MXCSR :: u32
  x64_asimd_MXCSR :: u32
  x64_halt_reason :: u32
  x64_exclusive_state :: u32
  x64_rsb_ptr :: u32
  x64_rsb_location_descriptors :: "u64 list"
  x64_rsb_codeptrs :: "u64 list"
  x64_fpsr_exc :: u32
  x64_fpsr_qc :: u32
  x64_fpsr_nzcv :: u32

definition RSBSize :: nat where "RSBSize = 8"

definition x64_ResetRSB :: "x64_A32JitState \<Rightarrow> x64_A32JitState" where
  "x64_ResetRSB s = s\<lparr>x64_rsb_location_descriptors := replicate RSBSize 0xFFFFFFFFFFFFFFFF,
                       x64_rsb_codeptrs := replicate RSBSize 0\<rparr>"

definition x64_A32JitState_init :: x64_A32JitState where
  "x64_A32JitState_init = x64_ResetRSB
     \<lparr>x64_Reg = replicate 16 0, x64_upper_location_descriptor = 0, x64_cpsr_ge = 0, x64_cpsr_q = 0, x64_cpsr_nzcv = 0,
      x64_cpsr_jaifm = 0, x64_ExtReg = replicate 64 0, x64_guest_MXCSR = 0x1F80, x64_asimd_MXCSR = 0x9FC0,
      x64_halt_reason = 0, x64_exclusive_state = 0, x64_rsb_ptr = 0, x64_rsb_location_descriptors = [],
      x64_rsb_codeptrs = [], x64_fpsr_exc = 0, x64_fpsr_qc = 0, x64_fpsr_nzcv = 0\<rparr>"

text \<open>The bits of the CPSR that every back end keeps in the upper half of the location descriptor
  and in the byte mask of the GE flags.\<close>

definition cpsr_of_upper :: "u32 \<Rightarrow> u32 \<Rightarrow> u32" where
  "cpsr_of_upper ge upper =
     (if get_bit 31 ge then 0x80000 else 0) OR (if get_bit 23 ge then 0x40000 else 0) OR
     (if get_bit 15 ge then 0x20000 else 0) OR (if get_bit 7 ge then 0x10000 else 0) OR
     (if get_bit 1 upper then 0x200 else 0) OR (if get_bit 0 upper then 0x20 else 0) OR
     (upper AND 0xFC00) OR push_bit 17 (upper AND 0x300)"

definition ge_of_cpsr :: "u32 \<Rightarrow> u32" where
  "ge_of_cpsr w =
     (if get_bit 19 w then 0xFF000000 else 0) OR (if get_bit 18 w then 0x00FF0000 else 0) OR
     (if get_bit 17 w then 0x0000FF00 else 0) OR (if get_bit 16 w then 0x000000FF else 0)"

definition upper_of_cpsr :: "u32 \<Rightarrow> u32 \<Rightarrow> u32" where
  "upper_of_cpsr upper w =
     (upper AND 0xFFFF0000) OR (if get_bit 9 w then 2 else 0) OR (if get_bit 5 w then 1 else 0) OR
     (w AND 0xFC00) OR (drop_bit 17 w AND 0x300)"

definition x64_Cpsr :: "x64_A32JitState \<Rightarrow> u32 option" where
  "x64_Cpsr s = do {
     assert_opt (x64_cpsr_q s AND NOT 1 = 0);
     assert_opt (x64_cpsr_jaifm s AND NOT 0x010001DF = 0);
     Some (FromX64 (x64_cpsr_nzcv s) OR (if x64_cpsr_q s \<noteq> 0 then 0x8000000 else 0) OR
           cpsr_of_upper (x64_cpsr_ge s) (x64_upper_location_descriptor s) OR x64_cpsr_jaifm s) }"

definition x64_SetCpsr :: "x64_A32JitState \<Rightarrow> u32 \<Rightarrow> x64_A32JitState" where
  "x64_SetCpsr s w =
     s\<lparr>x64_cpsr_nzcv := ToX64 w, x64_cpsr_q := (if get_bit 27 w then 1 else 0), x64_cpsr_ge := ge_of_cpsr w,
       x64_upper_location_descriptor := upper_of_cpsr (x64_upper_location_descriptor s) w,
       x64_cpsr_jaifm := w AND 0x010001DF\<rparr>"

definition FPSCR_NZCV_MASK :: u32 where "FPSCR_NZCV_MASK = 0xF0000000"

text \<open>The exception flags that the host has raised, in the layout of the guest.\<close>

definition exc_of_mxcsr :: "u32 \<Rightarrow> u32" where
  "exc_of_mxcsr mxcsr = (mxcsr AND 1) OR drop_bit 1 (mxcsr AND 0x3C)"

definition MXCSR_RMode :: "u32 list" where "MXCSR_RMode = [0, 0x4000, 0x2000, 0x6000]"

definition x64_Fpscr :: "x64_A32JitState \<Rightarrow> u32 option" where
  "x64_Fpscr s = do {
     assert_opt (x64_fpsr_nzcv s AND NOT FPSCR_NZCV_MASK = 0);
     let fpcr_mode = x64_upper_location_descriptor s AND FPSCR_MODE_MASK;
     Some (fpcr_mode OR x64_fpsr_nzcv s OR exc_of_mxcsr (x64_guest_MXCSR s OR x64_asimd_MXCSR s) OR
           x64_fpsr_exc s OR (if x64_fpsr_qc s \<noteq> 0 then 0x8000000 else 0)) }"

definition x64_SetFpscr :: "x64_A32JitState \<Rightarrow> u32 \<Rightarrow> x64_A32JitState" where
  "x64_SetFpscr s f =
     s\<lparr>x64_upper_location_descriptor := (x64_upper_location_descriptor s AND 0xFFFF) OR (f AND FPSCR_MODE_MASK),
       x64_fpsr_nzcv := f AND FPSCR_NZCV_MASK, x64_fpsr_qc := drop_bit 27 f AND 1,
       x64_asimd_MXCSR := 0x9FC0, x64_fpsr_exc := f AND 0x9F,
       x64_guest_MXCSR := (0x1F80 OR MXCSR_RMode ! unat (drop_bit 22 f AND 3)) OR (if get_bit 24 f then 0x8040 else 0)\<rparr>"

definition x64_A32_GetUniqueHash :: "x64_A32JitState \<Rightarrow> u64" where
  "x64_A32_GetUniqueHash s = push_bit 32 (ucast (x64_upper_location_descriptor s)) OR ucast (x64_Reg s ! 15)"

definition x64_TransferJitState :: "x64_A32JitState \<Rightarrow> x64_A32JitState \<Rightarrow> bool \<Rightarrow> x64_A32JitState" where
  "x64_TransferJitState s src reset_rsb =
     (let s = s\<lparr>x64_Reg := x64_Reg src, x64_upper_location_descriptor := x64_upper_location_descriptor src,
                x64_cpsr_ge := x64_cpsr_ge src, x64_cpsr_q := x64_cpsr_q src, x64_cpsr_nzcv := x64_cpsr_nzcv src,
                x64_cpsr_jaifm := x64_cpsr_jaifm src, x64_ExtReg := x64_ExtReg src,
                x64_guest_MXCSR := x64_guest_MXCSR src, x64_asimd_MXCSR := x64_asimd_MXCSR src,
                x64_fpsr_exc := x64_fpsr_exc src, x64_fpsr_qc := x64_fpsr_qc src, x64_fpsr_nzcv := x64_fpsr_nzcv src,
                x64_exclusive_state := 0\<rparr>
      in if reset_rsb then x64_ResetRSB s
         else s\<lparr>x64_rsb_ptr := x64_rsb_ptr src, x64_rsb_location_descriptors := x64_rsb_location_descriptors src,
                x64_rsb_codeptrs := x64_rsb_codeptrs src\<rparr>)"

section \<open>AArch32 state of the arm64 and riscv64 back ends (arm64/a32_jitstate, riscv64/a32_jitstate)\<close>

record arm64_A32JitState =
  arm64_cpsr_nzcv :: u32
  arm64_cpsr_q :: u32
  arm64_cpsr_jaifm :: u32
  arm64_cpsr_ge :: u32
  arm64_fpsr :: u32
  arm64_fpsr_nzcv :: u32
  arm64_regs :: "u32 list"
  arm64_upper_location_descriptor :: u32
  arm64_ext_regs :: "u32 list"
  arm64_exclusive_state :: u32
  arm64_halt_reason :: u32

definition arm64_A32JitState_init :: arm64_A32JitState where
  "arm64_A32JitState_init =
     \<lparr>arm64_cpsr_nzcv = 0, arm64_cpsr_q = 0, arm64_cpsr_jaifm = 0, arm64_cpsr_ge = 0, arm64_fpsr = 0, arm64_fpsr_nzcv = 0,
      arm64_regs = replicate 16 0, arm64_upper_location_descriptor = 0, arm64_ext_regs = replicate 64 0,
      arm64_exclusive_state = 0, arm64_halt_reason = 0\<rparr>"

definition arm64_Cpsr :: "arm64_A32JitState \<Rightarrow> u32" where
  "arm64_Cpsr s = arm64_cpsr_nzcv s OR arm64_cpsr_q s OR
     cpsr_of_upper (arm64_cpsr_ge s) (arm64_upper_location_descriptor s) OR arm64_cpsr_jaifm s"

definition arm64_SetCpsr :: "arm64_A32JitState \<Rightarrow> u32 \<Rightarrow> arm64_A32JitState" where
  "arm64_SetCpsr s w =
     s\<lparr>arm64_cpsr_nzcv := w AND 0xF0000000, arm64_cpsr_q := w AND 0x8000000, arm64_cpsr_ge := ge_of_cpsr w,
       arm64_upper_location_descriptor := upper_of_cpsr (arm64_upper_location_descriptor s) w,
       arm64_cpsr_jaifm := w AND 0x010001DF\<rparr>"

definition arm64_Fpscr :: "arm64_A32JitState \<Rightarrow> u32" where
  "arm64_Fpscr s = (arm64_upper_location_descriptor s AND 0xFFFF0000) OR arm64_fpsr s OR arm64_fpsr_nzcv s"

definition arm64_SetFpscr :: "arm64_A32JitState \<Rightarrow> u32 \<Rightarrow> arm64_A32JitState" where
  "arm64_SetFpscr s f =
     s\<lparr>arm64_fpsr_nzcv := f AND 0xF0000000, arm64_fpsr := f AND 0x0800009F,
       arm64_upper_location_descriptor := (arm64_upper_location_descriptor s AND 0xFFFF) OR (f AND FPSCR_MODE_MASK)\<rparr>"

definition arm64_GetLocationDescriptor :: "arm64_A32JitState \<Rightarrow> IR_LocationDescriptor" where
  "arm64_GetLocationDescriptor s = ucast (arm64_regs s ! 15) OR push_bit 32 (ucast (arm64_upper_location_descriptor s))"

record rv64_A32JitState =
  rv64_cpsr_nzcv :: u32
  rv64_cpsr_q :: u32
  rv64_cpsr_jaifm :: u32
  rv64_cpsr_ge :: u32
  rv64_fpsr :: u32
  rv64_fpsr_nzcv :: u32
  rv64_regs :: "u32 list"
  rv64_upper_location_descriptor :: u32
  rv64_ext_regs :: "u32 list"
  rv64_exclusive_state :: u32

text \<open>
  Every member but \<^verbatim>\<open>upper_location_descriptor\<close> has an initializer; the state of the emulator
  is declared with empty braces (\<^verbatim>\<open>A32JitState current_state{}\<close> in
  \<^verbatim>\<open>backend/riscv64/a32_interface.cpp\<close>), which zeroes that member.
\<close>

definition rv64_A32JitState_init :: rv64_A32JitState where
  "rv64_A32JitState_init =
     \<lparr>rv64_cpsr_nzcv = 0, rv64_cpsr_q = 0, rv64_cpsr_jaifm = 0, rv64_cpsr_ge = 0, rv64_fpsr = 0, rv64_fpsr_nzcv = 0,
      rv64_regs = replicate 16 0, rv64_upper_location_descriptor = 0, rv64_ext_regs = replicate 64 0,
      rv64_exclusive_state = 0\<rparr>"

definition rv64_Cpsr :: "rv64_A32JitState \<Rightarrow> u32" where
  "rv64_Cpsr s = rv64_cpsr_nzcv s OR rv64_cpsr_q s OR
     cpsr_of_upper (rv64_cpsr_ge s) (rv64_upper_location_descriptor s) OR rv64_cpsr_jaifm s"

definition rv64_SetCpsr :: "rv64_A32JitState \<Rightarrow> u32 \<Rightarrow> rv64_A32JitState" where
  "rv64_SetCpsr s w =
     s\<lparr>rv64_cpsr_nzcv := w AND 0xF0000000, rv64_cpsr_q := w AND 0x8000000, rv64_cpsr_ge := ge_of_cpsr w,
       rv64_upper_location_descriptor := upper_of_cpsr (rv64_upper_location_descriptor s) w,
       rv64_cpsr_jaifm := w AND 0x010001DF\<rparr>"

definition rv64_Fpscr :: "rv64_A32JitState \<Rightarrow> u32" where
  "rv64_Fpscr s = (rv64_upper_location_descriptor s AND 0xFFFF0000) OR rv64_fpsr s"

definition rv64_SetFpscr :: "rv64_A32JitState \<Rightarrow> u32 \<Rightarrow> rv64_A32JitState" where
  "rv64_SetFpscr s f =
     s\<lparr>rv64_fpsr := f AND 0xF800009F,
       rv64_upper_location_descriptor := (rv64_upper_location_descriptor s AND 0xFFFF) OR (f AND FPSCR_MODE_MASK)\<rparr>"

definition rv64_GetLocationDescriptor :: "rv64_A32JitState \<Rightarrow> IR_LocationDescriptor" where
  "rv64_GetLocationDescriptor s = ucast (rv64_regs s ! 15) OR push_bit 32 (ucast (rv64_upper_location_descriptor s))"

section \<open>AArch64 state of the x64 back end (x64/a64_jitstate.h, .cpp)\<close>

record x64_A64JitState =
  a64_reg :: "u64 list"
  a64_sp :: u64
  a64_state_pc :: u64
  a64_cpsr_nzcv :: u32
  a64_vec :: "u64 list"
  a64_guest_MXCSR :: u32
  a64_asimd_MXCSR :: u32
  a64_halt_reason :: u32
  a64_exclusive_state :: u8
  a64_rsb_ptr :: u32
  a64_rsb_location_descriptors :: "u64 list"
  a64_rsb_codeptrs :: "u64 list"
  a64_fpsr_exc :: u32
  a64_fpsr_qc :: u32
  a64_fpcr :: u32

definition a64_ResetRSB :: "x64_A64JitState \<Rightarrow> x64_A64JitState" where
  "a64_ResetRSB s = s\<lparr>a64_rsb_location_descriptors := replicate RSBSize 0xFFFFFFFFFFFFFFFF,
                       a64_rsb_codeptrs := replicate RSBSize 0\<rparr>"

definition FPCR_MASK :: u32 where "FPCR_MASK = 0x07C89F00"

definition GetPstate :: "x64_A64JitState \<Rightarrow> u32" where
  "GetPstate s = FromX64 (a64_cpsr_nzcv s)"

definition SetPstate :: "x64_A64JitState \<Rightarrow> u32 \<Rightarrow> x64_A64JitState" where
  "SetPstate s new_pstate = s\<lparr>a64_cpsr_nzcv := ToX64 new_pstate\<rparr>"

definition GetFpcr :: "x64_A64JitState \<Rightarrow> u32" where
  "GetFpcr s = a64_fpcr s"

definition SetFpcr :: "x64_A64JitState \<Rightarrow> u32 \<Rightarrow> x64_A64JitState" where
  "SetFpcr s v =
     s\<lparr>a64_fpcr := v AND FPCR_MASK, a64_asimd_MXCSR := (a64_asimd_MXCSR s AND 0x3D) OR 0x1F80,
       a64_guest_MXCSR := (((a64_guest_MXCSR s AND 0x3D) OR 0x1F80) OR MXCSR_RMode ! unat (drop_bit 22 v AND 3)) OR
         (if get_bit 24 v then 0x8040 else 0)\<rparr>"

definition GetFpsr :: "x64_A64JitState \<Rightarrow> u32" where
  "GetFpsr s = exc_of_mxcsr (a64_guest_MXCSR s OR a64_asimd_MXCSR s) OR a64_fpsr_exc s OR
     push_bit 27 (if a64_fpsr_qc s = 0 then 0 else 1)"

definition SetFpsr :: "x64_A64JitState \<Rightarrow> u32 \<Rightarrow> x64_A64JitState" where
  "SetFpsr s v =
     s\<lparr>a64_guest_MXCSR := a64_guest_MXCSR s AND NOT 0x3D, a64_asimd_MXCSR := a64_asimd_MXCSR s AND NOT 0x3D,
       a64_fpsr_qc := drop_bit 27 v AND 1, a64_fpsr_exc := v AND 0x9F\<rparr>"

definition x64_A64_GetUniqueHash :: "x64_A64JitState \<Rightarrow> u64" where
  "x64_A64_GetUniqueHash s = (a64_state_pc s AND pc_mask) OR push_bit fpcr_shift (ucast (a64_fpcr s AND fpcr_mask))"

section \<open>Flag formats\<close>

lemma of_bool_word_32: "drop_bit 28 (w :: u32) = (if bit w 31 then 8 else 0) OR (if bit w 30 then 4 else 0) OR
   (if bit w 29 then 2 else 0) OR (if bit w 28 then 1 else 0)"
  by (simp add: bits32 bit_or_iff bit_drop_bit_eq if_distrib [of "\<lambda>x. bit x _"])

lemma x64_flags_split: "(w :: u32) AND 0xC101 = (if bit w 15 then 0x8000 else 0) OR (if bit w 14 then 0x4000 else 0) OR
   (if bit w 8 then 0x100 else 0) OR (if bit w 0 then 1 else 0)"
  by (simp add: bits32 bit_or_iff bit_and_iff if_distrib [of "\<lambda>x. bit x _"])

lemma ToX64_eq: "ToX64 v = ToX64_naive v"
  unfolding ToX64_def ToX64_naive_def of_bool_word_32 to_x64_multiplier_def x64_mask_def
  by (simp add: get_bit_iff_bit)

lemma FromX64_eq: "FromX64 v = FromX64_naive v"
  unfolding FromX64_def FromX64_naive_def x64_mask_def x64_flags_split from_x64_multiplier_def arm_mask_def
  by (simp add: get_bit_iff_bit)



lemmas bit32_simps = bits32 bit_or_iff bit_and_iff bit_not_iff bit_drop_bit_eq bit_push_bit_iff get_bit_iff_bit if_distrib [of "\<lambda>x. bit x _"]

text \<open>Bits of the packed values at the positions that the readers look at.\<close>

lemmas bit_at_simps = bit_or_iff bit_and_iff bit_not_iff bit_drop_bit_eq bit_push_bit_iff get_bit_iff_bit if_distrib [of "\<lambda>x. bit x _"]

lemma ToX64_bits:
  "bit (ToX64 v) 15 = bit v 31" "bit (ToX64 v) 14 = bit v 30" "bit (ToX64 v) 8 = bit v 29" "bit (ToX64 v) 0 = bit v 28"
  unfolding ToX64_eq ToX64_naive_def by (simp_all add: bit_at_simps)

lemma FromX64_ToX64: "FromX64 (ToX64 v) = v AND arm_mask"
  unfolding FromX64_eq FromX64_naive_def
  by (simp add: get_bit_iff_bit ToX64_bits arm_mask_def bit32_simps)

section \<open>Fields of the status registers\<close>

lemma ge_of_cpsr_bits:
  "bit (ge_of_cpsr w) 31 = bit w 19" "bit (ge_of_cpsr w) 23 = bit w 18" "bit (ge_of_cpsr w) 15 = bit w 17" "bit (ge_of_cpsr w) 7 = bit w 16"
  unfolding ge_of_cpsr_def by (simp_all add: bit_at_simps)

lemma upper_of_cpsr_bits:
  "bit (upper_of_cpsr u w) 0 = bit w 5" "bit (upper_of_cpsr u w) (Suc 0) = bit w 9"
  unfolding upper_of_cpsr_def by (simp_all add: bit_at_simps)

lemma upper_of_cpsr_masks:
  "upper_of_cpsr u w AND 0xFC00 = w AND 0xFC00" "upper_of_cpsr u w AND 0x300 = drop_bit 17 w AND 0x300"
  "upper_of_cpsr u w AND FPSCR_MODE_MASK = u AND FPSCR_MODE_MASK"
  "upper_of_cpsr u w AND 0xFFFF0000 = u AND 0xFFFF0000"
  unfolding upper_of_cpsr_def FPSCR_MODE_MASK_def by (simp_all add: bit32_simps)

lemma cpsr_of_upper_of_cpsr: "cpsr_of_upper (ge_of_cpsr w) (upper_of_cpsr u w) = w AND 0x060FFE20"
  unfolding cpsr_of_upper_def upper_of_cpsr_masks
  by (simp add: get_bit_iff_bit ge_of_cpsr_bits upper_of_cpsr_bits bit32_simps)

lemma mode_upper_masks:
  "((u AND 0xFFFF) OR (f AND FPSCR_MODE_MASK)) AND 0xFC00 = u AND 0xFC00"
  "((u AND 0xFFFF) OR (f AND FPSCR_MODE_MASK)) AND 0x300 = u AND 0x300"
  "((u AND 0xFFFF) OR (f AND FPSCR_MODE_MASK)) AND FPSCR_MODE_MASK = f AND FPSCR_MODE_MASK"
  "((u AND 0xFFFF) OR (f AND FPSCR_MODE_MASK)) AND 0xFFFF0000 = f AND FPSCR_MODE_MASK"
  "get_bit 0 ((u AND 0xFFFF) OR (f AND FPSCR_MODE_MASK)) = get_bit 0 u"
  "get_bit 1 ((u AND 0xFFFF) OR (f AND FPSCR_MODE_MASK)) = get_bit 1 u"
  unfolding FPSCR_MODE_MASK_def by (simp_all add: bit32_simps)

lemma cpsr_of_upper_mode: "cpsr_of_upper g ((u AND 0xFFFF) OR (f AND FPSCR_MODE_MASK)) = cpsr_of_upper g u"
  unfolding cpsr_of_upper_def mode_upper_masks by (rule refl)


text \<open>The hash of a location is its program counter below the packed mode bits.\<close>

lemma A32_hash_upper:
  "A32_UniqueHash (A32_make pc c f False) = ucast pc OR push_bit 32 (ucast (upper_of_cpsr (f AND FPSCR_MODE_MASK) c))"
proof (rule bit_word_eqI)
  fix n assume n: "n < LENGTH(64)"
  define u where "u = upper_of_cpsr (f AND FPSCR_MODE_MASK) c"
  define d where "d = A32_make pc c f False"
  have up: "\<forall>k<32. bit u k = (bit (fpscr d) k \<or> (k = 0 \<and> PSR_T (cpsr d)) \<or> (k = 1 \<and> PSR_E (cpsr d)) \<or> (8 \<le> k \<and> bit (PSR_IT (cpsr d)) (k - 8)))"
    unfolding u_def d_def upper_of_cpsr_def A32_make_def make_masks
    by (simp add: all_less_32 all_less_16 all_less_8 PSR_flag_bits bit_PSR_IT CPSR_MODE_MASK_def FPSCR_MODE_MASK_def bit_at_simps)
  show "bit (A32_UniqueHash (A32_make pc c f False)) n = bit (ucast pc OR push_bit 32 (ucast (upper_of_cpsr (f AND FPSCR_MODE_MASK) c)) :: u64) n"
  proof (cases "n < 32")
    case True
    then show ?thesis
      by (simp add: bit_A32_UniqueHash A32_make_def bit_or_iff bit_push_bit_iff bit_unsigned_iff)
  next
    case False
    then have "bit u (n - 32) = bit (A32_UniqueHash d) n"
      using up [rule_format, of "n - 32"] n by (auto simp: bit_A32_UniqueHash d_def A32_make_def)
    then show ?thesis
      using False n by (auto simp: bit_or_iff bit_push_bit_iff bit_unsigned_iff u_def d_def)
  qed
qed

section \<open>The interface of the guest status\<close>

text \<open>
  The run loop and the embedder see the state of a back end through the two status registers and
  the location of the current block.  The locale states what they rely on; \<open>valid\<close> is the
  representation invariant of a back end.
\<close>

definition FPSCR_state_mask :: u32 where "FPSCR_state_mask = 0xFFF7009F"

datatype status_write = WriteCpsr u32 | WriteFpscr u32

fun status_writes :: "('s \<Rightarrow> u32 \<Rightarrow> 's) \<Rightarrow> ('s \<Rightarrow> u32 \<Rightarrow> 's) \<Rightarrow> status_write list \<Rightarrow> 's \<Rightarrow> 's" where
  "status_writes set_cpsr set_fpscr [] s = s"
| "status_writes set_cpsr set_fpscr (WriteCpsr c # ws) s = status_writes set_cpsr set_fpscr ws (set_cpsr s c)"
| "status_writes set_cpsr set_fpscr (WriteFpscr f # ws) s = status_writes set_cpsr set_fpscr ws (set_fpscr s f)"

text \<open>The registers that a sequence of writes leaves, from the values before it.\<close>

fun last_cpsr :: "u32 \<Rightarrow> status_write list \<Rightarrow> u32" where
  "last_cpsr c [] = c"
| "last_cpsr c (WriteCpsr d # ws) = last_cpsr (PSR_make d) ws"
| "last_cpsr c (WriteFpscr f # ws) = last_cpsr c ws"

fun last_fpscr :: "u32 \<Rightarrow> status_write list \<Rightarrow> u32" where
  "last_fpscr f [] = f"
| "last_fpscr f (WriteCpsr d # ws) = last_fpscr f ws"
| "last_fpscr f (WriteFpscr g # ws) = last_fpscr (g AND FPSCR_state_mask) ws"

locale guest_status =
  fixes valid :: "'s \<Rightarrow> bool"
    and get_cpsr :: "'s \<Rightarrow> u32 option" and set_cpsr :: "'s \<Rightarrow> u32 \<Rightarrow> 's"
    and get_fpscr :: "'s \<Rightarrow> u32 option" and set_fpscr :: "'s \<Rightarrow> u32 \<Rightarrow> 's"
    and pc :: "'s \<Rightarrow> u32" and location :: "'s \<Rightarrow> u64"
  assumes valid_set: "valid s \<Longrightarrow> valid (set_cpsr s c)" "valid s \<Longrightarrow> valid (set_fpscr s f)"
    and get_set: "get_cpsr (set_cpsr s c) = Some (PSR_make c)" "get_fpscr (set_fpscr s f) = Some (f AND FPSCR_state_mask)"
    and get_other: "get_cpsr (set_fpscr s f) = get_cpsr s" "get_fpscr (set_cpsr s c) = get_fpscr s"
    and pc_set: "pc (set_cpsr s c) = pc s" "pc (set_fpscr s f) = pc s"
    and location_law: "valid s \<Longrightarrow> get_cpsr s = Some c \<Longrightarrow> get_fpscr s = Some f \<Longrightarrow>
      location s = A32_UniqueHash (A32_make (pc s) c f False)"
begin

lemma write_observed:
  assumes "valid s" "get_cpsr s = Some c" "get_fpscr s = Some f"
  shows "valid (status_writes set_cpsr set_fpscr ws s)
    \<and> get_cpsr (status_writes set_cpsr set_fpscr ws s) = Some (last_cpsr c ws)
    \<and> get_fpscr (status_writes set_cpsr set_fpscr ws s) = Some (last_fpscr f ws)
    \<and> pc (status_writes set_cpsr set_fpscr ws s) = pc s"
  using assms
proof (induction ws arbitrary: s c f)
  case (Cons w ws)
  then show ?case by (cases w) (simp_all add: valid_set get_set get_other pc_set)
qed simp

lemma location_observed:
  assumes "valid s" "get_cpsr s = Some c" "get_fpscr s = Some f"
  shows "location (status_writes set_cpsr set_fpscr ws s) = A32_UniqueHash (A32_make (pc s) (last_cpsr c ws) (last_fpscr f ws) False)"
  using write_observed [OF assms, of ws] location_law by metis

end

subsection \<open>Packing the location\<close>

lemma upper_of_cpsr_masked: "upper_of_cpsr u (c AND 0x0600FE20) = upper_of_cpsr u c"
  unfolding upper_of_cpsr_def by (simp add: bit32_simps)

lemma cpsr_of_upper_bits:
  "bit (cpsr_of_upper g u) 9 = bit u 1" "bit (cpsr_of_upper g u) 5 = bit u 0"
  unfolding cpsr_of_upper_def by (simp_all add: bit_at_simps)

lemma cpsr_of_upper_masks:
  "cpsr_of_upper g u AND 0xFC00 = u AND 0xFC00" "drop_bit 17 (cpsr_of_upper g u) AND 0x300 = u AND 0x300"
  unfolding cpsr_of_upper_def by (simp_all add: bit32_simps)

lemma upper_of_cpsr_of_upper:
  "upper_of_cpsr (u AND FPSCR_MODE_MASK) (cpsr_of_upper g u) = u AND 0x07F7FF03"
  unfolding upper_of_cpsr_def cpsr_of_upper_masks
  by (simp add: get_bit_iff_bit cpsr_of_upper_bits FPSCR_MODE_MASK_def bit32_simps)

lemma location_packed:
  assumes "c AND 0x0600FE20 = cpsr_of_upper g u AND 0x0600FE20" "f AND FPSCR_MODE_MASK = u AND FPSCR_MODE_MASK" "u AND 0x07F7FF03 = u"
  shows "upper_of_cpsr (f AND FPSCR_MODE_MASK) c = u"
  by (metis assms upper_of_cpsr_masked upper_of_cpsr_of_upper)

lemma masked_part: "x AND m = x \<Longrightarrow> m AND n = 0 \<Longrightarrow> x AND n = (0 :: u32)"
  by (metis and.assoc and_zero_eq)

lemma FromX64_range: "FromX64 v AND 0xF0000000 = FromX64 v"
  by (simp add: FromX64_def arm_mask_def and.assoc)

lemma exc_of_mxcsr_range: "exc_of_mxcsr v AND 0x1F = exc_of_mxcsr v"
  by (simp add: exc_of_mxcsr_def bit32_simps)


lemma and_or_parts: "(x OR y) AND m = (x AND m) OR (y AND m :: u32)"
  by (rule bit.conj_disj_distrib2)

subsection \<open>The x64 back end\<close>

definition x64_valid :: "x64_A32JitState \<Rightarrow> bool" where
  "x64_valid s \<longleftrightarrow> x64_upper_location_descriptor s AND 0x07F7FF03 = x64_upper_location_descriptor s
     \<and> x64_cpsr_jaifm s AND 0x010001DF = x64_cpsr_jaifm s \<and> x64_fpsr_exc s AND 0x9F = x64_fpsr_exc s
     \<and> x64_fpsr_nzcv s AND FPSCR_NZCV_MASK = x64_fpsr_nzcv s"

lemma upper_valid:
  "u AND 0x07F7FF03 = u \<Longrightarrow> upper_of_cpsr u w AND 0x07F7FF03 = upper_of_cpsr u w"
  "((u AND 0xFFFF) OR (f AND FPSCR_MODE_MASK)) AND 0x07F7FF03 = ((u AND 0x07F7FF03) AND 0xFFFF) OR (f AND FPSCR_MODE_MASK)"
proof -
  assume u: "u AND 0x07F7FF03 = u"
  have "upper_of_cpsr u w AND 0x07F7FF03 = upper_of_cpsr (u AND 0x07F7FF03) w"
    unfolding upper_of_cpsr_def by (simp add: bit32_simps)
  then show "upper_of_cpsr u w AND 0x07F7FF03 = upper_of_cpsr u w" by (simp add: u)
next
  show "((u AND 0xFFFF) OR (f AND FPSCR_MODE_MASK)) AND 0x07F7FF03 = ((u AND 0x07F7FF03) AND 0xFFFF) OR (f AND FPSCR_MODE_MASK)"
    unfolding FPSCR_MODE_MASK_def by (simp add: bit32_simps)
qed

lemma upper_mode_valid:
  assumes "u AND 0x07F7FF03 = u"
  shows "((u AND 0xFFFF) OR (f AND FPSCR_MODE_MASK)) AND 0x07F7FF03 = (u AND 0xFFFF) OR (f AND FPSCR_MODE_MASK)"
  unfolding upper_valid(2) assms ..

lemma MXCSR_RMode_exc:
  "exc_of_mxcsr (((0x1F80 OR MXCSR_RMode ! unat (drop_bit 22 f AND 3)) OR (if b then 0x8040 else 0)) OR 0x9FC0) = 0" for f :: u32
proof -
  have "drop_bit 22 f AND 3 \<le> 3" by (rule word_and_le1)
  then have "unat (drop_bit 22 f AND 3) < 4" by (simp add: word_le_nat_alt)
  then consider "unat (drop_bit 22 f AND 3) = 0" | "unat (drop_bit 22 f AND 3) = 1" | "unat (drop_bit 22 f AND 3) = 2" | "unat (drop_bit 22 f AND 3) = 3"
    by linarith
  then show ?thesis by cases (simp_all add: MXCSR_RMode_def exc_of_mxcsr_def)
qed

lemma cpsr_fields: "(w AND arm_mask) OR (if get_bit 27 w then 0x8000000 else 0) OR (w AND 0x060FFE20) OR (w AND 0x010001DF) = PSR_make w"
  by (simp add: arm_mask_def PSR_make_def PSR_mask_def bit32_simps)

lemma fpscr_fields: "(f AND FPSCR_MODE_MASK) OR (f AND FPSCR_NZCV_MASK) OR (f AND 0x9F) OR (if drop_bit 27 f AND 1 \<noteq> 0 then 0x8000000 else 0) = f AND FPSCR_state_mask"
proof -
  have "drop_bit 27 f AND 1 \<noteq> 0 \<longleftrightarrow> bit f 27" by (simp add: and_one_eq bit_iff_odd drop_bit_eq_div odd_iff_mod_2_eq_one)
  then show ?thesis by (simp add: FPSCR_MODE_MASK_def FPSCR_NZCV_MASK_def FPSCR_state_mask_def bit32_simps)
qed

lemma x64_parts:
  assumes "x64_valid s" "x64_Cpsr s = Some c" "x64_Fpscr s = Some f"
  shows "c AND 0x0600FE20 = cpsr_of_upper (x64_cpsr_ge s) (x64_upper_location_descriptor s) AND 0x0600FE20"
    "f AND FPSCR_MODE_MASK = x64_upper_location_descriptor s AND FPSCR_MODE_MASK"
proof -
  have "FromX64 (x64_cpsr_nzcv s) AND 0x0600FE20 = 0" by (rule masked_part [OF FromX64_range]) simp
  moreover have "x64_cpsr_jaifm s AND 0x0600FE20 = 0" by (rule masked_part [of _ "0x010001DF"]) (use assms(1) in \<open>simp_all add: x64_valid_def\<close>)
  ultimately show "c AND 0x0600FE20 = cpsr_of_upper (x64_cpsr_ge s) (x64_upper_location_descriptor s) AND 0x0600FE20"
    using assms(2) by (auto simp: x64_Cpsr_def and_or_parts split: if_splits)
  have "exc_of_mxcsr v AND FPSCR_MODE_MASK = 0" for v by (rule masked_part [OF exc_of_mxcsr_range]) (simp add: FPSCR_MODE_MASK_def)
  moreover have "x64_fpsr_exc s AND FPSCR_MODE_MASK = 0"
    by (rule masked_part [of _ "0x9F"]) (use assms(1) in \<open>simp_all add: x64_valid_def FPSCR_MODE_MASK_def\<close>)
  moreover have "x64_fpsr_nzcv s AND FPSCR_MODE_MASK = 0"
    by (rule masked_part [of _ FPSCR_NZCV_MASK]) (use assms(1) in \<open>simp_all add: x64_valid_def FPSCR_MODE_MASK_def FPSCR_NZCV_MASK_def\<close>)
  moreover have "(0x8000000 :: u32) AND FPSCR_MODE_MASK = 0" by (simp add: FPSCR_MODE_MASK_def)
  ultimately show "f AND FPSCR_MODE_MASK = x64_upper_location_descriptor s AND FPSCR_MODE_MASK"
    using assms(3) by (auto simp: x64_Fpscr_def and_or_parts and.assoc split: if_splits)
qed

interpretation x64_status: guest_status x64_valid x64_Cpsr x64_SetCpsr x64_Fpscr x64_SetFpscr "\<lambda>s. x64_Reg s ! 15" x64_A32_GetUniqueHash
proof unfold_locales
  fix s c f
  show "x64_valid s \<Longrightarrow> x64_valid (x64_SetCpsr s c)"
    by (simp add: x64_valid_def x64_SetCpsr_def upper_valid(1) and.assoc)
  show "x64_valid s \<Longrightarrow> x64_valid (x64_SetFpscr s f)"
    by (simp add: x64_valid_def x64_SetFpscr_def upper_mode_valid and.assoc)
  have j: "(c AND 0x010001DF) AND NOT 0x010001DF = (0 :: u32)" by (simp add: bit32_simps)
  have "(if get_bit 27 c then 1 else 0) AND NOT 1 = (0 :: u32)" by simp
  then show "x64_Cpsr (x64_SetCpsr s c) = Some (PSR_make c)"
    using j cpsr_fields [of c]
    by (auto simp: x64_Cpsr_def x64_SetCpsr_def FromX64_ToX64 cpsr_of_upper_of_cpsr or.assoc)
  have z: "(f AND FPSCR_NZCV_MASK) AND NOT FPSCR_NZCV_MASK = 0" by (simp add: and.assoc)
  show "x64_Fpscr (x64_SetFpscr s f) = Some (f AND FPSCR_state_mask)"
    using z fpscr_fields [of f] MXCSR_RMode_exc [of f]
    by (simp add: x64_Fpscr_def x64_SetFpscr_def mode_upper_masks del: if_split)
  show "x64_Cpsr (x64_SetFpscr s f) = x64_Cpsr s"
    by (simp add: x64_Cpsr_def x64_SetFpscr_def cpsr_of_upper_mode)
  show "x64_Fpscr (x64_SetCpsr s c) = x64_Fpscr s"
    by (simp add: x64_Fpscr_def x64_SetCpsr_def upper_of_cpsr_masks)
  show "x64_Reg (x64_SetCpsr s c) ! 15 = x64_Reg s ! 15" "x64_Reg (x64_SetFpscr s f) ! 15 = x64_Reg s ! 15"
    by (simp_all add: x64_SetCpsr_def x64_SetFpscr_def)
  assume v: "x64_valid s" "x64_Cpsr s = Some c" "x64_Fpscr s = Some f"
  have "upper_of_cpsr (f AND FPSCR_MODE_MASK) c = x64_upper_location_descriptor s"
    using v(1) by (intro location_packed [OF x64_parts [OF v]]) (simp add: x64_valid_def)
  then show "x64_A32_GetUniqueHash s = A32_UniqueHash (A32_make (x64_Reg s ! 15) c f False)"
    by (simp add: A32_hash_upper x64_A32_GetUniqueHash_def or.commute)
qed


subsection \<open>The arm64 and riscv64 back ends\<close>

lemma cpsr_fields_plain: "(w AND 0xF0000000) OR (w AND 0x8000000) OR (w AND 0x060FFE20) OR (w AND 0x010001DF) = PSR_make w"
  by (simp add: PSR_make_def PSR_mask_def bit32_simps)

lemma fpscr_fields_plain:
  "(f AND FPSCR_MODE_MASK) OR (f AND 0x0800009F) OR (f AND 0xF0000000) = f AND FPSCR_state_mask"
  "(f AND FPSCR_MODE_MASK) OR (f AND 0xF800009F) = f AND FPSCR_state_mask"
  by (simp_all add: FPSCR_MODE_MASK_def FPSCR_state_mask_def bit32_simps)

definition arm64_valid :: "arm64_A32JitState \<Rightarrow> bool" where
  "arm64_valid s \<longleftrightarrow> arm64_upper_location_descriptor s AND 0x07F7FF03 = arm64_upper_location_descriptor s
     \<and> arm64_cpsr_nzcv s AND 0xF0000000 = arm64_cpsr_nzcv s \<and> arm64_cpsr_q s AND 0x8000000 = arm64_cpsr_q s
     \<and> arm64_cpsr_jaifm s AND 0x010001DF = arm64_cpsr_jaifm s \<and> arm64_fpsr s AND 0xF800009F = arm64_fpsr s
     \<and> arm64_fpsr_nzcv s AND 0xF0000000 = arm64_fpsr_nzcv s"

lemma arm64_parts:
  assumes "arm64_valid s"
  shows "arm64_Cpsr s AND 0x0600FE20 = cpsr_of_upper (arm64_cpsr_ge s) (arm64_upper_location_descriptor s) AND 0x0600FE20"
    "arm64_Fpscr s AND FPSCR_MODE_MASK = arm64_upper_location_descriptor s AND FPSCR_MODE_MASK"
proof -
  have "arm64_cpsr_nzcv s AND 0x0600FE20 = 0" by (rule masked_part [of _ "0xF0000000"]) (use assms in \<open>simp_all add: arm64_valid_def\<close>)
  moreover have "arm64_cpsr_q s AND 0x0600FE20 = 0" by (rule masked_part [of _ "0x8000000"]) (use assms in \<open>simp_all add: arm64_valid_def\<close>)
  moreover have "arm64_cpsr_jaifm s AND 0x0600FE20 = 0" by (rule masked_part [of _ "0x010001DF"]) (use assms in \<open>simp_all add: arm64_valid_def\<close>)
  ultimately show "arm64_Cpsr s AND 0x0600FE20 = cpsr_of_upper (arm64_cpsr_ge s) (arm64_upper_location_descriptor s) AND 0x0600FE20"
    by (simp add: arm64_Cpsr_def and_or_parts)
  have "arm64_fpsr s AND FPSCR_MODE_MASK = 0"
    by (rule masked_part [of _ "0xF800009F"]) (use assms in \<open>simp_all add: arm64_valid_def FPSCR_MODE_MASK_def\<close>)
  moreover have "arm64_fpsr_nzcv s AND FPSCR_MODE_MASK = 0"
    by (rule masked_part [of _ "0xF0000000"]) (use assms in \<open>simp_all add: arm64_valid_def FPSCR_MODE_MASK_def\<close>)
  moreover have "0xFFFF0000 AND FPSCR_MODE_MASK = FPSCR_MODE_MASK" by (simp add: FPSCR_MODE_MASK_def)
  ultimately show "arm64_Fpscr s AND FPSCR_MODE_MASK = arm64_upper_location_descriptor s AND FPSCR_MODE_MASK"
    by (simp add: arm64_Fpscr_def and_or_parts and.assoc)
qed

interpretation arm64_status: guest_status arm64_valid "\<lambda>s. Some (arm64_Cpsr s)" arm64_SetCpsr "\<lambda>s. Some (arm64_Fpscr s)" arm64_SetFpscr
  "\<lambda>s. arm64_regs s ! 15" arm64_GetLocationDescriptor
proof unfold_locales
  fix s c f
  show "arm64_valid s \<Longrightarrow> arm64_valid (arm64_SetCpsr s c)"
    by (simp add: arm64_valid_def arm64_SetCpsr_def upper_valid(1) and.assoc)
  show "arm64_valid s \<Longrightarrow> arm64_valid (arm64_SetFpscr s f)"
    by (simp add: arm64_valid_def arm64_SetFpscr_def upper_mode_valid and.assoc)
  show "Some (arm64_Cpsr (arm64_SetCpsr s c)) = Some (PSR_make c)"
    using cpsr_fields_plain [of c] by (simp add: arm64_Cpsr_def arm64_SetCpsr_def cpsr_of_upper_of_cpsr)
  show "Some (arm64_Fpscr (arm64_SetFpscr s f)) = Some (f AND FPSCR_state_mask)"
    using fpscr_fields_plain [of f] by (simp add: arm64_Fpscr_def arm64_SetFpscr_def mode_upper_masks)
  show "Some (arm64_Cpsr (arm64_SetFpscr s f)) = Some (arm64_Cpsr s)"
    by (simp add: arm64_Cpsr_def arm64_SetFpscr_def cpsr_of_upper_mode)
  show "Some (arm64_Fpscr (arm64_SetCpsr s c)) = Some (arm64_Fpscr s)"
    by (simp add: arm64_Fpscr_def arm64_SetCpsr_def upper_of_cpsr_masks)
  show "arm64_regs (arm64_SetCpsr s c) ! 15 = arm64_regs s ! 15" "arm64_regs (arm64_SetFpscr s f) ! 15 = arm64_regs s ! 15"
    by (simp_all add: arm64_SetCpsr_def arm64_SetFpscr_def)
  assume v: "arm64_valid s" and "Some (arm64_Cpsr s) = Some c" "Some (arm64_Fpscr s) = Some f"
  then have "upper_of_cpsr (f AND FPSCR_MODE_MASK) c = arm64_upper_location_descriptor s"
    using location_packed [OF arm64_parts [OF v]] by (simp add: arm64_valid_def)
  then show "arm64_GetLocationDescriptor s = A32_UniqueHash (A32_make (arm64_regs s ! 15) c f False)"
    by (simp add: A32_hash_upper arm64_GetLocationDescriptor_def)
qed

definition rv64_valid :: "rv64_A32JitState \<Rightarrow> bool" where
  "rv64_valid s \<longleftrightarrow> rv64_upper_location_descriptor s AND 0x07F7FF03 = rv64_upper_location_descriptor s
     \<and> rv64_cpsr_nzcv s AND 0xF0000000 = rv64_cpsr_nzcv s \<and> rv64_cpsr_q s AND 0x8000000 = rv64_cpsr_q s
     \<and> rv64_cpsr_jaifm s AND 0x010001DF = rv64_cpsr_jaifm s \<and> rv64_fpsr s AND 0xF800009F = rv64_fpsr s
     \<and> rv64_fpsr_nzcv s AND 0xF0000000 = rv64_fpsr_nzcv s"

lemma rv64_parts:
  assumes "rv64_valid s"
  shows "rv64_Cpsr s AND 0x0600FE20 = cpsr_of_upper (rv64_cpsr_ge s) (rv64_upper_location_descriptor s) AND 0x0600FE20"
    "rv64_Fpscr s AND FPSCR_MODE_MASK = rv64_upper_location_descriptor s AND FPSCR_MODE_MASK"
proof -
  have "rv64_cpsr_nzcv s AND 0x0600FE20 = 0" by (rule masked_part [of _ "0xF0000000"]) (use assms in \<open>simp_all add: rv64_valid_def\<close>)
  moreover have "rv64_cpsr_q s AND 0x0600FE20 = 0" by (rule masked_part [of _ "0x8000000"]) (use assms in \<open>simp_all add: rv64_valid_def\<close>)
  moreover have "rv64_cpsr_jaifm s AND 0x0600FE20 = 0" by (rule masked_part [of _ "0x010001DF"]) (use assms in \<open>simp_all add: rv64_valid_def\<close>)
  ultimately show "rv64_Cpsr s AND 0x0600FE20 = cpsr_of_upper (rv64_cpsr_ge s) (rv64_upper_location_descriptor s) AND 0x0600FE20"
    by (simp add: rv64_Cpsr_def and_or_parts)
  have "rv64_fpsr s AND FPSCR_MODE_MASK = 0"
    by (rule masked_part [of _ "0xF800009F"]) (use assms in \<open>simp_all add: rv64_valid_def FPSCR_MODE_MASK_def\<close>)
  moreover have "rv64_fpsr_nzcv s AND FPSCR_MODE_MASK = 0"
    by (rule masked_part [of _ "0xF0000000"]) (use assms in \<open>simp_all add: rv64_valid_def FPSCR_MODE_MASK_def\<close>)
  moreover have "0xFFFF0000 AND FPSCR_MODE_MASK = FPSCR_MODE_MASK" by (simp add: FPSCR_MODE_MASK_def)
  ultimately show "rv64_Fpscr s AND FPSCR_MODE_MASK = rv64_upper_location_descriptor s AND FPSCR_MODE_MASK"
    by (simp add: rv64_Fpscr_def and_or_parts and.assoc)
qed

interpretation rv64_status: guest_status rv64_valid "\<lambda>s. Some (rv64_Cpsr s)" rv64_SetCpsr "\<lambda>s. Some (rv64_Fpscr s)" rv64_SetFpscr
  "\<lambda>s. rv64_regs s ! 15" rv64_GetLocationDescriptor
proof unfold_locales
  fix s c f
  show "rv64_valid s \<Longrightarrow> rv64_valid (rv64_SetCpsr s c)"
    by (simp add: rv64_valid_def rv64_SetCpsr_def upper_valid(1) and.assoc)
  show "rv64_valid s \<Longrightarrow> rv64_valid (rv64_SetFpscr s f)"
    by (simp add: rv64_valid_def rv64_SetFpscr_def upper_mode_valid and.assoc)
  show "Some (rv64_Cpsr (rv64_SetCpsr s c)) = Some (PSR_make c)"
    using cpsr_fields_plain [of c] by (simp add: rv64_Cpsr_def rv64_SetCpsr_def cpsr_of_upper_of_cpsr)
  show "Some (rv64_Fpscr (rv64_SetFpscr s f)) = Some (f AND FPSCR_state_mask)"
    using fpscr_fields_plain [of f] by (simp add: rv64_Fpscr_def rv64_SetFpscr_def mode_upper_masks)
  show "Some (rv64_Cpsr (rv64_SetFpscr s f)) = Some (rv64_Cpsr s)"
    by (simp add: rv64_Cpsr_def rv64_SetFpscr_def cpsr_of_upper_mode)
  show "Some (rv64_Fpscr (rv64_SetCpsr s c)) = Some (rv64_Fpscr s)"
    by (simp add: rv64_Fpscr_def rv64_SetCpsr_def upper_of_cpsr_masks)
  show "rv64_regs (rv64_SetCpsr s c) ! 15 = rv64_regs s ! 15" "rv64_regs (rv64_SetFpscr s f) ! 15 = rv64_regs s ! 15"
    by (simp_all add: rv64_SetCpsr_def rv64_SetFpscr_def)
  assume v: "rv64_valid s" and "Some (rv64_Cpsr s) = Some c" "Some (rv64_Fpscr s) = Some f"
  then have "upper_of_cpsr (f AND FPSCR_MODE_MASK) c = rv64_upper_location_descriptor s"
    using location_packed [OF rv64_parts [OF v]] by (simp add: rv64_valid_def)
  then show "rv64_GetLocationDescriptor s = A32_UniqueHash (A32_make (rv64_regs s ! 15) c f False)"
    by (simp add: A32_hash_upper rv64_GetLocationDescriptor_def)
qed

section \<open>AArch64 state\<close>

lemma exc_of_mxcsr_masked: "exc_of_mxcsr (v AND 0x3D) = exc_of_mxcsr v" "exc_of_mxcsr (v AND NOT 0x3D) = 0"
  "exc_of_mxcsr (x OR y) = exc_of_mxcsr x OR exc_of_mxcsr y"
  by (simp_all add: exc_of_mxcsr_def bit32_simps)


lemma exc_of_control: "exc_of_mxcsr 0x1F80 = 0" "exc_of_mxcsr (if b then 0x8040 else 0) = 0"
  "exc_of_mxcsr (MXCSR_RMode ! unat (drop_bit 22 (v :: u32) AND 3)) = 0"
  using MXCSR_RMode_exc [of v False] by (simp_all add: exc_of_mxcsr_masked) (simp_all add: exc_of_mxcsr_def)

lemma fpsr_fields: "(v AND 0x9F) OR push_bit 27 (if drop_bit 27 v AND 1 = 0 then 0 else 1) = v AND (0x0800009F :: u32)"
proof -
  have "drop_bit 27 v AND 1 = 0 \<longleftrightarrow> \<not> bit v 27" by (simp add: and_one_eq bit_iff_odd drop_bit_eq_div odd_iff_mod_2_eq_one)
  then show ?thesis by (simp add: bit32_simps)
qed

section \<open>Properties\<close>

text \<open>C10. The three back ends present the same AArch32 machine.  After any sequence of writes to the
  two status registers of a fresh state, the x64, arm64 and riscv64 states, which store the
  registers in different formats, read back the same CPSR and FPSCR, and name the same location:
  the hash of the descriptor built from the program counter and the registers that were read.  No
  assertion of the x64 readers fails.\<close>

theorem back_ends_agree:
  "let s1 = status_writes x64_SetCpsr x64_SetFpscr ws (x64_A32JitState_init\<lparr>x64_Reg := r\<rparr>);
       s2 = status_writes arm64_SetCpsr arm64_SetFpscr ws (arm64_A32JitState_init\<lparr>arm64_regs := r\<rparr>);
       s3 = status_writes rv64_SetCpsr rv64_SetFpscr ws (rv64_A32JitState_init\<lparr>rv64_regs := r\<rparr>)
   in x64_Cpsr s1 = Some (arm64_Cpsr s2) \<and> rv64_Cpsr s3 = arm64_Cpsr s2
    \<and> x64_Fpscr s1 = Some (arm64_Fpscr s2) \<and> rv64_Fpscr s3 = arm64_Fpscr s2
    \<and> x64_A32_GetUniqueHash s1 = A32_UniqueHash (A32_make (r ! 15) (arm64_Cpsr s2) (arm64_Fpscr s2) False)
    \<and> arm64_GetLocationDescriptor s2 = x64_A32_GetUniqueHash s1 \<and> rv64_GetLocationDescriptor s3 = x64_A32_GetUniqueHash s1"
proof -
  have x: "x64_valid (x64_A32JitState_init\<lparr>x64_Reg := r\<rparr>)" "x64_Cpsr (x64_A32JitState_init\<lparr>x64_Reg := r\<rparr>) = Some 0"
    "x64_Fpscr (x64_A32JitState_init\<lparr>x64_Reg := r\<rparr>) = Some 0"
    by (simp_all add: x64_valid_def x64_A32JitState_init_def x64_ResetRSB_def x64_Cpsr_def x64_Fpscr_def FromX64_def
        cpsr_of_upper_def exc_of_mxcsr_def get_bit_iff_bit)
  have a: "arm64_valid (arm64_A32JitState_init\<lparr>arm64_regs := r\<rparr>)" "Some (arm64_Cpsr (arm64_A32JitState_init\<lparr>arm64_regs := r\<rparr>)) = Some 0"
    "Some (arm64_Fpscr (arm64_A32JitState_init\<lparr>arm64_regs := r\<rparr>)) = Some 0"
    by (simp_all add: arm64_valid_def arm64_A32JitState_init_def arm64_Cpsr_def arm64_Fpscr_def cpsr_of_upper_def get_bit_iff_bit)
  have v: "rv64_valid (rv64_A32JitState_init\<lparr>rv64_regs := r\<rparr>)" "Some (rv64_Cpsr (rv64_A32JitState_init\<lparr>rv64_regs := r\<rparr>)) = Some 0"
    "Some (rv64_Fpscr (rv64_A32JitState_init\<lparr>rv64_regs := r\<rparr>)) = Some 0"
    by (simp_all add: rv64_valid_def rv64_A32JitState_init_def rv64_Cpsr_def rv64_Fpscr_def cpsr_of_upper_def get_bit_iff_bit)
  show ?thesis
    unfolding Let_def
    using x64_status.write_observed [OF x, of ws] x64_status.location_observed [OF x, of ws]
      arm64_status.write_observed [OF a, of ws] arm64_status.location_observed [OF a, of ws]
      rv64_status.write_observed [OF v, of ws] rv64_status.location_observed [OF v, of ws]
    by simp
qed

text \<open>C37. In every state of the x64 back end, a write to a status register is read back up to its
  reserved bits and does not change the other register, although both share a word of the
  state; and a state transferred from another one reads the same registers and names the same
  location, whether or not the return stack buffer is reset.\<close>

theorem x64_status_registers:
  "x64_Cpsr (x64_SetCpsr s c) = Some (PSR_make c) \<and> x64_Fpscr (x64_SetCpsr s c) = x64_Fpscr s
   \<and> x64_Fpscr (x64_SetFpscr s f) = Some (f AND 0xFFF7009F) \<and> x64_Cpsr (x64_SetFpscr s f) = x64_Cpsr s
   \<and> x64_Cpsr (x64_TransferJitState t s b) = x64_Cpsr s \<and> x64_Fpscr (x64_TransferJitState t s b) = x64_Fpscr s
   \<and> x64_A32_GetUniqueHash (x64_TransferJitState t s b) = x64_A32_GetUniqueHash s"
  using x64_status.get_set x64_status.get_other
  by (simp add: FPSCR_state_mask_def x64_Cpsr_def x64_Fpscr_def x64_A32_GetUniqueHash_def x64_TransferJitState_def x64_ResetRSB_def Let_def)

text \<open>C38. Moving the condition flags between the Arm and the x64 format by one multiplication and one
  mask gives the same result as moving them one by one, on every input, including words with
  other bits set; and the two conversions are inverse on the flags.\<close>

theorem NZCV_conversion:
  "ToX64 v = ToX64_naive v \<and> FromX64 v = FromX64_naive v \<and> FromX64 (ToX64 v) = v AND 0xF0000000"
  by (simp add: ToX64_eq FromX64_eq FromX64_ToX64 [unfolded ToX64_eq FromX64_eq] arm_mask_def)

text \<open>C39. In every AArch64 state of the x64 back end, the floating point control and status registers
  and the condition flags are read back as written, up to their reserved bits.  Changing the
  rounding mode or the flush mode keeps the accumulated exception flags, although both live in the
  same host register, and the state names the location of its program counter and control bits.\<close>

theorem A64_state_registers:
  "GetFpcr (SetFpcr s v) = v AND FPCR_MASK \<and> GetFpsr (SetFpsr s v) = v AND 0x0800009F
   \<and> GetFpsr (SetFpcr s v) = GetFpsr s \<and> GetFpcr (SetFpsr s v) = GetFpcr s
   \<and> GetPstate (SetPstate s v) = v AND 0xF0000000
   \<and> x64_A64_GetUniqueHash s = A64_UniqueHash (A64_make (a64_state_pc s) (a64_fpcr s) False)"
proof (intro conjI)
  show "GetFpsr (SetFpsr s v) = v AND 0x0800009F"
    using fpsr_fields [of v]
    by (simp add: GetFpsr_def SetFpsr_def exc_of_mxcsr_masked(3) exc_of_mxcsr_masked(2) [simplified] del: if_split)
  show "GetFpsr (SetFpcr s v) = GetFpsr s"
    by (simp add: GetFpsr_def SetFpcr_def exc_of_mxcsr_masked exc_of_control del: if_split)
  show "x64_A64_GetUniqueHash s = A64_UniqueHash (A64_make (a64_state_pc s) (a64_fpcr s) False)"
    by (simp add: x64_A64_GetUniqueHash_def A64_UniqueHash_def A64_make_def make_masks)
qed (simp_all add: GetFpcr_def SetFpcr_def SetFpsr_def GetPstate_def SetPstate_def FromX64_ToX64 arm_mask_def)

end
