(* ===== verification/Decoder.thy ===== *)
theory Decoder
  imports Bit_Util "HOL-Library.Monad_Syntax" "HOL-Library.Char_ord"
begin

text \<open>
  The instruction decoders: how a bit string becomes a matcher, how the matchers are ordered and
  indexed, and the search for the matcher of an instruction.
\<close>

section \<open>Matchers (decoder/matcher.h, decoder/decoder_detail.h)\<close>

text \<open>
  A matcher knows its name, the mask and the expected value of its fixed bits, and the masks and
  shifts by which its handler's arguments are cut out of an instruction.  The handlers are the
  members of a visitor; a matcher stands for the argument list it passes to its handler.
\<close>

record 'w matcher =
  matcher_name :: string
  matcher_mask :: 'w
  matcher_expected :: 'w
  arg_masks :: "'w list"
  arg_shifts :: "nat list"

definition count_ones :: "'a::len word \<Rightarrow> nat" where
  "count_ones x = length (filter (bit x) [0..<LENGTH('a)])"

text \<open>The loop of \<^verbatim>\<open>GetMaskAndExpect\<close>; the character in front of \<open>n\<close> others describes bit \<open>n\<close>.\<close>

fun mask_expect_loop :: "string \<Rightarrow> 'a::len word \<Rightarrow> 'a word \<Rightarrow> 'a word \<times> 'a word" where
  "mask_expect_loop [] msk expect = (msk, expect)"
| "mask_expect_loop (c # cs) msk expect =
     (let b = push_bit (length cs) 1 in
      if c = CHR ''0'' then mask_expect_loop cs (msk OR b) expect
      else if c = CHR ''1'' then mask_expect_loop cs (msk OR b) (expect OR b)
      else mask_expect_loop cs msk expect)"

definition GetMaskAndExpect :: "string \<Rightarrow> 'a::len word \<times> 'a word" where
  "GetMaskAndExpect bitstring = mask_expect_loop bitstring 0 0"

definition is_field :: "char \<Rightarrow> bool" where
  "is_field c \<longleftrightarrow> c \<noteq> CHR ''0'' \<and> c \<noteq> CHR ''1'' \<and> c \<noteq> CHR ''-''"

text \<open>The loop of \<^verbatim>\<open>GetArgInfo\<close>; \<open>ch\<close> is the character of the field it is in, if any, and \<^const>\<open>None\<close> as a
  result is the exception for a field too many.\<close>

fun arg_info_loop :: "nat \<Rightarrow> string \<Rightarrow> 'a::len word list \<Rightarrow> nat list \<Rightarrow> nat \<Rightarrow> char option \<Rightarrow> ('a word list \<times> nat list) option" where
  "arg_info_loop N [] masks shifts arg_index ch = Some (masks, shifts)"
| "arg_info_loop N (c # cs) masks shifts arg_index ch =
     (if \<not> is_field c then arg_info_loop N cs masks shifts (if ch \<noteq> None then arg_index + 1 else arg_index) None
      else
        let arg_index = (if ch = None \<or> ch = Some c then arg_index else arg_index + 1) in
        if N \<le> arg_index then None
        else arg_info_loop N cs (masks[arg_index := masks ! arg_index OR push_bit (length cs) 1])
               (shifts[arg_index := length cs]) arg_index (Some c))"

definition GetArgInfo :: "nat \<Rightarrow> string \<Rightarrow> ('a::len word list \<times> nat list) option" where
  "GetArgInfo N bitstring = do {
     (masks, shifts) \<leftarrow> arg_info_loop N bitstring (replicate N 0) (replicate N 0) 0 None;
     assert_opt (list_all (\<lambda>m. m \<noteq> 0) masks);
     Some (masks, shifts) }"

definition GetMatcher :: "nat \<Rightarrow> string \<Rightarrow> string \<Rightarrow> 'a::len word matcher option" where
  "GetMatcher args_count name bitstring = do {
     assert_opt (length bitstring = LENGTH('a));
     let (msk, expect) = GetMaskAndExpect bitstring;
     (masks, shifts) \<leftarrow> GetArgInfo args_count bitstring;
     Some \<lparr>matcher_name = name, matcher_mask = msk, matcher_expected = expect, arg_masks = masks, arg_shifts = shifts\<rparr> }"

definition Matches :: "'a::len word matcher \<Rightarrow> 'a word \<Rightarrow> bool" where
  "Matches m instruction \<longleftrightarrow> instruction AND matcher_mask m = matcher_expected m"

definition matcher_call :: "'a::len word matcher \<Rightarrow> 'a word \<Rightarrow> 'a word list option" where
  "matcher_call m instruction = do {
     assert_opt (Matches m instruction);
     Some (map2 (\<lambda>msk shift. drop_bit shift (instruction AND msk)) (arg_masks m) (arg_shifts m)) }"

section \<open>Decode tables\<close>

text \<open>Sorting and partitioning are stable.\<close>

definition by_specificity :: "'a::len word matcher list \<Rightarrow> 'a word matcher list" where
  "by_specificity = sort_key (\<lambda>m. LENGTH('a) - count_ones (matcher_mask m))"

definition stable_partition :: "('b \<Rightarrow> bool) \<Rightarrow> 'b list \<Rightarrow> 'b list" where
  "stable_partition P xs = filter P xs @ filter (\<lambda>x. \<not> P x) xs"

type_synonym matcher32 = "u32 matcher"

subsection \<open>A64 (A64/decoder/a64.h)\<close>

definition ToFastLookupIndex :: "u32 \<Rightarrow> u32" where
  "ToFastLookupIndex instruction = (drop_bit 10 instruction AND 0x00F) OR (drop_bit 18 instruction AND 0xFF0)"

definition a64_comes_first :: "string list" where
  "a64_comes_first = [''MOVI, MVNI, ORR, BIC (vector, immediate)'', ''FMOV (vector, immediate)'', ''Unallocated SIMD modified immediate'']"

definition a64_order :: "matcher32 list \<Rightarrow> matcher32 list" where
  "a64_order list = stable_partition (\<lambda>m. matcher_name m \<in> set a64_comes_first) (by_specificity list)"

text \<open>The bucket of every index holds the matchers that some instruction with that index can match.\<close>

definition fast_table :: "(u32 \<Rightarrow> u32) \<Rightarrow> matcher32 list \<Rightarrow> matcher32 list list" where
  "fast_table index list =
     map (\<lambda>i. filter (\<lambda>m. of_nat i AND index (matcher_mask m) = index (matcher_expected m)) list) [0..<0x1000]"

definition GetDecodeTable :: "matcher32 list \<Rightarrow> matcher32 list list" where
  "GetDecodeTable list = fast_table ToFastLookupIndex (a64_order list)"

definition Decode :: "matcher32 list \<Rightarrow> u32 \<Rightarrow> matcher32 option option" where
  "Decode list instruction = do {
     subtable \<leftarrow> nth_opt (GetDecodeTable list) (unat (ToFastLookupIndex instruction));
     Some (find (\<lambda>m. Matches m instruction) subtable) }"

subsection \<open>Arm (A32/decoder/arm.h)\<close>

definition ToFastLookupIndexArm :: "u32 \<Rightarrow> u32" where
  "ToFastLookupIndexArm instruction = (drop_bit 4 instruction AND 0x00F) OR (drop_bit 16 instruction AND 0xFF0)"

definition GetArmDecodeTable :: "matcher32 list \<Rightarrow> matcher32 list list" where
  "GetArmDecodeTable list = fast_table ToFastLookupIndexArm (by_specificity list)"

definition DecodeArm :: "matcher32 list \<Rightarrow> u32 \<Rightarrow> matcher32 option option" where
  "DecodeArm list instruction = do {
     subtable \<leftarrow> nth_opt (GetArmDecodeTable list) (unat (ToFastLookupIndexArm instruction));
     Some (find (\<lambda>m. Matches m instruction) subtable) }"

subsection \<open>Advanced SIMD, VFP and Thumb (A32/decoder/asimd.h, vfp.h, thumb16.h, thumb32.h)\<close>

definition asimd_comes_first :: "string list" where
  "asimd_comes_first = [''VBIC, VMOV, VMVN, VORR (immediate)'', ''VEXT'', ''VTBL'', ''VTBX'', ''VDUP (scalar)'']"

definition asimd_comes_last :: "string list" where
  "asimd_comes_last = [''VMLA (scalar)'', ''VMLAL (scalar)'', ''VQDMLAL/VQDMLSL (scalar)'', ''VMUL (scalar)'', ''VMULL (scalar)'',
     ''VQDMULL (scalar)'', ''VQDMULH (scalar)'', ''VQRDMULH (scalar)'']"

text \<open>The range that is sorted lies between the ends of the two partitions.\<close>

definition GetASIMDDecodeTable :: "matcher32 list \<Rightarrow> matcher32 list" where
  "GetASIMDDecodeTable rows =
     (let table = stable_partition (\<lambda>m. matcher_name m \<in> set asimd_comes_first) rows;
          sort_begin = length (filter (\<lambda>m. matcher_name m \<in> set asimd_comes_first) rows);
          sort_end = length (filter (\<lambda>m. matcher_name m \<notin> set asimd_comes_last) table);
          table = stable_partition (\<lambda>m. matcher_name m \<notin> set asimd_comes_last) table
      in take sort_begin table @ by_specificity (drop sort_begin (take sort_end table)) @ drop sort_end table)"

definition DecodeASIMD :: "matcher32 list \<Rightarrow> u32 \<Rightarrow> matcher32 option" where
  "DecodeASIMD rows instruction = find (\<lambda>m. Matches m instruction) (GetASIMDDecodeTable rows)"

definition DecodeVFP :: "matcher32 list \<Rightarrow> u32 \<Rightarrow> matcher32 option" where
  "DecodeVFP rows instruction =
     (let unconditional = filter (\<lambda>m. matcher_mask m AND 0xF0000000 = 0xF0000000) rows;
          conditional = filter (\<lambda>m. matcher_mask m AND 0xF0000000 \<noteq> 0xF0000000) rows;
          table = (if instruction AND 0xF0000000 = 0xF0000000 then unconditional else conditional)
      in find (\<lambda>m. Matches m instruction) table)"

definition DecodeThumb16 :: "u16 matcher list \<Rightarrow> u16 \<Rightarrow> u16 matcher option" where
  "DecodeThumb16 table instruction = find (\<lambda>m. Matches m instruction) table"

definition DecodeThumb32 :: "matcher32 list \<Rightarrow> u32 \<Rightarrow> matcher32 option" where
  "DecodeThumb32 table instruction = find (\<lambda>m. Matches m instruction) table"


section \<open>Fixed bits and fields\<close>

lemma bit_mask_expect_loop:
  fixes m e :: "'a::len word"
  assumes "length cs \<le> LENGTH('a)"
  shows "bit (fst (mask_expect_loop cs m e)) n \<longleftrightarrow> bit m n \<or> (n < length cs \<and> (rev cs ! n = CHR ''0'' \<or> rev cs ! n = CHR ''1''))"
    "bit (snd (mask_expect_loop cs m e)) n \<longleftrightarrow> bit e n \<or> (n < length cs \<and> rev cs ! n = CHR ''1'')"
  using assms
proof (induction cs arbitrary: m e)
  case (Cons c cs)
  have n: "n < length (c # cs) \<longleftrightarrow> n < length cs \<or> n = length cs" by auto
  have b: "bit (2 ^ length cs :: 'a word) n \<longleftrightarrow> n = length cs" if "length (c # cs) \<le> LENGTH('a)"
    using that by (auto simp: bit_exp_iff)
  { case 1 then show ?case using Cons.IH b [OF 1] by (cases "n = length cs") (auto simp: Let_def bit_or_iff nth_append n) }
  { case 2 then show ?case using Cons.IH b [OF 2] by (cases "n = length cs") (auto simp: Let_def bit_or_iff nth_append n) }
qed simp_all

lemma word_eq_bits: "(x :: 'a::len word) = y \<longleftrightarrow> (\<forall>n<LENGTH('a). bit x n = bit y n)"
  by (auto intro: bit_word_eqI)

lemma Matches_bits:
  fixes instruction :: "'a::len word"
  assumes "length bs = LENGTH('a)" "GetMatcher N name bs = Some m"
  shows "Matches m instruction \<longleftrightarrow>
    list_all (\<lambda>i. (bs ! i = CHR ''0'' \<longrightarrow> \<not> bit instruction (LENGTH('a) - Suc i)) \<and> (bs ! i = CHR ''1'' \<longrightarrow> bit instruction (LENGTH('a) - Suc i))) [0..<LENGTH('a)]"
    (is "_ \<longleftrightarrow> ?R")
proof -
  have m: "matcher_mask m = fst (mask_expect_loop bs 0 0)" "matcher_expected m = snd (mask_expect_loop bs 0 0)"
    using assms(2) by (auto simp: GetMatcher_def GetMaskAndExpect_def split: prod.splits Option.bind_splits if_splits)
  have "Matches m instruction \<longleftrightarrow> (\<forall>n<LENGTH('a). (bit instruction n \<and> (rev bs ! n = CHR ''0'' \<or> rev bs ! n = CHR ''1'')) = (rev bs ! n = CHR ''1''))"
    unfolding Matches_def word_eq_bits m using assms(1) by (simp add: bit_and_iff bit_mask_expect_loop)
  also have "\<dots> \<longleftrightarrow> (\<forall>i<LENGTH('a). (bit instruction (LENGTH('a) - Suc i) \<and> (bs ! i = CHR ''0'' \<or> bs ! i = CHR ''1'')) = (bs ! i = CHR ''1''))"
    (is "?A \<longleftrightarrow> ?B")
  proof
    assume ?A
    show ?B
    proof (intro allI impI)
      fix i assume i: "i < LENGTH('a)"
      then have "rev bs ! (LENGTH('a) - Suc i) = bs ! i" using assms(1) by (simp add: rev_nth)
      then show "(bit instruction (LENGTH('a) - Suc i) \<and> (bs ! i = CHR ''0'' \<or> bs ! i = CHR ''1'')) = (bs ! i = CHR ''1'')"
        using \<open>?A\<close> [rule_format, of "LENGTH('a) - Suc i"] i by simp
    qed
  next
    assume ?B
    show ?A
    proof (intro allI impI)
      fix n assume n: "n < LENGTH('a)"
      then show "(bit instruction n \<and> (rev bs ! n = CHR ''0'' \<or> rev bs ! n = CHR ''1'')) = (rev bs ! n = CHR ''1'')"
        using \<open>?B\<close> [rule_format, of "LENGTH('a) - Suc n"] assms(1) by (simp add: rev_nth Suc_diff_Suc)
    qed
  qed
  also have "\<dots> \<longleftrightarrow> ?R" by (auto simp: list_all_iff)
  finally show ?thesis .
qed

text \<open>The fields of a bit string: its maximal runs of a letter, from the top, each with its lowest
  bit and its width.\<close>

function bit_fields :: "string \<Rightarrow> (nat \<times> nat) list" where
  "bit_fields [] = []"
| "bit_fields (c # cs) =
     (if \<not> is_field c then bit_fields cs
      else (length (dropWhile (\<lambda>d. d = c) cs), Suc (length (takeWhile (\<lambda>d. d = c) cs))) # bit_fields (dropWhile (\<lambda>d. d = c) cs))"
  by pat_completeness auto
termination by (relation "measure length") (auto simp: length_dropWhile_le less_Suc_eq_le)

definition field_mask :: "nat \<times> nat \<Rightarrow> 'a::len word" where
  "field_mask f = mask_range (fst f) (fst f + snd f - 1)"


text \<open>The loop inside a field, from its second character on.\<close>

lemma arg_info_run:
  assumes "is_field c" "idx < N" "length masks = N" "length shifts = N" "length rest + k \<le> LENGTH('a)" "0 < k"
    and "ch = None \<or> ch = Some c"
  shows "arg_info_loop N (replicate k c @ rest) (masks :: 'a::len word list) shifts idx ch =
    arg_info_loop N rest (masks[idx := masks ! idx OR mask_range (length rest) (length rest + k - 1)]) (shifts[idx := length rest]) idx (Some c)"
  using assms(3-7)
proof (induction k arbitrary: masks shifts ch)
  case (Suc k)
  let ?m = "masks[idx := masks ! idx OR push_bit (length rest + k) 1]" and ?s = "shifts[idx := length rest + k]"
  have step: "arg_info_loop N (replicate (Suc k) c @ rest) masks shifts idx ch = arg_info_loop N (replicate k c @ rest) ?m ?s idx (Some c)"
    using assms(1,2) Suc.prems by (auto simp: add.commute)
  show ?case
  proof (cases "k = 0")
    case True
    have "mask_range (length rest) (length rest) = (push_bit (length rest) 1 :: 'a word)"
      using Suc.prems by (intro bit_word_eqI) (auto simp: umbra_bits bit_push_bit_iff bit_1_iff bit_exp_iff)
    then show ?thesis using step True by simp
  next
    case False
    have "push_bit (length rest + k) 1 OR mask_range (length rest) (length rest + k - 1) = (mask_range (length rest) (length rest + k) :: 'a word)"
      using Suc.prems False by (intro bit_word_eqI) (auto simp: umbra_bits bit_or_iff bit_exp_iff)
    then show ?thesis
      using step False Suc.prems assms(2) Suc.IH [of ?m ?s "Some c"] by (simp add: or.assoc)
  qed
qed simp

text \<open>At the end of a field the loop goes on as if outside any field.\<close>

lemma arg_info_leave:
  "(case rest of [] \<Rightarrow> True | d # _ \<Rightarrow> d \<noteq> c) \<Longrightarrow> arg_info_loop N rest masks shifts idx (Some c) = arg_info_loop N rest masks shifts (Suc idx) None"
  by (cases rest) auto

lemma run_split: "cs = replicate (length (takeWhile (\<lambda>d. d = c) cs)) c @ dropWhile (\<lambda>d. d = c) cs"
proof -
  have "takeWhile (\<lambda>d. d = c) cs = replicate (length (takeWhile (\<lambda>d. d = c) cs)) c"
    by (rule replicate_eqI [symmetric, THEN sym]) (auto dest: set_takeWhileD)
  then show ?thesis by (metis takeWhile_dropWhile_id)
qed


lemma fields_bounds: "f \<in> set (bit_fields cs) \<Longrightarrow> 0 < snd f \<and> fst f + snd f \<le> length cs"
proof (induction cs rule: bit_fields.induct)
  case (2 c cs)
  show ?case
  proof (cases "is_field c \<and> f = (length (dropWhile (\<lambda>d. d = c) cs), Suc (length (takeWhile (\<lambda>d. d = c) cs)))")
    case True
    moreover have "length (takeWhile (\<lambda>d. d = c) cs) + length (dropWhile (\<lambda>d. d = c) cs) = length cs"
      by (metis length_append takeWhile_dropWhile_id)
    ultimately show ?thesis by simp
  next
    case False
    then show ?thesis using 2 length_dropWhile_le [of "\<lambda>d. d = c" cs] by (fastforce split: if_splits)
  qed
qed simp

lemma arg_info_loop_fields:
  assumes "length cs \<le> LENGTH('a)" "length A \<le> N" "length B = length A"
  shows "arg_info_loop N cs (A @ replicate (N - length A) (0 :: 'a::len word)) (B @ replicate (N - length A) 0) (length A) None =
    (if length A + length (bit_fields cs) \<le> N
     then Some (A @ map field_mask (bit_fields cs) @ replicate (N - length A - length (bit_fields cs)) 0,
                B @ map fst (bit_fields cs) @ replicate (N - length A - length (bit_fields cs)) 0)
     else None)"
  using assms
proof (induction cs arbitrary: A B rule: bit_fields.induct)
  case (2 c cs)
  show ?case
  proof (cases "is_field c")
    case False
    then show ?thesis using 2 by simp
  next
    case True
    define k where "k = Suc (length (takeWhile (\<lambda>d. d = c) cs))"
    define rest where "rest = dropWhile (\<lambda>d. d = c) cs"
    have cs: "c # cs = replicate k c @ rest" unfolding k_def rest_def using run_split [of cs c] by simp
    have len: "length rest + k \<le> LENGTH('a)" using 2(3) cs by (metis add.commute length_append length_replicate)
    have fs: "bit_fields (c # cs) = (length rest, k) # bit_fields rest" using True by (simp add: k_def rest_def)
    have leave: "case rest of [] \<Rightarrow> True | d # _ \<Rightarrow> d \<noteq> c"
      using hd_dropWhile [of "\<lambda>d. d = c" cs] by (cases rest) (auto simp: rest_def [symmetric] simp del: dropWhile_eq_Nil_conv)
    show ?thesis
    proof (cases "length A < N")
      case False
      then show ?thesis using True 2(4) fs by simp
    next
      case less: True
      let ?M = "A @ [field_mask (length rest, k)]" and ?S = "B @ [length rest]"
      obtain j where j: "N - length A = Suc j" using less by (metis Suc_diff_Suc)
      then have j': "N - Suc (length A) = j" by simp
      have "arg_info_loop N (c # cs) (A @ replicate (N - length A) 0) (B @ replicate (N - length A) 0) (length A) None
          = arg_info_loop N rest (?M @ replicate j 0) (?S @ replicate j 0) (length A) (Some c)"
        unfolding cs by (subst arg_info_run) (use True less len 2(4,5) j in \<open>auto simp: k_def field_mask_def list_update_append nth_append\<close>)
      also have "\<dots> = arg_info_loop N rest (?M @ replicate j 0) (?S @ replicate j 0) (Suc (length A)) None"
        by (rule arg_info_leave [OF leave])
      also have "\<dots> = (if length ?M + length (bit_fields rest) \<le> N
         then Some (?M @ map field_mask (bit_fields rest) @ replicate (N - length ?M - length (bit_fields rest)) 0,
                    ?S @ map fst (bit_fields rest) @ replicate (N - length ?M - length (bit_fields rest)) 0) else None)"
        using 2(2) [folded rest_def, of ?M ?S] True less len 2(5) j' by simp
      finally show ?thesis using fs by simp
    qed
  qed
qed simp

lemma GetArgInfo_fields:
  assumes "length bs \<le> LENGTH('a)"
  shows "GetArgInfo N bs = (if length (bit_fields bs) = N then Some (map field_mask (bit_fields bs) :: 'a::len word list, map fst (bit_fields bs)) else None)"
proof -
  have nz: "field_mask f \<noteq> (0 :: 'a word)" if "f \<in> set (bit_fields bs)" for f
  proof -
    have "0 < snd f" "fst f + snd f \<le> LENGTH('a)" using fields_bounds [OF that] assms by auto
    then have "bit (field_mask f :: 'a word) (fst f)" by (auto simp: field_mask_def umbra_bits)
    then show ?thesis by auto
  qed
  then have "list_all (\<lambda>m. m \<noteq> 0) (map field_mask (bit_fields bs) :: 'a word list)" by (auto simp: list_all_iff)
  moreover have "replicate (N - length (bit_fields bs)) (0 :: 'a word) = [] \<longleftrightarrow> N \<le> length (bit_fields bs)" by simp
  ultimately show ?thesis
    using arg_info_loop_fields [OF assms, of "[]" N "[]"]
    by (auto simp: GetArgInfo_def list_all_iff)
qed


section \<open>Table lookup\<close>

text \<open>
  A fast lookup index selects bits of an instruction.  Because selecting commutes with masking,
  the bucket of an instruction keeps every matcher that matches it, in order.
\<close>

locale fast_index =
  fixes index :: "u32 \<Rightarrow> u32"
  assumes index_and: "index (x AND y) = index x AND index y"
    and index_bound: "unat (index x) < 0x1000"
begin

lemma bucket_keeps:
  "Matches m instruction \<Longrightarrow> index instruction AND index (matcher_mask m) = index (matcher_expected m)"
  by (metis Matches_def index_and)

lemma find_filter: "(\<And>x. x \<in> set xs \<Longrightarrow> P x \<Longrightarrow> Q x) \<Longrightarrow> find P (filter Q xs) = find P xs"
  by (induction xs) auto

lemma lookup_fast_table:
  "Option.bind (nth_opt (fast_table index list) (unat (index instruction))) (\<lambda>t. Some (find (\<lambda>m. Matches m instruction) t))
   = Some (find (\<lambda>m. Matches m instruction) list)"
  using index_bound [of instruction] by (simp add: fast_table_def find_filter bucket_keeps)

end

interpretation a64_index: fast_index ToFastLookupIndex
proof unfold_locales
  show "ToFastLookupIndex (x AND y) = ToFastLookupIndex x AND ToFastLookupIndex y" for x y
    unfolding ToFastLookupIndex_def
    by (simp add: bits32 bit_or_iff bit_and_iff bit_drop_bit_eq)
  fix x
  have "ToFastLookupIndex x = ToFastLookupIndex x AND 0xFFF"
    unfolding ToFastLookupIndex_def by (simp add: bits32 bit_or_iff bit_and_iff bit_drop_bit_eq)
  then have "ToFastLookupIndex x \<le> 0xFFF" by (metis word_and_le1)
  then show "unat (ToFastLookupIndex x) < 0x1000" by (simp add: word_le_nat_alt)
qed

interpretation arm_index: fast_index ToFastLookupIndexArm
proof unfold_locales
  show "ToFastLookupIndexArm (x AND y) = ToFastLookupIndexArm x AND ToFastLookupIndexArm y" for x y
    unfolding ToFastLookupIndexArm_def
    by (simp add: bits32 bit_or_iff bit_and_iff bit_drop_bit_eq)
  fix x
  have "ToFastLookupIndexArm x = ToFastLookupIndexArm x AND 0xFFF"
    unfolding ToFastLookupIndexArm_def by (simp add: bits32 bit_or_iff bit_and_iff bit_drop_bit_eq)
  then have "ToFastLookupIndexArm x \<le> 0xFFF" by (metis word_and_le1)
  then show "unat (ToFastLookupIndexArm x) < 0x1000" by (simp add: word_le_nat_alt)
qed

lemma find_sorted_least:
  "sorted (map f xs) \<Longrightarrow> find P xs = Some x \<Longrightarrow> y \<in> set xs \<Longrightarrow> P y \<Longrightarrow> f x \<le> f y"
  by (induction xs) (auto split: if_splits)

lemma find_set: "find P xs = Some x \<Longrightarrow> x \<in> set xs \<and> P x"
  by (induction xs) (auto split: if_splits)

lemma count_ones_le: "count_ones (w :: 'a::len word) \<le> LENGTH('a)"
  unfolding count_ones_def by (rule order_trans [OF length_filter_le]) simp

lemma find_by_specificity:
  fixes rows :: "'a::len word matcher list"
  assumes "find P (by_specificity rows) = Some m" "m' \<in> set rows" "P m'"
  shows "count_ones (matcher_mask m') \<le> count_ones (matcher_mask m)"
proof -
  have "LENGTH('a) - count_ones (matcher_mask m) \<le> LENGTH('a) - count_ones (matcher_mask m')"
    by (rule find_sorted_least [OF _ assms(1)]) (use assms in \<open>simp_all add: by_specificity_def\<close>)
  then show ?thesis using count_ones_le [of "matcher_mask m"] count_ones_le [of "matcher_mask m'"] by linarith
qed

section \<open>Properties\<close>

text \<open>C11. The fast lookup of the A64 and the Arm decoder is a linear search.  For every list of
  matchers and every instruction the index stays inside the table, and searching the bucket of
  the instruction gives the first match in the whole ordered list.\<close>

theorem fast_decode_is_search:
  "Decode rows instruction = Some (find (\<lambda>m. Matches m instruction) (a64_order rows))
   \<and> DecodeArm rows instruction = Some (find (\<lambda>m. Matches m instruction) (by_specificity rows))"
  unfolding Decode_def DecodeArm_def GetDecodeTable_def GetArmDecodeTable_def
  using a64_index.lookup_fast_table arm_index.lookup_fast_table by simp

text \<open>C13. The Arm decoder returns the most specific match: it finds a matcher exactly if some matcher
  of its list matches, the one it finds is from the list and passes the assertion of its handler
  call, and no other match has more fixed bits.\<close>

theorem DecodeArm_most_specific:
  "case DecodeArm rows instruction of
     None \<Rightarrow> False
   | Some None \<Rightarrow> list_all (\<lambda>m. \<not> Matches m instruction) rows
   | Some (Some m) \<Rightarrow> m \<in> set rows \<and> matcher_call m instruction \<noteq> None
       \<and> list_all (\<lambda>m'. count_ones (matcher_mask m') \<le> count_ones (matcher_mask m)) (filter (\<lambda>m'. Matches m' instruction) rows)"
proof -
  have d: "DecodeArm rows instruction = Some (find (\<lambda>m. Matches m instruction) (by_specificity rows))"
    unfolding DecodeArm_def GetArmDecodeTable_def using arm_index.lookup_fast_table by simp
  have set: "set (by_specificity rows) = set rows" by (simp add: by_specificity_def)
  show ?thesis
  proof (cases "find (\<lambda>m. Matches m instruction) (by_specificity rows)")
    case None
    then have "\<not> Matches m instruction" if "m \<in> set rows" for m using that set by (metis find_None_iff)
    then show ?thesis using d None by (simp add: list_all_iff)
  next
    case (Some m)
    then show ?thesis
      using d set find_set [OF Some] find_by_specificity [OF Some] by (auto simp: list_all_iff matcher_call_def)
  qed
qed

text \<open>C12. A matcher built from a bit string means what the string says.  It is built exactly if the
  string has the width of an instruction and as many fields, that is maximal runs of one letter,
  as the handler has arguments.  It then matches the instructions that have a zero where the
  string has a zero and a one where it has a one, and the arguments are the bits of the fields.\<close>

theorem GetMatcher_meaning:
  fixes instruction :: "'a::len word"
  shows "case GetMatcher N name bs :: 'a word matcher option of
     None \<Rightarrow> length bs \<noteq> LENGTH('a) \<or> length (bit_fields bs) \<noteq> N
   | Some m \<Rightarrow> length bs = LENGTH('a) \<and> length (bit_fields bs) = N
       \<and> (Matches m instruction = list_all2 (\<lambda>c b. (c = CHR ''0'' \<and> \<not> b) \<or> (c = CHR ''1'' \<and> b) \<or> c \<notin> {CHR ''0'', CHR ''1''})
             bs (map (bit instruction) (rev [0..<LENGTH('a)])))
       \<and> matcher_call m instruction =
           (if Matches m instruction then Some (map (\<lambda>(lo, n). get_bits lo (lo + n - 1) instruction) (bit_fields bs)) else None)"
proof (cases "GetMatcher N name bs :: 'a word matcher option")
  case None
  then show ?thesis
    using GetArgInfo_fields [of bs N, where 'a = 'a] by (auto simp: GetMatcher_def split: if_splits prod.splits)
next
  case (Some m)
  then have len: "length bs = LENGTH('a)" by (auto simp: GetMatcher_def split: if_splits)
  then have f: "length (bit_fields bs) = N" "arg_masks m = map field_mask (bit_fields bs)" "arg_shifts m = map fst (bit_fields bs)"
    using Some GetArgInfo_fields [of bs N, where 'a = 'a] by (auto simp: GetMatcher_def split: if_splits prod.splits)
  have "Matches m instruction = list_all2 (\<lambda>c b. (c = CHR ''0'' \<and> \<not> b) \<or> (c = CHR ''1'' \<and> b) \<or> c \<notin> {CHR ''0'', CHR ''1''})
      bs (map (bit instruction) (rev [0..<LENGTH('a)]))"
    using len by (auto simp: Matches_bits [OF len Some] list_all_iff list_all2_conv_all_nth rev_nth)
  moreover have "map2 (\<lambda>msk shift. drop_bit shift (instruction AND msk)) (map field_mask (bit_fields bs)) (map fst (bit_fields bs))
      = map (\<lambda>(lo, n). get_bits lo (lo + n - 1) instruction) (bit_fields bs)"
    by (auto simp: map2_map_map get_bits_def field_mask_def)
  ultimately show ?thesis using Some len f by (simp add: matcher_call_def)
qed

theorem GetMatcher_meaning_witness:
  "\<exists>m. GetMatcher 1 ''SVC'' ''11011111vvvvvvvv'' = Some (m :: 16 word matcher) \<and> matcher_call m 0xDF12 = Some [0x12]"
proof -
  have f: "bit_fields ''11011111vvvvvvvv'' = [(0, 8)]" by code_simp
  have u: "rev [0..<16] = [15, 14, 13, 12, 11, 10, 9, 8, 7, 6, 5, 4, 3, 2, 1, 0]" by code_simp
  have m: "list_all2 (\<lambda>c b. (c = CHR ''0'' \<and> \<not> b) \<or> (c = CHR ''1'' \<and> b) \<or> c \<notin> {CHR ''0'', CHR ''1''})
      ''11011111vvvvvvvv'' (map (bit (0xDF12 :: 16 word)) (rev [0..<16]))" unfolding u by simp
  have g: "get_bits 0 7 (0xDF12 :: 16 word) = 0x12" by code_simp
  show ?thesis
    using GetMatcher_meaning [where N = 1 and name = "''SVC''" and bs = "''11011111vvvvvvvv''" and instruction = "0xDF12 :: 16 word"] m
    unfolding f by (simp add: g split: option.splits)
qed

end
