(* ===== verification/Decoder_Tables.thy ===== *)
theory Decoder_Tables
  imports Decoder
begin

text \<open>
  The table of the 16-bit Thumb instructions and the order of its rows.  This decoder neither
  sorts its table nor indexes it, so its result depends on the order in which the rows are
  written.
\<close>

section \<open>The table (A32/decoder/thumb16.inc)\<close>

text \<open>Every row has the name of the instruction, the number of arguments of its handler as declared in
  \<^verbatim>\<open>A32/translate/impl/a32_translate_impl.h\<close>, and its bit string.\<close>

definition thumb16_rows :: "(string \<times> nat \<times> string) list" where
  "thumb16_rows =
    [(''LSL (imm)'', 3, ''00000vvvvvmmmddd''),
     (''LSR (imm)'', 3, ''00001vvvvvmmmddd''),
     (''ASR (imm)'', 3, ''00010vvvvvmmmddd''),
     (''ADD (reg, T1)'', 3, ''0001100mmmnnnddd''),
     (''SUB (reg)'', 3, ''0001101mmmnnnddd''),
     (''ADD (imm, T1)'', 3, ''0001110vvvnnnddd''),
     (''SUB (imm, T1)'', 3, ''0001111vvvnnnddd''),
     (''MOV (imm)'', 2, ''00100dddvvvvvvvv''),
     (''CMP (imm)'', 2, ''00101nnnvvvvvvvv''),
     (''ADD (imm, T2)'', 2, ''00110dddvvvvvvvv''),
     (''SUB (imm, T2)'', 2, ''00111dddvvvvvvvv''),
     (''AND (reg)'', 2, ''0100000000mmmddd''),
     (''EOR (reg)'', 2, ''0100000001mmmddd''),
     (''LSL (reg)'', 2, ''0100000010mmmddd''),
     (''LSR (reg)'', 2, ''0100000011mmmddd''),
     (''ASR (reg)'', 2, ''0100000100mmmddd''),
     (''ADC (reg)'', 2, ''0100000101mmmddd''),
     (''SBC (reg)'', 2, ''0100000110mmmddd''),
     (''ROR (reg)'', 2, ''0100000111sssddd''),
     (''TST (reg)'', 2, ''0100001000mmmnnn''),
     (''RSB (imm)'', 2, ''0100001001nnnddd''),
     (''CMP (reg, T1)'', 2, ''0100001010mmmnnn''),
     (''CMN (reg)'', 2, ''0100001011mmmnnn''),
     (''ORR (reg)'', 2, ''0100001100mmmddd''),
     (''MUL (reg)'', 2, ''0100001101nnnddd''),
     (''BIC (reg)'', 2, ''0100001110mmmddd''),
     (''MVN (reg)'', 2, ''0100001111mmmddd''),
     (''ADD (reg, T2)'', 3, ''01000100Dmmmmddd''),
     (''CMP (reg, T2)'', 3, ''01000101Nmmmmnnn''),
     (''MOV (reg)'', 3, ''01000110Dmmmmddd''),
     (''LDR (literal)'', 2, ''01001tttvvvvvvvv''),
     (''STR (reg)'', 3, ''0101000mmmnnnttt''),
     (''STRH (reg)'', 3, ''0101001mmmnnnttt''),
     (''STRB (reg)'', 3, ''0101010mmmnnnttt''),
     (''LDRSB (reg)'', 3, ''0101011mmmnnnttt''),
     (''LDR (reg)'', 3, ''0101100mmmnnnttt''),
     (''LDRH (reg)'', 3, ''0101101mmmnnnttt''),
     (''LDRB (reg)'', 3, ''0101110mmmnnnttt''),
     (''LDRSH (reg)'', 3, ''0101111mmmnnnttt''),
     (''STR (imm, T1)'', 3, ''01100vvvvvnnnttt''),
     (''LDR (imm, T1)'', 3, ''01101vvvvvnnnttt''),
     (''STRB (imm)'', 3, ''01110vvvvvnnnttt''),
     (''LDRB (imm)'', 3, ''01111vvvvvnnnttt''),
     (''STRH (imm)'', 3, ''10000vvvvvnnnttt''),
     (''LDRH (imm)'', 3, ''10001vvvvvnnnttt''),
     (''STR (imm, T2)'', 2, ''10010tttvvvvvvvv''),
     (''LDR (imm, T2)'', 2, ''10011tttvvvvvvvv''),
     (''ADR'', 2, ''10100dddvvvvvvvv''),
     (''ADD (SP plus imm, T1)'', 2, ''10101dddvvvvvvvv''),
     (''ADD (SP plus imm, T2)'', 1, ''101100000vvvvvvv''),
     (''SUB (SP minus imm)'', 1, ''101100001vvvvvvv''),
     (''SEV'', 0, ''1011111101000000''),
     (''SEVL'', 0, ''1011111101010000''),
     (''WFE'', 0, ''1011111100100000''),
     (''WFI'', 0, ''1011111100110000''),
     (''YIELD'', 0, ''1011111100010000''),
     (''NOP'', 0, ''10111111----0000''),
     (''IT'', 1, ''10111111iiiiiiii''),
     (''SXTH'', 2, ''1011001000mmmddd''),
     (''SXTB'', 2, ''1011001001mmmddd''),
     (''UXTH'', 2, ''1011001010mmmddd''),
     (''UXTB'', 2, ''1011001011mmmddd''),
     (''PUSH'', 2, ''1011010Mxxxxxxxx''),
     (''POP'', 2, ''1011110Pxxxxxxxx''),
     (''SETEND'', 1, ''101101100101x000''),
     (''CPS'', 4, ''10110110011m0aif''),
     (''REV'', 2, ''1011101000mmmddd''),
     (''REV16'', 2, ''1011101001mmmddd''),
     (''REVSH'', 2, ''1011101011mmmddd''),
     (''BKPT'', 1, ''10111110xxxxxxxx''),
     (''STMIA'', 2, ''11000nnnxxxxxxxx''),
     (''LDMIA'', 2, ''11001nnnxxxxxxxx''),
     (''BX'', 1, ''010001110mmmm000''),
     (''BLX (reg)'', 1, ''010001111mmmm000''),
     (''CBZ/CBNZ'', 4, ''1011o0i1iiiiinnn''),
     (''UDF'', 0, ''11011110--------''),
     (''SVC'', 1, ''11011111xxxxxxxx''),
     (''B (T1)'', 2, ''1101ccccvvvvvvvv''),
     (''B (T2)'', 1, ''11100vvvvvvvvvvv'')]"

definition thumb16_table :: "u16 matcher list" where
  "thumb16_table = List.map_filter (\<lambda>(name, args, bitstring). GetMatcher args name bitstring) thumb16_rows"

section \<open>The order of the rows\<close>

text \<open>Whenever two rows can match the same instruction, the fixed bits of the first include those of
  the second.\<close>

fun specific_first :: "('a::len word \<times> 'a word) list \<Rightarrow> bool" where
  "specific_first [] \<longleftrightarrow> True"
| "specific_first ((m, e) # rs) \<longleftrightarrow> list_all (\<lambda>(m', e'). e AND m' \<noteq> e' AND m \<or> m AND m' = m') rs \<and> specific_first rs"

lemma find_specific_first:
  assumes "specific_first (map (\<lambda>m. (matcher_mask m, matcher_expected m)) ms)"
    and "find (\<lambda>m. Matches m i) ms = Some m" "m' \<in> set ms" "Matches m' i"
  shows "matcher_mask m AND matcher_mask m' = matcher_mask m'"
  using assms
proof (induction ms)
  case (Cons x ms)
  show ?case
  proof (cases "Matches x i")
    case True
    then have "m = x" using Cons.prems by simp
    moreover have "matcher_expected x = i AND matcher_mask x" "matcher_expected m' = i AND matcher_mask m'"
      using True Cons.prems(4) by (simp_all add: Matches_def)
    then have "matcher_expected x AND matcher_mask m' = matcher_expected m' AND matcher_mask x"
      by (simp add: and.assoc and.commute and.left_commute)
    moreover have "m' = x \<or> m' \<in> set ms" using Cons.prems(3) by simp
    ultimately show ?thesis using Cons.prems(1) unfolding list_all_iff by (elim disjE) (simp_all add: list_all_iff)
  next
    case False
    then show ?thesis using Cons by auto
  qed
qed simp

lemma thumb16_rows_build:
  "list_all (\<lambda>(name, args, bitstring). length bitstring = 16 \<and> length (bit_fields bitstring) = args) thumb16_rows"
  by code_simp

lemma thumb16_masks:
  "map (\<lambda>(name, args, bitstring). GetMaskAndExpect bitstring :: u16 \<times> u16) thumb16_rows =
    [(0xF800, 0x0), (0xF800, 0x800), (0xF800, 0x1000), (0xFE00, 0x1800), (0xFE00, 0x1A00), (0xFE00, 0x1C00), (0xFE00,
     0x1E00), (0xF800, 0x2000), (0xF800, 0x2800), (0xF800, 0x3000), (0xF800, 0x3800), (0xFFC0, 0x4000), (0xFFC0, 0x4040),
     (0xFFC0, 0x4080), (0xFFC0, 0x40C0), (0xFFC0, 0x4100), (0xFFC0, 0x4140), (0xFFC0, 0x4180), (0xFFC0, 0x41C0), (0xFFC0,
     0x4200), (0xFFC0, 0x4240), (0xFFC0, 0x4280), (0xFFC0, 0x42C0), (0xFFC0, 0x4300), (0xFFC0, 0x4340), (0xFFC0, 0x4380),
     (0xFFC0, 0x43C0), (0xFF00, 0x4400), (0xFF00, 0x4500), (0xFF00, 0x4600), (0xF800, 0x4800), (0xFE00, 0x5000), (0xFE00,
     0x5200), (0xFE00, 0x5400), (0xFE00, 0x5600), (0xFE00, 0x5800), (0xFE00, 0x5A00), (0xFE00, 0x5C00), (0xFE00, 0x5E00),
     (0xF800, 0x6000), (0xF800, 0x6800), (0xF800, 0x7000), (0xF800, 0x7800), (0xF800, 0x8000), (0xF800, 0x8800), (0xF800,
     0x9000), (0xF800, 0x9800), (0xF800, 0xA000), (0xF800, 0xA800), (0xFF80, 0xB000), (0xFF80, 0xB080), (0xFFFF, 0xBF40),
     (0xFFFF, 0xBF50), (0xFFFF, 0xBF20), (0xFFFF, 0xBF30), (0xFFFF, 0xBF10), (0xFF0F, 0xBF00), (0xFF00, 0xBF00), (0xFFC0,
     0xB200), (0xFFC0, 0xB240), (0xFFC0, 0xB280), (0xFFC0, 0xB2C0), (0xFE00, 0xB400), (0xFE00, 0xBC00), (0xFFF7, 0xB650),
     (0xFFE8, 0xB660), (0xFFC0, 0xBA00), (0xFFC0, 0xBA40), (0xFFC0, 0xBAC0), (0xFF00, 0xBE00), (0xF800, 0xC000), (0xF800,
     0xC800), (0xFF87, 0x4700), (0xFF87, 0x4780), (0xF500, 0xB100), (0xFF00, 0xDE00), (0xFF00, 0xDF00), (0xF000, 0xD000),
     (0xF800, 0xE000)]"
  by (simp add: thumb16_rows_def GetMaskAndExpect_def)

lemma thumb16_specific_first:
  "specific_first (map (\<lambda>(name, args, bitstring). GetMaskAndExpect bitstring :: u16 \<times> u16) thumb16_rows)"
  unfolding thumb16_masks by code_simp

lemma GetMatcher_built:
  assumes "length bs = LENGTH('a::len)" "length (bit_fields bs) = N"
  shows "\<exists>m :: 'a word matcher. GetMatcher N name bs = Some m \<and> (matcher_mask m, matcher_expected m) = GetMaskAndExpect bs"
  using assms GetArgInfo_fields [of bs N, where 'a = 'a] by (auto simp: GetMatcher_def split: prod.split)

lemma built_rows:
  assumes "list_all (\<lambda>(name, args, bitstring). length bitstring = LENGTH('a::len) \<and> length (bit_fields bitstring) = args) rows"
  shows "map (\<lambda>m :: 'a word matcher. (matcher_mask m, matcher_expected m)) (List.map_filter (\<lambda>(name, args, bitstring). GetMatcher args name bitstring) rows)
    = map (\<lambda>(name, args, bitstring). GetMaskAndExpect bitstring) rows"
  using assms
proof (induction rows)
  case (Cons r rows)
  obtain name args bs where r: "r = (name, args, bs)" by (cases r)
  have "length bs = LENGTH('a)" "length (bit_fields bs) = args" using Cons.prems r by simp_all
  from GetMatcher_built [OF this, of name] obtain m :: "'a word matcher"
    where "GetMatcher args name bs = Some m" "(matcher_mask m, matcher_expected m) = GetMaskAndExpect bs" by blast
  then show ?case using Cons r by (simp add: map_filter_simps)
qed (simp add: map_filter_simps)

section \<open>Properties\<close>

text \<open>C14. The table of the 16-bit Thumb instructions is well formed and its order is right: every row
  builds a matcher for its handler, and for every one of the 65536 instructions the decoder, which
  takes the first match, takes a match whose fixed bits include those of every other match; it
  finds none only if no row matches.\<close>

theorem DecodeThumb16_most_specific:
  "length thumb16_table = length thumb16_rows
   \<and> (case DecodeThumb16 thumb16_table i of
        None \<Rightarrow> list_all (\<lambda>m. \<not> Matches m i) thumb16_table
      | Some m \<Rightarrow> m \<in> set thumb16_table \<and> matcher_call m i \<noteq> None
          \<and> list_all (\<lambda>m'. matcher_mask m AND matcher_mask m' = matcher_mask m') (filter (\<lambda>m'. Matches m' i) thumb16_table))"
proof -
  have rows: "list_all (\<lambda>(name, args, bitstring). length bitstring = LENGTH(16) \<and> length (bit_fields bitstring) = args) thumb16_rows"
    using thumb16_rows_build by simp
  have m: "map (\<lambda>m. (matcher_mask m, matcher_expected m)) thumb16_table = map (\<lambda>(name, args, bitstring). GetMaskAndExpect bitstring) thumb16_rows"
    unfolding thumb16_table_def by (rule built_rows [OF rows])
  have "length thumb16_table = length thumb16_rows" using arg_cong [OF m, of length] by simp
  moreover have s: "specific_first (map (\<lambda>m. (matcher_mask m, matcher_expected m)) thumb16_table)"
    unfolding m by (rule thumb16_specific_first)
  have "case DecodeThumb16 thumb16_table i of
        None \<Rightarrow> list_all (\<lambda>m. \<not> Matches m i) thumb16_table
      | Some m \<Rightarrow> m \<in> set thumb16_table \<and> matcher_call m i \<noteq> None
          \<and> list_all (\<lambda>m'. matcher_mask m AND matcher_mask m' = matcher_mask m') (filter (\<lambda>m'. Matches m' i) thumb16_table)"
  proof (cases "find (\<lambda>m. Matches m i) thumb16_table")
    case None
    then have "\<not> Matches m i" if "m \<in> set thumb16_table" for m using that by (metis find_None_iff)
    then show ?thesis using None by (simp add: DecodeThumb16_def list_all_iff)
  next
    case (Some m)
    then show ?thesis
      using find_set [OF Some] find_specific_first [OF s Some] by (auto simp: DecodeThumb16_def list_all_iff matcher_call_def)
  qed
  ultimately show ?thesis by blast
qed

end
