(* ===== verification/Spec2Isabelle.thy ===== *)
theory Spec2Isabelle
  imports Identity_Removal Memory_Reads Location Crypto FP_Ops Exclusive_Monitor Jit_State Decoder_Tables
begin

text \<open>
  \<^bold>\<open>Umbra: a verification library for the recompiler's core\<close>

  Umbra is a dynamic recompiler for ARM guests.  A front end translates guest
  instructions into basic blocks of an intermediate representation (IR); optimisation
  passes rewrite a block; a back end emits host code for it; blocks are cached under
  a 64-bit location; instructions with no convenient host counterpart are executed by
  software helpers.  This library models the parts of that pipeline that are pure
  computation on the program's own data, and shows what they promise each other.

  \<^bold>\<open>Parts, theories and sources\<close> (paths are relative to \<^verbatim>\<open>src/src/umbra/\<close>)

  \<^item> \<open>Umbra_Prelude\<close>: integer types, assertions as options, bit-level equality of words.
  \<^item> \<open>Bit_Util\<close>: \<^verbatim>\<open>externals/mcl/.../bit/*.hpp\<close> and \<^verbatim>\<open>common/safe_ops.h\<close>, polymorphic in the width.
  \<^item> \<open>U128\<close>: \<^verbatim>\<open>common/u128.{h,cpp}\<close>; the pair of halves refines the 128-bit word.
  \<^item> \<open>IR_Types\<close>: \<^verbatim>\<open>ir/type.*\<close>, \<^verbatim>\<open>ir/opcodes.*\<close>, \<^verbatim>\<open>ir/opcodes.inc\<close>: the type flags and the table of 727 opcodes.
    Opcodes are strings; the table is a list of rows.
  \<^item> \<open>IR_Predicates\<close>: the classification predicates of \<^verbatim>\<open>ir/microinstruction.cpp\<close>.
  \<^item> \<open>IR_Heap\<close>: \<^verbatim>\<open>ir/value.*\<close> and the state-changing half of \<^verbatim>\<open>ir/microinstruction.*\<close>.  The pool of
    instructions is a list, a pointer is an index into it, and an operation whose assertion
    fails, or which would chase a cycle of identities for ever, is \<^const>\<open>None\<close>.
  \<^item> \<open>IR_Wf\<close>: the invariant of the pool (\<open>wf_heap\<close>): operands come earlier than their users, use
    counts are the number of uses, operands have the types of the table, and the list of
    pseudo-operations of an instruction links exactly the pseudo-operations that observe it.
    \<open>SetArg\<close>, \<open>Invalidate\<close> and \<open>ReplaceUsesWith\<close> succeed on such a pool and keep the invariant.
  \<^item> \<open>IR_Semantics\<close>: what a block does.  The calculation opcodes have a fixed meaning; every other
    instruction is executed by a machine, a parameter with two laws (locale \<open>ir_machine\<close>): an
    instruction that is classified as free of side effects changes nothing, and a result has
    the type of the table.  The trace machine, which records the side effects and answers
    reads by an arbitrary function of that history, interprets it.  \<open>run_sim_step\<close> and \<open>run_sim\<close> are the
    simulation lemmas the passes use, for one machine and for every machine.
  \<^item> \<open>Opt_Passes\<close>: \<^verbatim>\<open>ir/opt/\<close>: dead code elimination, naming, verification.
  \<^item> \<open>Constant_Propagation\<close>: \<^verbatim>\<open>ir/opt/constant_propagation_pass.cpp\<close>, every folding function
    and the switch.  \<open>fold_ok\<close> is the contract of a row of the switch.  \<open>Constant_Folding\<close>, \<open>Fold_Carry\<close> and
    \<open>Fold_Shifts\<close> prove it for the rows that rewrite operands, through the locales \<open>commutative_fold\<close>,
    \<open>division_fold\<close>, \<open>add_fold\<close>, \<open>shift32_fold\<close> and \<open>shift64_fold\<close>, interpreted for every opcode; \<open>Fold_Pass\<close>
    puts the rows together for the pass.
  \<^item> \<open>Identity_Removal\<close>, \<open>Memory_Reads\<close>: \<^verbatim>\<open>ir/opt/identity_removal_pass.cpp\<close> and
    \<^verbatim>\<open>ir/opt/a32_constant_memory_reads_pass.cpp\<close>; the user's callbacks are a parameter.
  \<^item> \<open>Status_Registers\<close>: \<^verbatim>\<open>frontend/A32/{ITState,PSR,FPSCR}.h\<close>, \<^verbatim>\<open>common/fp/{fpcr,fpsr}.h\<close>.  The contract
    of a flag is the locale \<open>register_flag\<close>, interpreted for each of the 32 flags with a setter.
  \<^item> \<open>Location\<close>: the AArch32 and AArch64 location descriptors; the locale \<open>packed_location\<close> is what
    the block cache relies on, interpreted for both.
  \<^item> \<open>Crypto\<close>: \<^verbatim>\<open>common/crypto/\<close>.
  \<^item> \<open>FP_Core\<close>, \<open>FP_Ops\<close>: \<^verbatim>\<open>common/fp/\<close> and \<^verbatim>\<open>common/math_util.cpp\<close>, for the three formats.
  \<^item> \<open>Exclusive_Monitor\<close>: \<^verbatim>\<open>interface/exclusive_monitor.h\<close> and its \<^verbatim>\<open>.cpp\<close>.  The contract of exclusive loads and
    stores is the locale \<open>exclusive_contract\<close>, interpreted on sequences of monitor operations.
  \<^item> \<open>Jit_State\<close>: the guest state of the three back ends, \<^verbatim>\<open>backend/*/a32_jitstate\<close>, \<^verbatim>\<open>a64_jitstate\<close> and
    \<^verbatim>\<open>nzcv_util.h\<close>.  The locale \<open>guest_status\<close> is what the run loop relies on, interpreted for each.
  \<^item> \<open>Decoder\<close>, \<open>Decoder_Tables\<close>: \<^verbatim>\<open>frontend/decoder/\<close> and the decoders of both architectures; the locale
    \<open>fast_index\<close> is the contract of a lookup index, interpreted for A64 and Arm.

  \<^bold>\<open>What the lemmas show\<close>

  \<^item> Passes: dead code elimination succeeds on every well-formed block, keeps it well formed,
    leaves no dead instruction, and preserves the sequence of side effects on every machine;
    the verification pass accepts every well-formed block.  Constant propagation succeeds and
    preserves the side effects as well, for blocks whose instructions are \<open>regular\<close> when the pass
    reaches them: no addition of a carry to constants that cancel, where the source drops
    the carry (a theorem shows it on a concrete block), no division of the least 64-bit integer by
    -1, which is undefined in the source, and at most one reader of the carry of a shift.  Identity
    removal returns, preserves the side effects and leaves no alias, for blocks whose
    pseudo-operations do not refer to an alias.  Folding reads of read-only memory leaves no such
    read at a constant address and preserves the side effects on every machine whose memory reads
    agree with the user's callbacks, for blocks in which no pseudo-operation asks a memory read
    for flags.
  \<^item> Exclusive monitor: every operation returns with the lock released, and a store that succeeds
    follows a mark of the same processor with nothing in between that ends the reservation, and
    compares with the bytes that mark has read.  Both exclude the address that serves as the
    sentinel for no reservation; what a store without a reservation does, on that address too, is
    a property of its own.
  \<^item> Guest state: the back ends agree on the status registers and the location after any writes.
  \<^item> Decoders: a matcher means its bit string, the indexed lookup is a linear search, and the
    search finds the most specific match.
  \<^item> Tables: an opcode without a result is classified as having a side effect; the CRC tables
    are the remainders of the two polynomials; the AES boxes and column mixings are inverse.
  \<^item> Registers and locations: reserved bits stay clear, a setter changes its own field of the
    register or descriptor and no other, checked setters reject exactly the values without
    encoding, and a location is recovered from its hash.
  \<^item> Arithmetic: 128-bit operators refine word arithmetic; a residual error classifies the
    fraction dropped by a shift of any length; the rounding step of the conversions to
    integers is the rounding of the mode; while no trap is enabled each of the eleven floating
    point operations returns, for the three formats and the arguments its assertions allow; none
    ever clears a status flag; the reciprocal square root table holds exact roots that fit its bytes.

  \<^bold>\<open>Bounds\<close>.  The pool is smaller than \<open>2^30\<close> instructions, so that four operands each cannot
  overflow a 32-bit use count.  The only fuel is that of the identity chase: as many steps as
  there are instructions, which an acyclic pool never exceeds.

  \<^bold>\<open>Not modelled\<close>.  Code emission and register allocation (\<^verbatim>\<open>backend/\<close>) write host machine code
  through the assemblers vendored under \<^verbatim>\<open>externals/\<close>; stating that the emitted code is correct
  needs a semantics of the host instruction set, which the library does not have.  The other optimisation passes
  (get and set elimination, polyfill, cache operation hooks and merging of interpreted blocks), the IR emitters
  and the translators of the guest instructions (\<^verbatim>\<open>frontend/*/translate\<close>) are plain code over the
  model's types that the library does not cover, and of the decode tables only the rows of the
  16-bit Thumb table are transcribed.  The exception
  handlers, spin locks and disassemblers are operating system or host specific.  Formatting
  functions for debug output are left out.
\<close>

end
